(* ===== verification/Trading_Prelude.thy ===== *)
theory Trading_Prelude
  imports Complex_Main "HOL-Library.AList" "HOL-Library.Multiset"
begin

text \<open>
  Shared vocabulary of the development: the exceptions the Python code raises, the
  rendering of f-strings, insertion-ordered dictionaries, Python slices, bounded deques,
  \<open>bisect_left\<close>, and the list lemmas several components use.

  Numbers. Quantities and positions are Python integers at run time (the API model
  \<open>OrderRequest\<close> declares them \<open>int\<close>) and are modelled by themselves. Prices and fees are
  floats. A price is modelled by the decimal number its float prints as, the shortest one
  that reads back as the same float: comparing, copying and \<open>min\<close> agree with Python exactly,
  and so does the check \<open>round(price, 2) == price\<close>, which asks whether that decimal has at
  most two places. Products, sums and averages of prices are exact here and rounded by the
  hardware there.
\<close>

named_theorems wf_intros "introduction rules of the well-formedness invariants"
named_theorems quantity_simps "quantity bookkeeping of the operations"

section \<open>Exceptions and messages\<close>

text \<open>An f-string is the list of its literal parts and interpolated numbers.\<close>

datatype piece = Txt string | Num rat

type_synonym msg = "piece list"

datatype exn =
    ValueError msg
  | KeyError msg
  | RuntimeError msg
  | AssertionError msg
  | TypeError msg
  | AttributeError msg
  | IndexError
  | FileNotFoundError msg
  | YAMLError msg
  | OverflowError
  | ZeroDivisionError

abbreviation lit :: "string \<Rightarrow> msg" where
  "lit s \<equiv> [Txt s]"

text \<open>A list of strings in an f-string: \<open>repr\<close> of the list, with the quotes Python puts.\<close>

definition quoted :: "string \<Rightarrow> string" where
  "quoted s = [CHR 0x27] @ s @ [CHR 0x27]"

fun join :: "string \<Rightarrow> string list \<Rightarrow> string" where
  "join sep [] = []"
| "join sep [x] = x"
| "join sep (x # xs) = x @ sep @ join sep xs"

definition repr_list :: "string list \<Rightarrow> piece" where
  "repr_list xs = Txt (''['' @ join '', '' (map quoted xs) @ '']'')"

section \<open>Dictionaries\<close>

text \<open>
  A Python dict keeps insertion order. Where the code iterates over a dict the model is an
  association list: \<open>AList.update\<close> overwrites in place or appends, as \<open>d[k] = v\<close> does,
  \<open>map_of\<close> is \<open>d.get(k)\<close>.
\<close>

type_synonym ('k, 'v) dict = "('k \<times> 'v) list"

abbreviation dict_keys :: "('k, 'v) dict \<Rightarrow> 'k list" where
  "dict_keys d \<equiv> map fst d"

abbreviation dict_values :: "('k, 'v) dict \<Rightarrow> 'v list" where
  "dict_values d \<equiv> map snd d"

lemma update_key_cases:
  "map_of (AList.update k v d) k' = (if k' = k then Some v else map_of d k')"
  by (simp add: AList.update_conv)

lemma dict_keys_update:
  "dict_keys (AList.update k v d) = (if k \<in> set (dict_keys d) then dict_keys d else dict_keys d @ [k])"
  by (induction d) auto

lemma image_fst_update [simp]: "fst ` set (AList.update k v d) = insert k (fst ` set d)"
  by (induction d) auto

lemma distinct_dict_keys_update:
  "distinct (dict_keys d) \<Longrightarrow> distinct (dict_keys (AList.update k v d))"
  by (simp add: AList.distinct_update)

lemma set_update_distinct:
  "distinct (dict_keys d) \<Longrightarrow>
   set (AList.update k v d) = insert (k, v) {e \<in> set d. fst e \<noteq> k}"
  by (induction d) (auto simp: image_iff split: if_splits)

lemma map_of_in_set: "map_of d k = Some v \<Longrightarrow> (k, v) \<in> set d"
  by (rule map_of_SomeD)

section \<open>Python slices and bounded deques\<close>

text \<open>\<open>xs[:n]\<close> and \<open>xs[i:]\<close>, negative arguments counting from the end.\<close>

definition slice_to :: "int \<Rightarrow> 'a list \<Rightarrow> 'a list" where
  "slice_to n xs = (if 0 \<le> n then take (nat n) xs else take (length xs - nat (- n)) xs)"

definition slice_from :: "int \<Rightarrow> 'a list \<Rightarrow> 'a list" where
  "slice_from i xs = (if 0 \<le> i then drop (nat i) xs else drop (length xs - nat (- i)) xs)"

text \<open>\<open>deque(maxlen=n).append\<close>: the oldest element falls out on the left.\<close>

definition push_bounded :: "nat \<Rightarrow> 'a \<Rightarrow> 'a list \<Rightarrow> 'a list" where
  "push_bounded n x xs = (let ys = xs @ [x] in drop (length ys - n) ys)"

lemma length_push_bounded: "length (push_bounded n x xs) = min n (Suc (length xs))"
  by (auto simp: push_bounded_def Let_def)

lemma last_push_bounded: "0 < n \<Longrightarrow> last (push_bounded n x xs) = x"
  by (simp add: push_bounded_def Let_def)

text \<open>The last \<open>n\<close> elements, what a bounded deque holds.\<close>

definition last_n :: "nat \<Rightarrow> 'a list \<Rightarrow> 'a list" where
  "last_n n xs = drop (length xs - n) xs"

lemma last_n_rev: "last_n n xs = rev (take n (rev xs))"
  by (simp add: last_n_def rev_take)

lemma push_bounded_last_n: "push_bounded n x xs = last_n n (xs @ [x])"
  by (simp only: push_bounded_def last_n_def Let_def)

lemma last_n_append: "last_n n (last_n n xs @ ys) = last_n n (xs @ ys)"
  by (simp add: last_n_rev min_def)

lemma last_n_all: "length xs \<le> n \<Longrightarrow> last_n n xs = xs"
  by (simp add: last_n_def)

section \<open>Rounding and integer conversion\<close>

text \<open>Python's \<open>int(x)\<close> truncates towards zero.\<close>

definition py_int :: "rat \<Rightarrow> int" where
  "py_int q = (if 0 \<le> q then floor q else ceiling q)"

text \<open>
  \<open>round(x, 2)\<close>: nearest hundredth, ties to the even one.
\<close>

definition round_half_even :: "rat \<Rightarrow> int" where
  "round_half_even q =
     (let f = floor q; d = q - of_int f in
      if d < 1/2 then f else if d > 1/2 then f + 1 else if even f then f else f + 1)"

definition py_round2 :: "rat \<Rightarrow> rat" where
  "py_round2 q = of_int (round_half_even (q * 100)) / 100"

lemma py_int_of_int [simp]: "py_int (of_int z) = z"
  by (simp add: py_int_def)

lemma whole_iff_Ints: "q = of_int (py_int q) \<longleftrightarrow> q \<in> \<int>"
  by (metis Ints_cases Ints_of_int py_int_of_int)

lemma round_half_even_of_int [simp]: "round_half_even (of_int z) = z"
  by (simp add: round_half_even_def)

text \<open>The penny check \<open>round(price, 2) == price\<close> accepts exactly the multiples of 1/100.\<close>

lemma py_round2_fixed_iff: "py_round2 q = q \<longleftrightarrow> q * 100 \<in> \<int>"
proof
  assume "py_round2 q = q"
  then have "q * 100 = of_int (round_half_even (q * 100))"
    by (simp add: py_round2_def field_simps)
  then show "q * 100 \<in> \<int>"
    by (metis Ints_of_int)
next
  assume "q * 100 \<in> \<int>"
  then obtain z where "q * 100 = of_int z"
    by (rule Ints_cases)
  then show "py_round2 q = q"
    by (simp add: py_round2_def field_simps)
qed

section \<open>Decimal rendering\<close>

text \<open>\<open>str(n)\<close> and \<open>f"{n:0wd}"\<close> of a non-negative integer.\<close>

definition digit_char :: "nat \<Rightarrow> char" where
  "digit_char n = char_of (48 + n)"

fun decimal :: "nat \<Rightarrow> string" where
  "decimal n = (if n < 10 then [digit_char n] else decimal (n div 10) @ [digit_char (n mod 10)])"

declare decimal.simps [simp del]

definition zero_pad :: "nat \<Rightarrow> string \<Rightarrow> string" where
  "zero_pad w s = replicate (w - length s) (digit_char 0) @ s"

text \<open>Reading the digits back.\<close>

definition digit :: "char \<Rightarrow> nat option" where
  "digit c = (let n = (of_char c :: nat) in if 48 \<le> n \<and> n \<le> 57 then Some (n - 48) else None)"

definition digits_value :: "string \<Rightarrow> nat" where
  "digits_value s = foldl (\<lambda>a c. 10 * a + (of_char c - 48)) 0 s"

lemma of_char_digit: "n < 10 \<Longrightarrow> of_char (digit_char n) = (48 + n :: nat)"
  by (simp add: digit_char_def)

lemma digits_value_snoc: "digits_value (s @ [c]) = 10 * digits_value s + (of_char c - 48)"
  by (simp add: digits_value_def)

lemma digits_value_decimal: "digits_value (decimal n) = n"
proof (induction n rule: decimal.induct)
  case (1 n)
  show ?case
  proof (cases "n < 10")
    case True
    then show ?thesis
      by (simp add: decimal.simps [of n] digits_value_def of_char_digit)
  next
    case False
    with 1 show ?thesis
      by (simp add: decimal.simps [of n] digits_value_snoc of_char_digit)
  qed
qed

lemma digits_value_zero_pad: "digits_value (zero_pad w s) = digits_value s"
proof -
  have "foldl (\<lambda>a c. 10 * a + (of_char c - 48)) 0 (replicate k (digit_char 0)) = (0 :: nat)" for k
    by (induction k) (simp_all add: of_char_digit)
  then show ?thesis
    by (simp add: digits_value_def zero_pad_def)
qed

lemma underscore_not_digit: "n < 10 \<Longrightarrow> digit_char n \<noteq> CHR ''_''"
proof
  assume "n < 10" and "digit_char n = CHR ''_''"
  then have "(48 + n :: nat) = of_char CHR ''_''"
    by (metis of_char_digit)
  with \<open>n < 10\<close> show False by simp
qed

lemma underscore_not_in_decimal: "CHR ''_'' \<notin> set (decimal n)"
proof (induction n rule: decimal.induct)
  case (1 n)
  then show ?case
    using underscore_not_digit [of n] underscore_not_digit [of "n mod 10"]
    by (subst decimal.simps) (auto simp: eq_commute)
qed

text \<open>Two renderings joined by an underscore are equal only when both numbers are.\<close>

lemma decimal_pair_inject:
  assumes "decimal a @ CHR ''_'' # zero_pad w (decimal b) = decimal a' @ CHR ''_'' # zero_pad w (decimal b')"
  shows "a = a' \<and> b = b'"
proof -
  let ?f = "takeWhile (\<lambda>c. c \<noteq> CHR ''_'')" and ?g = "dropWhile (\<lambda>c. c \<noteq> CHR ''_'')"
  have no: "c \<in> set (decimal n) \<Longrightarrow> c \<noteq> CHR ''_''" for n c
    using underscore_not_in_decimal [of n] by metis
  have f: "?f (decimal n @ CHR ''_'' # r) = decimal n" for n r
    by (subst takeWhile_append2) (simp_all add: no)
  have g: "?g (decimal n @ CHR ''_'' # r) = CHR ''_'' # r" for n r
    by (subst dropWhile_append2) (simp_all add: no)
  have "decimal a = decimal a'"
    using arg_cong [OF assms, of ?f] by (simp only: f)
  moreover have "zero_pad w (decimal b) = zero_pad w (decimal b')"
    using arg_cong [OF assms, of ?g] by (simp only: g list.inject)
  ultimately show ?thesis
    by (metis digits_value_decimal digits_value_zero_pad)
qed

section \<open>\<open>bisect.bisect_left\<close>\<close>

function bisect_aux :: "rat list \<Rightarrow> rat \<Rightarrow> nat \<Rightarrow> nat \<Rightarrow> nat" where
  "bisect_aux a x lo hi =
     (if lo < hi then
        let mid = (lo + hi) div 2 in
        if a ! mid < x then bisect_aux a x (Suc mid) hi else bisect_aux a x lo mid
      else lo)"
  by pat_completeness auto
termination
  by (relation "measure (\<lambda>(a, x, lo, hi). hi - lo)") auto

declare bisect_aux.simps [simp del]

definition bisect_left :: "rat list \<Rightarrow> rat \<Rightarrow> nat" where
  "bisect_left a x = bisect_aux a x 0 (length a)"

lemma bisect_aux_correct:
  assumes "sorted a" and "lo \<le> hi" and "hi \<le> length a"
    and "\<forall>i < lo. a ! i < x" and "\<forall>i. hi \<le> i \<longrightarrow> i < length a \<longrightarrow> x \<le> a ! i"
  shows "lo \<le> bisect_aux a x lo hi \<and> bisect_aux a x lo hi \<le> hi \<and>
    (\<forall>i < bisect_aux a x lo hi. a ! i < x) \<and>
    (\<forall>i. bisect_aux a x lo hi \<le> i \<longrightarrow> i < length a \<longrightarrow> x \<le> a ! i)"
  using assms
proof (induction a x lo hi rule: bisect_aux.induct)
  case (1 a x lo hi)
  let ?mid = "(lo + hi) div 2"
  show ?case
  proof (cases "lo < hi")
    case False
    with "1.prems"(2) have [simp]: "lo = hi" by simp
    have "bisect_aux a x hi hi = hi" by (simp add: bisect_aux.simps [of a x hi hi])
    with "1.prems" show ?thesis by simp
  next
    case lohi: True
    then have mid: "lo \<le> ?mid" "?mid < hi" by auto
    show ?thesis
    proof (cases "a ! ?mid < x")
      case True
      have below: "\<forall>i < Suc ?mid. a ! i < x"
      proof (intro allI impI)
        fix i
        assume "i < Suc ?mid"
        then have "a ! i \<le> a ! ?mid"
          using "1.prems"(1,3) mid by (intro sorted_nth_mono) auto
        with True show "a ! i < x" by simp
      qed
      from "1.IH"(1) [OF lohi refl True] "1.prems" below mid True lohi show ?thesis
        by (simp add: bisect_aux.simps [of a x lo hi] Let_def)
    next
      case False
      have above: "\<forall>i. ?mid \<le> i \<longrightarrow> i < length a \<longrightarrow> x \<le> a ! i"
      proof (intro allI impI)
        fix i
        assume "?mid \<le> i" and "i < length a"
        then have "a ! ?mid \<le> a ! i"
          using "1.prems"(1) by (intro sorted_nth_mono)
        with False show "x \<le> a ! i" by simp
      qed
      from "1.IH"(2) [OF lohi refl False] "1.prems" above mid False lohi show ?thesis
        by (simp add: bisect_aux.simps [of a x lo hi] Let_def)
    qed
  qed
qed

text \<open>On a sorted list the binary search finds the length of the strictly smaller prefix.\<close>

lemma bisect_left_takeWhile:
  assumes "sorted a"
  shows "bisect_left a x = length (takeWhile (\<lambda>y. y < x) a)"
proof -
  let ?n = "bisect_left a x"
  from bisect_aux_correct [OF assms, of 0 "length a" x]
  have n: "?n \<le> length a" "\<forall>i < ?n. a ! i < x" "\<forall>i. ?n \<le> i \<longrightarrow> i < length a \<longrightarrow> x \<le> a ! i"
    by (auto simp: bisect_left_def)
  have "takeWhile (\<lambda>y. y < x) a = take ?n a"
    using n by (intro takeWhile_eq_take_P_nth) (auto simp: not_less)
  with n(1) show ?thesis by simp
qed

section \<open>Lists\<close>

lemma sum_list_append_one [simp]: "sum_list (xs @ [x]) = sum_list xs + (x :: rat)"
  by simp

lemma remove1_middle: "x \<notin> set xs \<Longrightarrow> remove1 x (xs @ x # ys) = xs @ ys"
  by (simp add: remove1_append)

lemma sum_list_Ints: "(\<forall>x \<in> set xs. x \<in> \<int>) \<Longrightarrow> sum_list xs \<in> \<int>" for xs :: "rat list"
  by (induction xs) auto

lemma filter_id_conv_all: "(\<forall>x \<in> set xs. P x) \<Longrightarrow> filter P xs = xs"
  by (simp add: filter_id_conv)

end
