(* ===== verification/Core_Models.thy ===== *)
theory Core_Models
  imports Trading_Prelude
begin

text \<open>
  The exchange's data model: \<open>components/core/models.py\<close> and \<open>components/core/types.py\<close>.
  Orders, trades, order results, instruments and the phase types, with the checks their
  \<open>__post_init__\<close> methods make. An order's \<open>timestamp\<close> and a trade's \<open>timestamp\<close> and
  \<open>trade_id\<close> come from \<open>datetime.now()\<close> and \<open>uuid4()\<close>; no operation of the exchange reads
  them, and the records leave them out.
\<close>

section \<open>Enumerations\<close>

datatype order_side = BUY | SELL

datatype order_type = LIMIT | MARKET

datatype liquidity_type = MAKER | TAKER

datatype phase_type = PRE_OPEN | OPENING_AUCTION | CONTINUOUS | CLOSED

text \<open>\<open>str\<close>-valued enums compare equal to their values; \<open>.value\<close> reads them.\<close>

fun side_value :: "order_side \<Rightarrow> string" where
  "side_value BUY = ''buy''"
| "side_value SELL = ''sell''"

fun order_type_value :: "order_type \<Rightarrow> string" where
  "order_type_value LIMIT = ''limit''"
| "order_type_value MARKET = ''market''"

fun liquidity_value :: "liquidity_type \<Rightarrow> string" where
  "liquidity_value MAKER = ''maker''"
| "liquidity_value TAKER = ''taker''"

fun phase_value :: "phase_type \<Rightarrow> string" where
  "phase_value PRE_OPEN = ''pre_open''"
| "phase_value OPENING_AUCTION = ''opening_auction''"
| "phase_value CONTINUOUS = ''continuous''"
| "phase_value CLOSED = ''closed''"

text \<open>\<open>OrderSide(s)\<close> and \<open>PhaseType(s)\<close>: the member with that value, else ValueError.\<close>

definition parse_side :: "string \<Rightarrow> exn + order_side" where
  "parse_side s =
     (if s = ''buy'' then Inr BUY else if s = ''sell'' then Inr SELL
      else Inl (ValueError [Txt (quoted s), Txt '' is not a valid OrderSide'']))"

definition parse_phase :: "string \<Rightarrow> exn + phase_type" where
  "parse_phase s =
     (if s = ''pre_open'' then Inr PRE_OPEN
      else if s = ''opening_auction'' then Inr OPENING_AUCTION
      else if s = ''continuous'' then Inr CONTINUOUS
      else if s = ''closed'' then Inr CLOSED
      else Inl (ValueError [Txt (quoted s), Txt '' is not a valid PhaseType'']))"

lemma parse_side_value [simp]: "parse_side (side_value s) = Inr s"
  by (cases s) (simp_all add: parse_side_def)

lemma parse_phase_value [simp]: "parse_phase (phase_value p) = Inr p"
  by (cases p) (simp_all add: parse_phase_def)

lemma side_value_eq_iff [simp]: "side_value s = side_value s' \<longleftrightarrow> s = s'"
  by (cases s; cases s') simp_all

lemma phase_value_inj: "phase_value p = phase_value q \<Longrightarrow> p = q"
  by (cases p; cases q) simp_all

text \<open>\<open>str.lower()\<close> and \<open>str.upper()\<close> on ASCII letters.\<close>

definition lower_char :: "char \<Rightarrow> char" where
  "lower_char c =
     (let n = (of_char c :: nat) in if 65 \<le> n \<and> n \<le> 90 then char_of (n + 32) else c)"

definition upper_char :: "char \<Rightarrow> char" where
  "upper_char c =
     (let n = (of_char c :: nat) in if 97 \<le> n \<and> n \<le> 122 then char_of (n - 32) else c)"

definition lower :: "string \<Rightarrow> string" where
  "lower s = map lower_char s"

definition upper :: "string \<Rightarrow> string" where
  "upper s = map upper_char s"

lemma lower_side_value [simp]: "lower (side_value s) = side_value s"
  by (cases s) (simp_all add: lower_def lower_char_def)

section \<open>Orders\<close>

record order =
  instrument_id :: string
  side :: order_side
  quantity :: rat
  trader_id :: string
  price :: "rat option"
  order_id :: string
  order_type :: order_type
  client_order_id :: "string option"
  remaining_quantity :: rat

definition is_buy :: "order \<Rightarrow> bool" where
  "is_buy o1 \<longleftrightarrow> side o1 = BUY"

definition is_sell :: "order \<Rightarrow> bool" where
  "is_sell o1 \<longleftrightarrow> side o1 = SELL"

definition is_market_order :: "order \<Rightarrow> bool" where
  "is_market_order o1 \<longleftrightarrow> order_type o1 = MARKET"

definition is_limit_order :: "order \<Rightarrow> bool" where
  "is_limit_order o1 \<longleftrightarrow> order_type o1 = LIMIT"

definition is_filled :: "order \<Rightarrow> bool" where
  "is_filled o1 \<longleftrightarrow> remaining_quantity o1 = 0"

definition filled_quantity :: "order \<Rightarrow> rat" where
  "filled_quantity o1 = quantity o1 - remaining_quantity o1"

text \<open>
  The constructor with its \<open>__post_init__\<close>. An \<open>OrderSide\<close> is a \<open>str\<close>, so a member passed
  as the side goes through the same \<open>lower()\<close> and lookup as a plain string. The order
  type is computed from the price; whatever the caller passed for it is overwritten.
\<close>

definition new_order ::
    "string \<Rightarrow> string \<Rightarrow> rat \<Rightarrow> string \<Rightarrow> rat option \<Rightarrow> string \<Rightarrow> string option \<Rightarrow> exn + order" where
  "new_order iid sd qty trader pr oid coid =
     (case parse_side (lower sd) of
        Inl e \<Rightarrow> Inl e
      | Inr s \<Rightarrow>
          let ty = (if pr = None then MARKET else LIMIT) in
          if ty = LIMIT \<and> (case pr of None \<Rightarrow> True | Some p \<Rightarrow> p \<le> 0) then
            Inl (ValueError (lit ''Limit orders must have a positive price''))
          else if ty = LIMIT \<and> (case pr of None \<Rightarrow> False | Some p \<Rightarrow> py_round2 p \<noteq> p) then
            Inl (ValueError (lit ''Order price must be in penny increments''))
          else if qty \<le> 0 then
            Inl (ValueError (lit ''Order quantity must be positive''))
          else
            Inr \<lparr>instrument_id = iid, side = s, quantity = qty, trader_id = trader, price = pr,
                 order_id = oid, order_type = ty, client_order_id = coid,
                 remaining_quantity = qty\<rparr>)"

definition fill :: "order \<Rightarrow> rat \<Rightarrow> exn + order" where
  "fill o1 q =
     (if q \<le> 0 then Inl (ValueError (lit ''Fill quantity must be positive''))
      else if q > remaining_quantity o1 then
        Inl (ValueError [Txt ''Fill quantity '', Num q, Txt '' exceeds remaining quantity '',
                         Num (remaining_quantity o1)])
      else Inr (o1\<lparr>remaining_quantity := remaining_quantity o1 - q\<rparr>))"

text \<open>The state of an order that \<open>fill\<close> and the batch engine's updates leave behind.\<close>

definition take_qty :: "rat \<Rightarrow> order \<Rightarrow> order" where
  "take_qty q o1 = o1\<lparr>remaining_quantity := remaining_quantity o1 - q\<rparr>"

lemma take_qty_simps [simp]:
  "instrument_id (take_qty q o1) = instrument_id o1"
  "side (take_qty q o1) = side o1"
  "quantity (take_qty q o1) = quantity o1"
  "trader_id (take_qty q o1) = trader_id o1"
  "price (take_qty q o1) = price o1"
  "order_id (take_qty q o1) = order_id o1"
  "order_type (take_qty q o1) = order_type o1"
  "client_order_id (take_qty q o1) = client_order_id o1"
  "remaining_quantity (take_qty q o1) = remaining_quantity o1 - q"
  by (simp_all add: take_qty_def)

lemma fill_ok: "0 < q \<Longrightarrow> q \<le> remaining_quantity o1 \<Longrightarrow> fill o1 q = Inr (take_qty q o1)"
  by (simp add: fill_def take_qty_def)

lemma fill_Inr: "fill o1 q = Inr o2 \<longleftrightarrow> 0 < q \<and> q \<le> remaining_quantity o1 \<and> o2 = take_qty q o1"
  by (auto simp: fill_def take_qty_def)

text \<open>
  What the constructor guarantees, and what the exchange keeps true of every order in
  flight: a market order has no price, a limit order a positive penny price, and the
  remaining quantity stays between 0 and the original quantity. Quantities are whole
  numbers, as the API declares them.
\<close>

definition order_ok :: "order \<Rightarrow> bool" where
  "order_ok o1 \<longleftrightarrow>
     (order_type o1 = (if price o1 = None then MARKET else LIMIT)) \<and>
     (case price o1 of None \<Rightarrow> True | Some p \<Rightarrow> 0 < p \<and> p * 100 \<in> \<int>) \<and>
     0 < quantity o1 \<and> quantity o1 \<in> \<int> \<and>
     0 \<le> remaining_quantity o1 \<and> remaining_quantity o1 \<le> quantity o1 \<and>
     remaining_quantity o1 \<in> \<int>"

lemma order_ok_limit_iff: "order_ok o1 \<Longrightarrow> is_limit_order o1 \<longleftrightarrow> price o1 \<noteq> None"
  by (simp add: order_ok_def is_limit_order_def)

lemma order_ok_take_qty [wf_intros]:
  "order_ok o1 \<Longrightarrow> 0 \<le> q \<Longrightarrow> q \<le> remaining_quantity o1 \<Longrightarrow> q \<in> \<int> \<Longrightarrow> order_ok (take_qty q o1)"
  by (simp add: order_ok_def)

lemma new_order_ok:
  assumes "new_order iid sd qty trader pr oid coid = Inr o1" and "qty \<in> \<int>"
  shows "order_ok o1 \<and> remaining_quantity o1 = quantity o1 \<and> 0 < remaining_quantity o1"
  using assms
  by (auto simp: new_order_def Let_def order_ok_def py_round2_fixed_iff
      split: sum.splits if_splits option.splits)

section \<open>Trades\<close>

record trade =
  t_instrument_id :: string
  buyer_id :: string
  seller_id :: string
  t_price :: rat
  t_quantity :: rat
  buyer_order_id :: string
  seller_order_id :: string
  aggressor_side :: string

text \<open>The dataclass constructor followed by its \<open>__post_init__\<close> checks.\<close>

definition new_trade :: "trade \<Rightarrow> exn + trade" where
  "new_trade t =
     (if t_price t \<le> 0 then Inl (ValueError (lit ''Trade price must be positive''))
      else if t_quantity t \<le> 0 then Inl (ValueError (lit ''Trade quantity must be positive''))
      else if t_quantity t \<noteq> of_int (py_int (t_quantity t)) then
        Inl (ValueError (lit ''Trade quantity must be a whole number''))
      else if aggressor_side t \<notin> {''buy'', ''sell''} then
        Inl (ValueError [Txt (''Aggressor side must be '' @ quoted ''buy'' @ '' or '' @ quoted ''sell'')])
      else Inr t)"

definition trade_value :: "trade \<Rightarrow> rat" where
  "trade_value t = t_price t * t_quantity t"

definition trade_ok :: "trade \<Rightarrow> bool" where
  "trade_ok t \<longleftrightarrow> 0 < t_price t \<and> 0 < t_quantity t \<and> t_quantity t \<in> \<int> \<and>
     aggressor_side t \<in> {''buy'', ''sell''}"

lemma new_trade_Inr: "new_trade t = Inr t' \<longleftrightarrow> t' = t \<and> trade_ok t"
  by (auto simp: new_trade_def trade_ok_def whole_iff_Ints)

section \<open>Order results\<close>

record order_result =
  r_order_id :: string
  status :: string
  fills :: "trade list"
  r_remaining :: rat
  error_code :: "string option"
  error_message :: "msg option"

section \<open>Instruments\<close>

record instrument =
  symbol :: string
  strike :: "rat option"
  expiry :: "string option"
  option_type :: "string option"
  underlying :: "string option"

text \<open>
  Expiry dates. \<open>int()\<close> of a text: surrounding white space and a plus sign are allowed,
  single underscores may separate digits, more than 4300 digits are refused. (A minus sign
  cannot occur: the text was split at the dashes.) Characters are those of ISO 8859-1.
\<close>

definition is_space :: "char \<Rightarrow> bool" where
  "is_space c \<longleftrightarrow> (of_char c :: nat) \<in> {9, 10, 11, 12, 13, 28, 29, 30, 31, 32, 133, 160}"

definition strip :: "string \<Rightarrow> string" where
  "strip s = rev (dropWhile is_space (rev (dropWhile is_space s)))"

fun digit_groups :: "bool \<Rightarrow> string \<Rightarrow> string option" where
  "digit_groups after_digit [] = (if after_digit then Some [] else None)"
| "digit_groups after_digit (c # cs) =
     (if digit c \<noteq> None then map_option ((#) c) (digit_groups True cs)
      else if c = CHR ''_'' \<and> after_digit then digit_groups False cs else None)"

definition read_int :: "string \<Rightarrow> nat option" where
  "read_int s =
     (let t = strip s; u = (case t of c # r \<Rightarrow> if c = CHR ''+'' then r else t | [] \<Rightarrow> []) in
      case digit_groups False u of
        None \<Rightarrow> None
      | Some ds \<Rightarrow> if length ds > 4300 then None else Some (digits_value ds))"

text \<open>\<open>s.split("-")\<close>.\<close>

fun split_dash :: "string \<Rightarrow> string list" where
  "split_dash [] = [[]]"
| "split_dash (c # cs) =
     (if c = CHR ''-'' then [] # split_dash cs
      else case split_dash cs of [] \<Rightarrow> [[c]] | p # ps \<Rightarrow> (c # p) # ps)"

definition leap_year :: "nat \<Rightarrow> bool" where
  "leap_year y \<longleftrightarrow> 4 dvd y \<and> (\<not> 100 dvd y \<or> 400 dvd y)"

definition days_in_month :: "nat \<Rightarrow> nat \<Rightarrow> nat" where
  "days_in_month y m =
     (if m = 2 then if leap_year y then 29 else 28 else if m \<in> {4, 6, 9, 11} then 30 else 31)"

definition calendar_date :: "nat \<Rightarrow> nat \<Rightarrow> nat \<Rightarrow> bool" where
  "calendar_date y m d \<longleftrightarrow>
     1 \<le> y \<and> y \<le> 9999 \<and> 1 \<le> m \<and> m \<le> 12 \<and> 1 \<le> d \<and> d \<le> days_in_month y m"

text \<open>
  What the \<open>try\<close> around \<open>date(year, month, day)\<close> lets out: a number that is no C int makes
  \<open>date\<close> raise OverflowError, which the handler does not catch; every other failure is a
  ValueError, replaced by the one of the handler.
\<close>

definition check_expiry :: "string \<Rightarrow> exn option" where
  "check_expiry ex =
     (case map read_int (split_dash ex) of
        [Some y, Some m, Some d] \<Rightarrow>
          if max y (max m d) > 2147483647 then Some OverflowError
          else if calendar_date y m d then None
          else Some (ValueError (lit ''Expiry must be in ISO format (YYYY-MM-DD)''))
      | _ \<Rightarrow> Some (ValueError (lit ''Expiry must be in ISO format (YYYY-MM-DD)'')))"

lemma digit_digit_char: "n < 10 \<Longrightarrow> digit (digit_char n) = Some n"
  by (simp add: digit_def of_char_digit Let_def)

definition digits_only :: "string \<Rightarrow> bool" where
  "digits_only s \<longleftrightarrow> s \<noteq> [] \<and> (\<forall>c \<in> set s. digit c \<noteq> None)"

lemma digits_only_decimal: "digits_only (decimal n)"
proof (induction n rule: decimal.induct)
  case (1 n)
  then show ?case
    by (subst decimal.simps) (auto simp: digits_only_def digit_digit_char)
qed

lemma digits_only_zero_pad: "digits_only s \<Longrightarrow> digits_only (zero_pad w s)"
  by (auto simp: digits_only_def zero_pad_def digit_digit_char)

lemma digit_not_special:
  "digit c \<noteq> None \<Longrightarrow> \<not> is_space c \<and> c \<noteq> CHR ''+'' \<and> c \<noteq> CHR ''-''"
  by (auto simp: digit_def is_space_def Let_def split: if_splits)

lemma digit_groups_digits: "\<forall>c \<in> set s. digit c \<noteq> None \<Longrightarrow> digit_groups b s = (if b \<or> s \<noteq> [] then Some s else None)"
  by (induction s arbitrary: b) auto

lemma read_int_digits:
  assumes "digits_only s" and "length s \<le> 4300"
  shows "read_int s = Some (digits_value s)"
proof -
  have no: "\<forall>c \<in> set s. \<not> is_space c \<and> c \<noteq> CHR ''+''" and "s \<noteq> []"
    using assms(1) digit_not_special by (auto simp: digits_only_def)
  have d: "dropWhile is_space xs = xs" if "set xs = set s" for xs
    using no that by (cases xs) auto
  then have "strip s = s" by (simp add: strip_def)
  moreover obtain c r where "s = c # r" using \<open>s \<noteq> []\<close> by (cases s) auto
  ultimately show ?thesis
    using assms no by (simp add: read_int_def digit_groups_digits digits_only_def)
qed

lemma split_dash_digits:
  assumes "\<forall>c \<in> set s. digit c \<noteq> None"
  shows "split_dash s = [s]" and "split_dash (s @ CHR ''-'' # t) = s # split_dash t"
proof -
  have "\<forall>c \<in> set s. c \<noteq> CHR ''-''" using assms digit_not_special by blast
  then show "split_dash s = [s]" "split_dash (s @ CHR ''-'' # t) = s # split_dash t"
    by (induction s) auto
qed

definition iso_format :: "nat \<Rightarrow> nat \<Rightarrow> nat \<Rightarrow> string" where
  "iso_format y m d =
     zero_pad 4 (decimal y) @ ''-'' @ zero_pad 2 (decimal m) @ ''-'' @ zero_pad 2 (decimal d)"

lemma length_decimal: "0 < k \<Longrightarrow> n < 10 ^ k \<Longrightarrow> length (decimal n) \<le> k"
proof (induction k arbitrary: n)
  case (Suc k)
  show ?case
  proof (cases "n < 10")
    case False
    then have "0 < k" using Suc.prems by (cases k) auto
    moreover have "n div 10 < 10 ^ k" using Suc.prems by (simp add: less_mult_imp_div_less)
    ultimately have "length (decimal (n div 10)) \<le> k" by (rule Suc.IH)
    with False show ?thesis by (subst decimal.simps) simp
  qed (simp add: decimal.simps [of n])
qed simp

lemma read_int_decimal:
  assumes "n < 10 ^ k" and "0 < k" and "k \<le> 4300" and "w \<le> 4300"
  shows "read_int (zero_pad w (decimal n)) = Some n"
proof -
  have "digits_only (zero_pad w (decimal n))" by (intro digits_only_zero_pad digits_only_decimal)
  moreover have "length (zero_pad w (decimal n)) \<le> 4300"
    using length_decimal [OF assms(2,1)] assms(3,4) by (simp add: zero_pad_def)
  ultimately show ?thesis by (simp add: read_int_digits digits_value_zero_pad digits_value_decimal)
qed

text \<open>
  An expiry written YYYY-MM-DD is accepted exactly when the calendar has the date; a number
  beyond a C int raises OverflowError, not the documented ValueError.
\<close>

lemma check_expiry_iso:
  assumes "y < 10 ^ k" "m < 10 ^ k" "d < 10 ^ k" and k: "0 < k" "k \<le> 4300"
  shows "check_expiry (iso_format y m d) =
    (if max y (max m d) > 2147483647 then Some OverflowError
     else if calendar_date y m d then None
     else Some (ValueError (lit ''Expiry must be in ISO format (YYYY-MM-DD)'')))"
proof -
  have d: "\<forall>c \<in> set (zero_pad w (decimal n)). digit c \<noteq> None" for w n
    using digits_only_zero_pad [OF digits_only_decimal, of w n] by (simp add: digits_only_def)
  have "split_dash (iso_format y m d) = [zero_pad 4 (decimal y), zero_pad 2 (decimal m), zero_pad 2 (decimal d)]"
    by (simp add: iso_format_def split_dash_digits d)
  then have "map read_int (split_dash (iso_format y m d)) = [Some y, Some m, Some d]"
    by (simp add: read_int_decimal [OF assms(1) k] read_int_decimal [OF assms(2) k] read_int_decimal [OF assms(3) k])
  then show ?thesis by (simp add: check_expiry_def)
qed

text \<open>
  \<open>__post_init__\<close>: an option type, when present and non-empty, is call or put up to case; an
  expiry, when present and non-empty, is a date.
\<close>

definition new_instrument :: "instrument \<Rightarrow> exn + instrument" where
  "new_instrument i =
     (if (case option_type i of None \<Rightarrow> False
          | Some ot \<Rightarrow> ot \<noteq> [] \<and> lower ot \<notin> {''call'', ''put''}) then
        Inl (ValueError [Txt (''Option type must be '' @ quoted ''call'' @ '' or '' @ quoted ''put'')])
      else
        (case (case expiry i of None \<Rightarrow> None | Some ex \<Rightarrow> if ex = [] then None else check_expiry ex) of
           Some e \<Rightarrow> Inl e
         | None \<Rightarrow> Inr i))"

definition instrument_key :: "instrument \<Rightarrow> string" where
  "instrument_key i = symbol i"

section \<open>Phase states\<close>

record phase_state_config =
  cfg_submission_allowed :: bool
  cfg_cancellation_allowed :: bool
  cfg_matching_enabled :: bool
  cfg_execution_style :: string

record phase_state =
  ph_type :: phase_type
  is_order_submission_allowed :: bool
  is_order_cancellation_allowed :: bool
  is_matching_enabled :: bool
  execution_style :: string

definition from_phase_type :: "phase_type \<Rightarrow> phase_state_config \<Rightarrow> phase_state" where
  "from_phase_type p c =
     \<lparr>ph_type = p,
      is_order_submission_allowed = cfg_submission_allowed c,
      is_order_cancellation_allowed = cfg_cancellation_allowed c,
      is_matching_enabled = cfg_matching_enabled c,
      execution_style = cfg_execution_style c\<rparr>"

end
