(* ===== verification/Order_Book.thy ===== *)
theory Order_Book
  imports Core_Models
begin

text \<open>
  \<open>components/orderbook/book.py\<close>: the price level and the limit order book of one
  instrument. Every method is one definition. A method that mutates the book takes and
  returns it; a method that mutates its order argument returns that too; an exception is
  an \<open>exn option\<close> beside the state the code had reached when it was raised.
\<close>

section \<open>Price levels\<close>

record price_level =
  l_price :: rat
  l_orders :: "order list"
  total_quantity :: rat

definition level_add_order :: "price_level \<Rightarrow> order \<Rightarrow> price_level" where
  "level_add_order lv o1 =
     lv\<lparr>l_orders := l_orders lv @ [o1],
        total_quantity := total_quantity lv + remaining_quantity o1\<rparr>"

text \<open>The first order with the id leaves the queue; the others keep their places.\<close>

fun pop_order :: "string \<Rightarrow> order list \<Rightarrow> (order \<times> order list) option" where
  "pop_order oid [] = None"
| "pop_order oid (o1 # os) =
     (if order_id o1 = oid then Some (o1, os)
      else map_option (\<lambda>(r, rest). (r, o1 # rest)) (pop_order oid os))"

definition level_remove_order :: "price_level \<Rightarrow> string \<Rightarrow> order option \<times> price_level" where
  "level_remove_order lv oid =
     (case pop_order oid (l_orders lv) of
        None \<Rightarrow> (None, lv)
      | Some (r, rest) \<Rightarrow>
          (Some r, lv\<lparr>l_orders := rest,
                      total_quantity := total_quantity lv - remaining_quantity r\<rparr>))"

fun set_remaining :: "string \<Rightarrow> rat \<Rightarrow> order list \<Rightarrow> (rat \<times> order list) option" where
  "set_remaining oid q [] = None"
| "set_remaining oid q (o1 # os) =
     (if order_id o1 = oid then Some (remaining_quantity o1, o1\<lparr>remaining_quantity := q\<rparr> # os)
      else map_option (\<lambda>(old, rest). (old, o1 # rest)) (set_remaining oid q os))"

definition level_update_quantity :: "price_level \<Rightarrow> string \<Rightarrow> rat \<Rightarrow> price_level" where
  "level_update_quantity lv oid q =
     (case set_remaining oid q (l_orders lv) of
        None \<Rightarrow> lv
      | Some (old, os) \<Rightarrow>
          lv\<lparr>l_orders := os, total_quantity := total_quantity lv - old + q\<rparr>)"

definition level_is_empty :: "price_level \<Rightarrow> bool" where
  "level_is_empty lv \<longleftrightarrow> length (l_orders lv) = 0"

section \<open>The book\<close>

record order_book =
  book_instrument :: string
  bids :: "price_level list"
  asks :: "price_level list"
  order_price_map :: "string \<Rightarrow> rat option"
  order_ids :: "string set"
  trades :: "trade list"

definition new_book :: "string \<Rightarrow> order_book" where
  "new_book iid =
     \<lparr>book_instrument = iid, bids = [], asks = [], order_price_map = Map.empty,
      order_ids = {}, trades = []\<rparr>"

definition max_recent_trades :: nat where
  "max_recent_trades = 100"

definition record_book_trade :: "trade \<Rightarrow> order_book \<Rightarrow> order_book" where
  "record_book_trade t b = b\<lparr>trades := push_bounded max_recent_trades t (trades b)\<rparr>"

text \<open>The side an incoming order matches against, and the side it rests on.\<close>

definition opposite_side :: "order \<Rightarrow> order_book \<Rightarrow> price_level list" where
  "opposite_side o1 b = (if is_buy o1 then asks b else bids b)"

definition set_opposite :: "order \<Rightarrow> price_level list \<Rightarrow> order_book \<Rightarrow> order_book" where
  "set_opposite o1 lvs b = (if is_buy o1 then b\<lparr>asks := lvs\<rparr> else b\<lparr>bids := lvs\<rparr>)"

text \<open>The break of the matching loop: a limit order meets a level beyond its limit.\<close>

definition beyond_limit :: "order \<Rightarrow> rat \<Rightarrow> bool" where
  "beyond_limit o1 lp \<longleftrightarrow>
     is_limit_order o1 \<and>
     (case price o1 of None \<Rightarrow> False
      | Some p \<Rightarrow> (is_buy o1 \<and> lp > p) \<or> (is_sell o1 \<and> lp < p))"

definition match_trade :: "string \<Rightarrow> order \<Rightarrow> order \<Rightarrow> rat \<Rightarrow> rat \<Rightarrow> trade" where
  "match_trade iid o1 m lp q =
     (if is_buy o1 then
        \<lparr>t_instrument_id = iid, buyer_id = trader_id o1, seller_id = trader_id m,
         t_price = lp, t_quantity = q, buyer_order_id = order_id o1,
         seller_order_id = order_id m, aggressor_side = ''buy''\<rparr>
      else
        \<lparr>t_instrument_id = iid, buyer_id = trader_id m, seller_id = trader_id o1,
         t_price = lp, t_quantity = q, buyer_order_id = order_id m,
         seller_order_id = order_id o1, aggressor_side = ''sell''\<rparr>)"

text \<open>
  The tail of the loop body, once both orders have been filled: a filled resting order
  leaves its level, the id set and the price map, and an empty level leaves the side.
\<close>

definition drop_filled ::
    "order \<Rightarrow> order \<Rightarrow> price_level \<Rightarrow> price_level list \<Rightarrow> order_book \<Rightarrow> exn option \<times> order_book" where
  "drop_filled o1 m lv rest b =
     (let lv' = snd (level_remove_order lv (order_id m));
          b1 = set_opposite o1 (lv' # rest) b
      in if order_id m \<notin> order_ids b1 then (Some (KeyError (lit (order_id m))), b1)
         else let b2 = b1\<lparr>order_ids := order_ids b1 - {order_id m}\<rparr>
         in if order_price_map b2 (order_id m) = None then
              (Some (KeyError (lit (order_id m))), b2)
            else let b3 = b2\<lparr>order_price_map := (order_price_map b2)(order_id m := None)\<rparr>
            in (None, if level_is_empty lv' then set_opposite o1 rest b3 else b3))"

text \<open>One iteration of the loop in \<open>_match_order\<close>, for the best level and the rest of the side.\<close>

definition match_body ::
    "order \<Rightarrow> price_level \<Rightarrow> price_level list \<Rightarrow> order_book \<Rightarrow> trade list \<Rightarrow>
     exn option \<times> trade list \<times> order \<times> order_book" where
  "match_body o1 lv rest b ts =
     (case l_orders lv of
        [] \<Rightarrow> (Some IndexError, ts, o1, b)
      | m # ms \<Rightarrow>
          let q = min (remaining_quantity o1) (remaining_quantity m) in
          (case new_trade (match_trade (book_instrument b) o1 m (l_price lv) q) of
             Inl e \<Rightarrow> (Some e, ts, o1, b)
           | Inr t \<Rightarrow>
               let ts1 = ts @ [t]; b1 = record_book_trade t b in
               (case fill o1 q of
                  Inl e \<Rightarrow> (Some e, ts1, o1, b1)
                | Inr o2 \<Rightarrow>
                    (case fill m q of
                       Inl e \<Rightarrow> (Some e, ts1, o2, b1)
                     | Inr m2 \<Rightarrow>
                         let lv2 = lv\<lparr>l_orders := m2 # ms, total_quantity := total_quantity lv - q\<rparr>;
                             b2 = set_opposite o2 (lv2 # rest) b1
                         in if is_filled m2 then
                              (case drop_filled o2 m2 lv2 rest b2 of (e, b3) \<Rightarrow> (e, ts1, o2, b3))
                            else (None, ts1, o2, b2)))))"

text \<open>
  The loop ends because every iteration that goes on either fills the incoming order or
  takes one order off the opposite side.
\<close>

definition side_size :: "price_level list \<Rightarrow> nat" where
  "side_size lvs = sum_list (map (\<lambda>lv. length (l_orders lv)) lvs)"

lemma opposite_set_opposite [simp]: "opposite_side o1 (set_opposite o1 lvs b) = lvs"
  by (simp add: opposite_side_def set_opposite_def)

lemma set_opposite_simps [simp]:
  "order_ids (set_opposite o1 lvs b) = order_ids b"
  "order_price_map (set_opposite o1 lvs b) = order_price_map b"
  "book_instrument (set_opposite o1 lvs b) = book_instrument b"
  "trades (set_opposite o1 lvs b) = trades b"
  by (simp_all add: set_opposite_def)

lemma opposite_side_updates [simp]:
  "opposite_side o1 (b\<lparr>order_ids := s\<rparr>) = opposite_side o1 b"
  "opposite_side o1 (b\<lparr>order_price_map := m\<rparr>) = opposite_side o1 b"
  "opposite_side o1 (record_book_trade t b) = opposite_side o1 b"
  by (simp_all add: opposite_side_def record_book_trade_def)

lemma take_qty_side [simp]:
  "is_buy (take_qty q o1) = is_buy o1" "is_sell (take_qty q o1) = is_sell o1"
  "is_limit_order (take_qty q o1) = is_limit_order o1"
  "opposite_side (take_qty q o1) b = opposite_side o1 b"
  "set_opposite (take_qty q o1) lvs b = set_opposite o1 lvs b"
  by (simp_all add: is_buy_def is_sell_def is_limit_order_def opposite_side_def
      set_opposite_def)

lemma beyond_limit_take_qty [simp]: "beyond_limit (take_qty q o1) lp = beyond_limit o1 lp"
  by (simp add: beyond_limit_def split: option.split)

lemma level_remove_head:
  "l_orders lv = m # ms \<Longrightarrow> order_id m = oid \<Longrightarrow>
   level_remove_order lv oid =
     (Some m, lv\<lparr>l_orders := ms, total_quantity := total_quantity lv - remaining_quantity m\<rparr>)"
  by (simp add: level_remove_order_def)

lemma match_body_progress:
  assumes "match_body o1 lv rest b ts = (None, ts', o2, b')"
    and "opposite_side o1 b = lv # rest" and "\<not> is_filled o1"
  shows "side_size (opposite_side o2 b') + (if is_filled o2 then 0 else 1)
       < Suc (side_size (opposite_side o1 b))"
  using assms
  by (auto simp: match_body_def drop_filled_def Let_def side_size_def is_filled_def fill_Inr
      level_remove_head level_is_empty_def min_def
      split: list.splits sum.splits if_splits)

function match_loop ::
    "order \<Rightarrow> order_book \<Rightarrow> trade list \<Rightarrow> exn option \<times> trade list \<times> order \<times> order_book" where
  "match_loop o1 b ts =
     (case opposite_side o1 b of
        [] \<Rightarrow> (None, ts, o1, b)
      | lv # rest \<Rightarrow>
          if is_filled o1 then (None, ts, o1, b)
          else if beyond_limit o1 (l_price lv) then (None, ts, o1, b)
          else (case match_body o1 lv rest b ts of
                  (Some e, ts', o2, b') \<Rightarrow> (Some e, ts', o2, b')
                | (None, ts', o2, b') \<Rightarrow> match_loop o2 b' ts'))"
  by pat_completeness auto
termination
  by (relation "measure (\<lambda>(o1, b, ts). side_size (opposite_side o1 b) + (if is_filled o1 then 0 else 1))")
    (auto dest!: match_body_progress [OF sym] split: if_splits)

declare match_loop.simps [simp del]

definition match_order :: "order \<Rightarrow> order_book \<Rightarrow> exn option \<times> trade list \<times> order \<times> order_book" where
  "match_order o1 b = match_loop o1 b []"

text \<open>
  Insertion: the first level with the order's price, or a new level placed by
  \<open>bisect_left\<close> on the (negated, for bids) prices.
\<close>

fun join_level :: "order \<Rightarrow> rat \<Rightarrow> price_level list \<Rightarrow> price_level list option" where
  "join_level o1 p [] = None"
| "join_level o1 p (lv # lvs) =
     (if l_price lv = p then Some (level_add_order lv o1 # lvs)
      else map_option (Cons lv) (join_level o1 p lvs))"

definition insert_at :: "nat \<Rightarrow> 'a \<Rightarrow> 'a list \<Rightarrow> 'a list" where
  "insert_at n x xs = take n xs @ x # drop n xs"

definition place_level :: "(rat \<Rightarrow> rat) \<Rightarrow> order \<Rightarrow> rat \<Rightarrow> price_level list \<Rightarrow> price_level list" where
  "place_level key o1 p lvs =
     (case join_level o1 p lvs of
        Some lvs' \<Rightarrow> lvs'
      | None \<Rightarrow>
          insert_at (bisect_left (map (\<lambda>lv. key (l_price lv)) lvs) (key p))
            (level_add_order \<lparr>l_price = p, l_orders = [], total_quantity = 0\<rparr> o1) lvs)"

definition insert_order :: "order \<Rightarrow> order_book \<Rightarrow> exn option \<times> order_book" where
  "insert_order o1 b =
     (if \<not> is_limit_order o1 then
        (Some (AssertionError (lit ''Only limit orders can be inserted into the book'')), b)
      else case price o1 of
        None \<Rightarrow> (Some (AssertionError (lit ''Limit orders must have a price'')), b)
      | Some p \<Rightarrow>
          let b1 = (if is_buy o1 then b\<lparr>bids := place_level uminus o1 p (bids b)\<rparr>
                    else b\<lparr>asks := place_level id o1 p (asks b)\<rparr>)
          in (None, b1\<lparr>order_price_map := (order_price_map b1)(order_id o1 \<mapsto> p),
                       order_ids := insert (order_id o1) (order_ids b1)\<rparr>))"

definition add_order :: "order \<Rightarrow> order_book \<Rightarrow> exn option \<times> trade list \<times> order \<times> order_book" where
  "add_order o1 b =
     (if instrument_id o1 \<noteq> book_instrument b then
        (Some (ValueError [Txt ''Order instrument '', Txt (instrument_id o1),
                           Txt '' does not match book instrument '', Txt (book_instrument b)]),
         [], o1, b)
      else if order_id o1 \<in> order_ids b then
        (Some (ValueError [Txt ''Order ID '', Txt (order_id o1),
                           Txt '' already exists in the book'']), [], o1, b)
      else case match_order o1 b of
        (Some e, ts, o2, b') \<Rightarrow> (Some e, ts, o2, b')
      | (None, ts, o2, b') \<Rightarrow>
          if \<not> is_filled o2 \<and> is_limit_order o2 then
            (case insert_order o2 b' of (e, b'') \<Rightarrow> (e, ts, o2, b''))
          else (None, ts, o2, b'))"

section \<open>Lookup and cancellation\<close>

definition is_bid_price :: "order_book \<Rightarrow> rat \<Rightarrow> bool" where
  "is_bid_price b p \<longleftrightarrow> list_ex (\<lambda>lv. l_price lv = p) (bids b)"

definition level_list :: "order_book \<Rightarrow> rat \<Rightarrow> price_level list" where
  "level_list b p = (if is_bid_price b p then bids b else asks b)"

definition set_level_list :: "order_book \<Rightarrow> rat \<Rightarrow> price_level list \<Rightarrow> order_book" where
  "set_level_list b p lvs = (if is_bid_price b p then b\<lparr>bids := lvs\<rparr> else b\<lparr>asks := lvs\<rparr>)"

text \<open>Replace the first level with the price, the object the search loop stopped at.\<close>

fun put_level :: "rat \<Rightarrow> price_level \<Rightarrow> price_level list \<Rightarrow> price_level list" where
  "put_level p lv' [] = []"
| "put_level p lv' (lv # lvs) = (if l_price lv = p then lv' # lvs else lv # put_level p lv' lvs)"

definition cancel_order :: "string \<Rightarrow> order_book \<Rightarrow> (exn + order option) \<times> order_book" where
  "cancel_order oid b =
     (case order_price_map b oid of
        None \<Rightarrow> (Inr None, b)
      | Some p \<Rightarrow>
          (case find (\<lambda>lv. l_price lv = p) (level_list b p) of
             None \<Rightarrow> (Inr None, b)
           | Some lv \<Rightarrow>
               (case level_remove_order lv oid of
                  (None, _) \<Rightarrow> (Inr None, b)
                | (Some o1, lv') \<Rightarrow>
                    let lvs = put_level p lv' (level_list b p);
                        b1 = (set_level_list b p lvs)
                               \<lparr>order_price_map := (order_price_map b)(oid := None)\<rparr>
                    in if oid \<notin> order_ids b1 then (Inl (KeyError (lit oid)), b1)
                       else let b2 = b1\<lparr>order_ids := order_ids b1 - {oid}\<rparr>
                       in (Inr (Some o1),
                           if level_is_empty lv' then
                             (if is_bid_price b p then b2\<lparr>bids := remove1 lv' lvs\<rparr>
                              else b2\<lparr>asks := remove1 lv' lvs\<rparr>)
                           else b2))))"

text \<open>
  \<open>get_order\<close> has no \<open>break\<close> after the level's loop, so it would go on to a later level of
  the same price.
\<close>

definition get_order :: "order_book \<Rightarrow> string \<Rightarrow> order option" where
  "get_order b oid =
     (case order_price_map b oid of
        None \<Rightarrow> None
      | Some p \<Rightarrow>
          find (\<lambda>o1. order_id o1 = oid)
            (concat (map l_orders (filter (\<lambda>lv. l_price lv = p) (level_list b p)))))"

definition best_bid :: "order_book \<Rightarrow> (rat \<times> rat) option" where
  "best_bid b = (case bids b of [] \<Rightarrow> None | lv # _ \<Rightarrow> Some (l_price lv, total_quantity lv))"

definition best_ask :: "order_book \<Rightarrow> (rat \<times> rat) option" where
  "best_ask b = (case asks b of [] \<Rightarrow> None | lv # _ \<Rightarrow> Some (l_price lv, total_quantity lv))"

definition depth_snapshot :: "order_book \<Rightarrow> int \<Rightarrow> (rat \<times> rat) list \<times> (rat \<times> rat) list" where
  "depth_snapshot b levels =
     (map (\<lambda>lv. (l_price lv, total_quantity lv)) (slice_to levels (bids b)),
      map (\<lambda>lv. (l_price lv, total_quantity lv)) (slice_to levels (asks b)))"

definition get_recent_trades :: "order_book \<Rightarrow> int \<Rightarrow> trade list" where
  "get_recent_trades b limit = slice_from (- limit) (trades b)"

end
