(* ===== verification/Book_Invariant.thy ===== *)
theory Book_Invariant
  imports Order_Book
begin

text \<open>
  The order book's representation invariant and the ladder of price levels. A side is a
  ladder: levels in strictly increasing order of a key of their price, the price itself on
  the ask side and its negation on the bid side. What insertion does to a ladder is proved
  once, in the locale \<open>price_ladder\<close>, and interpreted for both sides.
\<close>

section \<open>Sides\<close>

definition book_side :: "order_side \<Rightarrow> order_book \<Rightarrow> price_level list" where
  "book_side sd b = (case sd of BUY \<Rightarrow> bids b | SELL \<Rightarrow> asks b)"

definition set_side :: "order_side \<Rightarrow> price_level list \<Rightarrow> order_book \<Rightarrow> order_book" where
  "set_side sd lvs b = (case sd of BUY \<Rightarrow> b\<lparr>bids := lvs\<rparr> | SELL \<Rightarrow> b\<lparr>asks := lvs\<rparr>)"

fun flip :: "order_side \<Rightarrow> order_side" where
  "flip BUY = SELL"
| "flip SELL = BUY"

fun key_of :: "order_side \<Rightarrow> rat \<Rightarrow> rat" where
  "key_of BUY = uminus"
| "key_of SELL = id"

lemma flip_flip [simp]: "flip (flip sd) = sd"
  by (cases sd) simp_all

lemma flip_neq [simp]: "flip sd \<noteq> sd" "sd \<noteq> flip sd"
  by (cases sd; simp)+

lemma other_side: "sd' \<noteq> sd \<longleftrightarrow> sd' = flip sd"
  by (cases sd; cases sd') simp_all

lemma book_side_set_side [simp]:
  "book_side sd (set_side sd lvs b) = lvs"
  "book_side (flip sd) (set_side sd lvs b) = book_side (flip sd) b"
  by (cases sd; simp add: book_side_def set_side_def)+

lemma set_side_simps [simp]:
  "order_ids (set_side sd lvs b) = order_ids b"
  "order_price_map (set_side sd lvs b) = order_price_map b"
  "book_instrument (set_side sd lvs b) = book_instrument b"
  "trades (set_side sd lvs b) = trades b"
  by (cases sd; simp add: set_side_def)+

lemma book_side_updates [simp]:
  "book_side sd (b\<lparr>order_ids := s\<rparr>) = book_side sd b"
  "book_side sd (b\<lparr>order_price_map := m\<rparr>) = book_side sd b"
  "book_side sd (b\<lparr>trades := ts\<rparr>) = book_side sd b"
  by (cases sd; simp add: book_side_def)+

lemma opposite_is_flip: "opposite_side o1 b = book_side (flip (side o1)) b"
  by (cases "side o1") (simp_all add: opposite_side_def book_side_def is_buy_def)

lemma set_opposite_is_flip: "set_opposite o1 lvs b = set_side (flip (side o1)) lvs b"
  by (cases "side o1") (simp_all add: set_opposite_def set_side_def is_buy_def)

lemma order_side_all: "(\<forall>sd. P sd) \<longleftrightarrow> P BUY \<and> P SELL"
  by (metis order_side.exhaust)

section \<open>The invariant\<close>

definition all_orders :: "price_level list \<Rightarrow> order list" where
  "all_orders lvs = concat (map l_orders lvs)"

definition rests_ok :: "order_side \<Rightarrow> string \<Rightarrow> rat \<Rightarrow> order \<Rightarrow> bool" where
  "rests_ok sd iid p o1 \<longleftrightarrow>
     order_ok o1 \<and> side o1 = sd \<and> instrument_id o1 = iid \<and> price o1 = Some p \<and>
     0 < remaining_quantity o1"

definition level_ok :: "order_side \<Rightarrow> string \<Rightarrow> price_level \<Rightarrow> bool" where
  "level_ok sd iid lv \<longleftrightarrow>
     l_orders lv \<noteq> [] \<and>
     total_quantity lv = sum_list (map remaining_quantity (l_orders lv)) \<and>
     (\<forall>o1 \<in> set (l_orders lv). rests_ok sd iid (l_price lv) o1)"

definition ladder_sorted :: "(rat \<Rightarrow> rat) \<Rightarrow> price_level list \<Rightarrow> bool" where
  "ladder_sorted key lvs \<longleftrightarrow> sorted_wrt (<) (map (\<lambda>lv. key (l_price lv)) lvs)"

definition side_ok :: "order_side \<Rightarrow> string \<Rightarrow> price_level list \<Rightarrow> bool" where
  "side_ok sd iid lvs \<longleftrightarrow> ladder_sorted (key_of sd) lvs \<and> (\<forall>lv \<in> set lvs. level_ok sd iid lv)"

definition side_orders :: "order_side \<Rightarrow> order_book \<Rightarrow> order list" where
  "side_orders sd b = all_orders (book_side sd b)"

definition resting :: "order_book \<Rightarrow> order list" where
  "resting b = side_orders BUY b @ side_orders SELL b"

definition index_ok :: "order_book \<Rightarrow> bool" where
  "index_ok b \<longleftrightarrow>
     distinct (map order_id (resting b)) \<and>
     order_ids b = order_id ` set (resting b) \<and>
     (\<forall>oid p. order_price_map b oid = Some p \<longleftrightarrow>
        (\<exists>o1 \<in> set (resting b). order_id o1 = oid \<and> price o1 = Some p))"

definition uncrossed :: "order_book \<Rightarrow> bool" where
  "uncrossed b \<longleftrightarrow> (\<forall>x \<in> set (bids b). \<forall>y \<in> set (asks b). l_price x < l_price y)"

definition book_wf :: "order_book \<Rightarrow> bool" where
  "book_wf b \<longleftrightarrow>
     side_ok BUY (book_instrument b) (bids b) \<and> side_ok SELL (book_instrument b) (asks b) \<and>
     index_ok b \<and> uncrossed b \<and> length (trades b) \<le> max_recent_trades"

lemma all_orders_simps [simp]:
  "all_orders [] = []"
  "all_orders (lv # lvs) = l_orders lv @ all_orders lvs"
  "all_orders (xs @ ys) = all_orders xs @ all_orders ys"
  by (simp_all add: all_orders_def)

lemma set_all_orders: "set (all_orders lvs) = (\<Union>lv \<in> set lvs. set (l_orders lv))"
  by (simp add: all_orders_def)

lemma ladder_sorted_simps [simp]:
  "ladder_sorted key []"
  "ladder_sorted key (lv # lvs) \<longleftrightarrow>
     (\<forall>lv' \<in> set lvs. key (l_price lv) < key (l_price lv')) \<and> ladder_sorted key lvs"
  by (auto simp: ladder_sorted_def)

lemma side_ok_simps [simp]:
  "side_ok sd iid []"
  "side_ok sd iid (lv # lvs) \<longleftrightarrow>
     (\<forall>lv' \<in> set lvs. key_of sd (l_price lv) < key_of sd (l_price lv')) \<and>
     level_ok sd iid lv \<and> side_ok sd iid lvs"
  by (auto simp: side_ok_def)

lemma book_wf_side: "book_wf b \<Longrightarrow> side_ok sd (book_instrument b) (book_side sd b)"
  by (cases sd) (simp_all add: book_wf_def book_side_def)

lemma side_ok_rests: "side_ok sd iid lvs \<Longrightarrow> o1 \<in> set (all_orders lvs) \<Longrightarrow> \<exists>p. rests_ok sd iid p o1"
  by (auto simp: side_ok_def set_all_orders level_ok_def)

lemma rests_okD:
  "rests_ok sd iid p o1 \<Longrightarrow> order_ok o1"
  "rests_ok sd iid p o1 \<Longrightarrow> side o1 = sd"
  "rests_ok sd iid p o1 \<Longrightarrow> price o1 = Some p"
  "rests_ok sd iid p o1 \<Longrightarrow> instrument_id o1 = iid"
  "rests_ok sd iid p o1 \<Longrightarrow> 0 < remaining_quantity o1"
  by (simp_all add: rests_ok_def)

lemma rests_ok_price_pos: "rests_ok sd iid p o1 \<Longrightarrow> 0 < p"
  by (auto simp: rests_ok_def order_ok_def)

section \<open>Ladders\<close>

text \<open>
  What \<open>place_level\<close> is meant to do: walk past the better levels, join the level at the
  price or open a new one in front of the first worse level.
\<close>

fun place_spec :: "(rat \<Rightarrow> rat) \<Rightarrow> order \<Rightarrow> rat \<Rightarrow> price_level list \<Rightarrow> price_level list" where
  "place_spec key o1 p [] = [level_add_order \<lparr>l_price = p, l_orders = [], total_quantity = 0\<rparr> o1]"
| "place_spec key o1 p (lv # lvs) =
     (if key (l_price lv) < key p then lv # place_spec key o1 p lvs
      else if l_price lv = p then level_add_order lv o1 # lvs
      else level_add_order \<lparr>l_price = p, l_orders = [], total_quantity = 0\<rparr> o1 # lv # lvs)"

lemma insert_at_takeWhile:
  "insert_at (length (takeWhile P (map f lvs))) x lvs =
     takeWhile (\<lambda>lv. P (f lv)) lvs @ x # dropWhile (\<lambda>lv. P (f lv)) lvs"
  by (induction lvs) (auto simp: insert_at_def)

lemma ladder_sorted_bisect:
  assumes "ladder_sorted key lvs"
  shows "insert_at (bisect_left (map (\<lambda>lv. key (l_price lv)) lvs) k) x lvs =
    takeWhile (\<lambda>lv. key (l_price lv) < k) lvs @ x # dropWhile (\<lambda>lv. key (l_price lv) < k) lvs"
proof -
  from assms have "sorted (map (\<lambda>lv. key (l_price lv)) lvs)"
    unfolding ladder_sorted_def by (rule strict_sorted_imp_sorted)
  then show ?thesis
    by (simp add: bisect_left_takeWhile insert_at_takeWhile)
qed

lemma level_add_order_simps [simp]:
  "l_price (level_add_order lv o1) = l_price lv"
  "l_orders (level_add_order lv o1) = l_orders lv @ [o1]"
  "total_quantity (level_add_order lv o1) = total_quantity lv + remaining_quantity o1"
  by (simp_all add: level_add_order_def)

lemma set_place_spec_prices:
  "l_price ` set (place_spec key o1 p lvs) = insert p (l_price ` set lvs)"
  by (induction lvs) auto

lemma mset_place_spec:
  "mset (all_orders (place_spec key o1 p lvs)) = add_mset o1 (mset (all_orders lvs))"
  by (induction lvs) auto

locale price_ladder =
  fixes key :: "rat \<Rightarrow> rat"
  assumes key_inj: "key p = key q \<Longrightarrow> p = q"
begin

lemma join_level_worse:
  "\<forall>lv \<in> set lvs. key p < key (l_price lv) \<Longrightarrow> join_level o1 p lvs = None"
  by (induction lvs) auto

lemma place_level_spec:
  assumes "ladder_sorted key lvs"
  shows "place_level key o1 p lvs = place_spec key o1 p lvs"
proof -
  let ?new = "level_add_order \<lparr>l_price = p, l_orders = [], total_quantity = 0\<rparr> o1"
  let ?P = "\<lambda>lv. key (l_price lv) < key p"
  have "(case join_level o1 p lvs of Some lvs' \<Rightarrow> lvs'
         | None \<Rightarrow> takeWhile ?P lvs @ ?new # dropWhile ?P lvs) = place_spec key o1 p lvs"
    using assms
  proof (induction lvs)
    case Nil
    then show ?case by simp
  next
    case (Cons lv lvs)
    have worse: "join_level o1 p lvs = None" if "key p < key (l_price lv)"
      using Cons.prems that by (intro join_level_worse) auto
    from Cons worse show ?case
      using key_inj [of "l_price lv" p]
      by (cases "key (l_price lv)" "key p" rule: linorder_cases)
        (auto split: option.splits)
  qed
  with assms show ?thesis
    by (cases "join_level o1 p lvs") (simp_all add: place_level_def ladder_sorted_bisect)
qed

lemma place_spec_sorted:
  assumes "ladder_sorted key lvs"
  shows "ladder_sorted key (place_spec key o1 p lvs)"
  using assms
proof (induction lvs)
  case Nil
  then show ?case by simp
next
  case (Cons lv lvs)
  have prices: "\<exists>lv0 \<in> insert p (l_price ` set lvs). l_price lv' = lv0"
    if "lv' \<in> set (place_spec key o1 p lvs)" for lv'
    using that set_place_spec_prices [of key o1 p lvs] by auto
  from Cons show ?case
    using key_inj [of "l_price lv" p] by (fastforce dest!: prices)
qed

text \<open>
  The order joins the queue behind every order at least as good and in front of every
  worse one: price priority, then time priority.
\<close>

lemma place_spec_all_orders:
  assumes "ladder_sorted key lvs"
    and "\<forall>lv \<in> set lvs. l_orders lv \<noteq> [] \<and> (\<forall>x \<in> set (l_orders lv). price x = Some (l_price lv))"
  shows "all_orders (place_spec key o1 p lvs) =
    takeWhile (\<lambda>x. key (the (price x)) \<le> key p) (all_orders lvs) @ o1 #
    dropWhile (\<lambda>x. key (the (price x)) \<le> key p) (all_orders lvs)"
  using assms
proof (induction lvs)
  case Nil
  then show ?case by simp
next
  case (Cons lv lvs)
  let ?Q = "\<lambda>x. key (the (price x)) \<le> key p"
  obtain x xs where lv: "l_orders lv = x # xs"
    using Cons.prems(2) by (cases "l_orders lv") auto
  show ?case
  proof (cases "key (l_price lv) < key p")
    case True
    with Cons.prems have "\<forall>x \<in> set (l_orders lv). ?Q x" by auto
    with True Cons show ?thesis
      by (simp add: takeWhile_append2 dropWhile_append2)
  next
    case ge: False
    show ?thesis
    proof (cases "l_price lv = p")
      case True
      with Cons.prems have all: "\<forall>x \<in> set (l_orders lv). ?Q x" by auto
      have later: "\<not> ?Q y" if "y \<in> set (all_orders lvs)" for y
        using Cons.prems True that by (fastforce simp: set_all_orders)
      then have "takeWhile ?Q (all_orders lvs) = []" "dropWhile ?Q (all_orders lvs) = all_orders lvs"
        by (cases "all_orders lvs"; simp)+
      with True ge all show ?thesis
        by (simp add: takeWhile_append2 dropWhile_append2)
    next
      case False
      with ge key_inj [of "l_price lv" p] have "key p < key (l_price lv)"
        by (metis linorder_neqE_linordered_idom)
      with Cons.prems lv have "\<not> ?Q x" by auto
      with lv ge False show ?thesis by simp
    qed
  qed
qed

end

interpretation bid_ladder: price_ladder uminus
  by unfold_locales simp

interpretation ask_ladder: price_ladder id
  by unfold_locales simp

interpretation side_ladder: price_ladder "key_of sd" for sd
  by unfold_locales (cases sd; simp)

lemma rests_ok_new_level:
  "rests_ok sd iid p o1 \<Longrightarrow>
   level_ok sd iid (level_add_order \<lparr>l_price = p, l_orders = [], total_quantity = 0\<rparr> o1)"
  by (simp add: level_ok_def)

lemma level_ok_add [wf_intros]:
  "level_ok sd iid lv \<Longrightarrow> rests_ok sd iid (l_price lv) o1 \<Longrightarrow> level_ok sd iid (level_add_order lv o1)"
  by (auto simp: level_ok_def)

lemma side_ok_place_level:
  assumes "side_ok sd iid lvs" and "rests_ok sd iid p o1"
  shows "side_ok sd iid (place_level (key_of sd) o1 p lvs)"
proof -
  from assms(1) have "\<forall>lv \<in> set lvs. level_ok sd iid lv"
    by (simp add: side_ok_def)
  then have "\<forall>lv \<in> set (place_spec (key_of sd) o1 p lvs). level_ok sd iid lv"
    using assms(2) rests_ok_new_level [OF assms(2)]
    by (induction lvs) (auto intro: level_ok_add)
  with assms show ?thesis
    by (simp add: side_ok_def side_ladder.place_level_spec side_ladder.place_spec_sorted)
qed

end
