(* ===== verification/Book_Refinement.thy ===== *)
theory Book_Refinement
  imports Book_Invariant
begin

text \<open>
  The abstract book is two lists of resting orders in priority order. \<open>spec_match\<close> fills an
  incoming order from the head of the opposite list, \<open>spec_rest\<close> queues it on its own list.
  The level-based book refines this: on a well-formed book \<open>add_order\<close> raises nothing,
  keeps the invariant and acts on the flattened sides as the specification does.
\<close>

section \<open>Specification\<close>

fun spec_match :: "string \<Rightarrow> order \<Rightarrow> order list \<Rightarrow> trade list \<times> order \<times> order list" where
  "spec_match iid o1 [] = ([], o1, [])"
| "spec_match iid o1 (m # ms) =
     (if is_filled o1 \<or> beyond_limit o1 (the (price m)) then ([], o1, m # ms)
      else let q = min (remaining_quantity o1) (remaining_quantity m);
               t = match_trade iid o1 m (the (price m)) q
           in if q = remaining_quantity m then
                (case spec_match iid (take_qty q o1) ms of (ts, o2, rest) \<Rightarrow> (t # ts, o2, rest))
              else ([t], take_qty q o1, take_qty q m # ms))"

definition spec_rest :: "order \<Rightarrow> order list \<Rightarrow> order list" where
  "spec_rest o1 xs =
     (let better = (\<lambda>x. key_of (side o1) (the (price x)) \<le> key_of (side o1) (the (price o1)))
      in takeWhile better xs @ o1 # dropWhile better xs)"

definition spec_add ::
    "string \<Rightarrow> order \<Rightarrow> order list \<Rightarrow> order list \<Rightarrow> trade list \<times> order \<times> order list \<times> order list" where
  "spec_add iid o1 own opp =
     (case spec_match iid o1 opp of (ts, o2, opp') \<Rightarrow>
        (ts, o2, if \<not> is_filled o2 \<and> is_limit_order o2 then spec_rest o2 own else own, opp'))"

section \<open>Re-establishing the invariant\<close>

lemma side_orders_set_side [simp]:
  "side_orders sd (set_side sd lvs b) = all_orders lvs"
  "side_orders (flip sd) (set_side sd lvs b) = side_orders (flip sd) b"
  by (simp_all add: side_orders_def)

lemma side_orders_updates [simp]:
  "side_orders sd (b\<lparr>order_ids := s\<rparr>) = side_orders sd b"
  "side_orders sd (b\<lparr>order_price_map := m\<rparr>) = side_orders sd b"
  "side_orders sd (b\<lparr>trades := ts\<rparr>) = side_orders sd b"
  by (simp_all add: side_orders_def)

lemma mset_resting: "mset (resting b) = mset (side_orders sd b) + mset (side_orders (flip sd) b)"
  by (cases sd) (simp_all add: resting_def)

lemma set_resting: "set (resting b) = set (side_orders sd b) \<union> set (side_orders (flip sd) b)"
  by (cases sd) (auto simp: resting_def)

lemma distinct_ids_resting:
  "distinct (map order_id (resting b)) \<longleftrightarrow>
   distinct (map order_id (side_orders sd b @ side_orders (flip sd) b))"
  by (rule mset_eq_imp_distinct_iff) (simp add: mset_resting [of b sd])

lemma uncrossed_side:
  "uncrossed b \<longleftrightarrow>
   (\<forall>x \<in> set (book_side sd b). \<forall>y \<in> set (book_side (flip sd) b).
      key_of sd (l_price y) < key_of sd (l_price x))"
  by (cases sd) (auto simp: uncrossed_def book_side_def)

lemma book_wf_iff:
  "book_wf b \<longleftrightarrow>
   side_ok sd (book_instrument b) (book_side sd b) \<and>
   side_ok (flip sd) (book_instrument b) (book_side (flip sd) b) \<and>
   index_ok b \<and> uncrossed b \<and> length (trades b) \<le> max_recent_trades"
  by (cases sd) (auto simp: book_wf_def book_side_def)

lemma book_wf_new [wf_intros]: "book_wf (new_book iid)"
  by (simp add: book_wf_def new_book_def index_ok_def resting_def side_orders_def book_side_def
      uncrossed_def)

lemma rests_ok_in_book:
  "book_wf b \<Longrightarrow> o1 \<in> set (side_orders sd b) \<Longrightarrow> \<exists>p. rests_ok sd (book_instrument b) p o1"
  using side_ok_rests [OF book_wf_side] by (simp add: side_orders_def)

text \<open>A change of quantities only: ids and prices of the side stay as they are.\<close>

lemma book_wf_update:
  assumes wf: "book_wf b" and ok: "side_ok sd (book_instrument b) (book_side sd b')"
    and same: "map (\<lambda>x. (order_id x, price x)) (side_orders sd b') =
      map (\<lambda>x. (order_id x, price x)) (side_orders sd b)"
    and prices: "l_price ` set (book_side sd b') \<subseteq> l_price ` set (book_side sd b)"
    and frame: "book_side (flip sd) b' = book_side (flip sd) b" "order_ids b' = order_ids b"
      "order_price_map b' = order_price_map b" "book_instrument b' = book_instrument b"
      "length (trades b') \<le> max_recent_trades"
  shows "book_wf b'"
proof -
  have fl: "side_orders (flip sd) b' = side_orders (flip sd) b"
    using frame(1) by (simp add: side_orders_def)
  have keys: "(\<lambda>x. (order_id x, price x)) ` set (resting b') = (\<lambda>x. (order_id x, price x)) ` set (resting b)"
    using arg_cong [OF same, of set] fl by (simp add: set_resting [of _ sd] image_Un)
  have ids: "map order_id (side_orders sd b') = map order_id (side_orders sd b)"
    using arg_cong [OF same, of "map fst"] by (simp add: comp_def)
  have idx: "index_ok b"
    using wf by (simp add: book_wf_def)
  have "order_id ` set (resting b') = order_id ` set (resting b)"
    using arg_cong [OF keys, of "image fst"] by (simp add: image_image)
  moreover have "(\<exists>x \<in> set (resting b'). order_id x = oid \<and> price x = Some p) \<longleftrightarrow>
      (\<exists>x \<in> set (resting b). order_id x = oid \<and> price x = Some p)" for oid p
    using keys by (auto simp: set_eq_iff image_iff) metis+
  ultimately have "index_ok b'"
    using idx frame ids fl by (simp add: index_ok_def distinct_ids_resting [of _ sd])
  moreover have "uncrossed b'"
    using wf prices frame(1) by (fastforce simp: book_wf_def uncrossed_side [of _ sd])
  ultimately show ?thesis
    using wf ok frame by (simp add: book_wf_iff [of _ sd])
qed

text \<open>One resting order leaves the book.\<close>

lemma book_wf_remove:
  assumes wf: "book_wf b" and ok: "side_ok sd (book_instrument b) (book_side sd b')"
    and gone: "mset (side_orders sd b) = add_mset o1 (mset (side_orders sd b'))"
    and prices: "l_price ` set (book_side sd b') \<subseteq> l_price ` set (book_side sd b)"
    and frame: "book_side (flip sd) b' = book_side (flip sd) b"
      "order_ids b' = order_ids b - {order_id o1}"
      "order_price_map b' = (order_price_map b)(order_id o1 := None)"
      "book_instrument b' = book_instrument b" "length (trades b') \<le> max_recent_trades"
  shows "book_wf b'"
proof -
  have fl: "side_orders (flip sd) b' = side_orders (flip sd) b"
    using frame(1) by (simp add: side_orders_def)
  have ms: "mset (resting b) = add_mset o1 (mset (resting b'))"
    using gone fl by (simp add: mset_resting [of _ sd])
  have st: "set (resting b) = insert o1 (set (resting b'))"
    using arg_cong [OF ms, of set_mset] by simp
  have idx: "index_ok b"
    using wf by (simp add: book_wf_def)
  have "mset (map order_id (resting b)) = mset (order_id o1 # map order_id (resting b'))"
    using ms by simp
  from mset_eq_imp_distinct_iff [OF this] idx
  have d: "distinct (map order_id (resting b'))" "order_id o1 \<notin> order_id ` set (resting b')"
    by (auto simp: index_ok_def)
  from d(2) have other: "\<forall>x \<in> set (resting b'). order_id x \<noteq> order_id o1"
    by (metis imageI)
  note d(1)
  moreover have "order_ids b' = order_id ` set (resting b')"
    using idx st other by (auto simp: frame(2) index_ok_def)
  moreover have "order_price_map b' oid = Some q \<longleftrightarrow>
      (\<exists>x \<in> set (resting b'). order_id x = oid \<and> price x = Some q)" for oid q
    using idx st other by (cases "oid = order_id o1") (auto simp: frame(3) index_ok_def)
  ultimately have "index_ok b'"
    by (simp add: index_ok_def)
  moreover have "uncrossed b'"
    using wf prices frame(1) by (fastforce simp: book_wf_def uncrossed_side [of _ sd])
  ultimately show ?thesis
    using wf ok frame by (simp add: book_wf_iff [of _ sd])
qed

text \<open>A fresh order joins the book at a price that does not cross.\<close>

lemma book_wf_insert:
  assumes wf: "book_wf b" and ok: "side_ok sd (book_instrument b) (book_side sd b')"
    and come: "mset (side_orders sd b') = add_mset o1 (mset (side_orders sd b))"
    and p: "price o1 = Some p" and fresh: "order_id o1 \<notin> order_ids b"
    and prices: "l_price ` set (book_side sd b') \<subseteq> insert p (l_price ` set (book_side sd b))"
    and free: "\<forall>y \<in> set (book_side (flip sd) b). key_of sd (l_price y) < key_of sd p"
    and frame: "book_side (flip sd) b' = book_side (flip sd) b"
      "order_ids b' = insert (order_id o1) (order_ids b)"
      "order_price_map b' = (order_price_map b)(order_id o1 \<mapsto> p)"
      "book_instrument b' = book_instrument b" "length (trades b') \<le> max_recent_trades"
  shows "book_wf b'"
proof -
  have fl: "side_orders (flip sd) b' = side_orders (flip sd) b"
    using frame(1) by (simp add: side_orders_def)
  have ms: "mset (resting b') = add_mset o1 (mset (resting b))"
    using come fl by (simp add: mset_resting [of _ sd])
  have st: "set (resting b') = insert o1 (set (resting b))"
    using arg_cong [OF ms, of set_mset] by simp
  have idx: "index_ok b"
    using wf by (simp add: book_wf_def)
  have "mset (map order_id (resting b')) = mset (order_id o1 # map order_id (resting b))"
    using ms by simp
  from mset_eq_imp_distinct_iff [OF this] have "distinct (map order_id (resting b'))"
    using idx fresh by (simp add: index_ok_def)
  moreover have "order_ids b' = order_id ` set (resting b')"
    using idx st by (simp add: frame(2) index_ok_def)
  moreover have "order_price_map b' oid = Some q \<longleftrightarrow>
      (\<exists>x \<in> set (resting b'). order_id x = oid \<and> price x = Some q)" for oid q
  proof (cases "oid = order_id o1")
    case True
    with idx fresh have "\<forall>x \<in> set (resting b). order_id x \<noteq> oid"
      by (metis imageI index_ok_def)
    with True st p show ?thesis by (auto simp: frame(3))
  next
    case False
    with idx st show ?thesis by (auto simp: frame(3) index_ok_def)
  qed
  ultimately have "index_ok b'"
    by (simp add: index_ok_def)
  moreover have "uncrossed b'"
    using wf prices free frame(1) by (fastforce simp: book_wf_def uncrossed_side [of _ sd])
  ultimately show ?thesis
    using wf ok frame by (simp add: book_wf_iff [of _ sd])
qed

section \<open>One iteration of the matching loop\<close>

text \<open>The best level of a well-formed side, and the order at the head of its queue.\<close>

lemma best_level:
  assumes "book_wf b" and "book_side sd b = lv # rest"
  obtains m ms where "l_orders lv = m # ms" and "rests_ok sd (book_instrument b) (l_price lv) m"
    and "total_quantity lv = remaining_quantity m + sum_list (map remaining_quantity ms)"
    and "\<forall>x \<in> set ms. rests_ok sd (book_instrument b) (l_price lv) x"
proof -
  from assms book_wf_side [of b sd] have ok: "level_ok sd (book_instrument b) lv" by simp
  then obtain m ms where "l_orders lv = m # ms"
    by (cases "l_orders lv") (auto simp: level_ok_def)
  with ok that show thesis by (simp add: level_ok_def)
qed

definition match_qty :: "order \<Rightarrow> order \<Rightarrow> rat" where
  "match_qty o1 m = min (remaining_quantity o1) (remaining_quantity m)"

lemma match_qty_facts:
  assumes "order_ok o1" and "\<not> is_filled o1" and "rests_ok sd iid p m"
  shows "0 < match_qty o1 m" "match_qty o1 m \<in> \<int>" "match_qty o1 m \<le> remaining_quantity o1"
    "match_qty o1 m \<le> remaining_quantity m"
  using assms by (auto simp: match_qty_def order_ok_def is_filled_def rests_ok_def min_def)

lemma match_trade_ok:
  assumes "0 < lp" and "0 < q" and "q \<in> \<int>"
  shows "new_trade (match_trade iid o1 m lp q) = Inr (match_trade iid o1 m lp q)"
  using assms by (simp add: new_trade_Inr trade_ok_def match_trade_def)

lemma length_record_book_trade: "length (trades (record_book_trade t b)) \<le> max_recent_trades"
  by (simp add: record_book_trade_def length_push_bounded)

lemma record_book_trade_simps [simp]:
  "book_side sd (record_book_trade t b) = book_side sd b"
  "order_ids (record_book_trade t b) = order_ids b"
  "order_price_map (record_book_trade t b) = order_price_map b"
  "book_instrument (record_book_trade t b) = book_instrument b"
  "trades (record_book_trade t b) = push_bounded max_recent_trades t (trades b)"
  by (simp_all add: record_book_trade_def)

lemma book_wf_record_trade [wf_intros]: "book_wf b \<Longrightarrow> book_wf (record_book_trade t b)"
  by (simp add: record_book_trade_def book_wf_def index_ok_def resting_def uncrossed_def
      length_push_bounded)

text \<open>The state after an iteration that fills part of the head order, or all of it.\<close>

definition part_filled_book :: "order_side \<Rightarrow> price_level \<Rightarrow> price_level list \<Rightarrow> rat \<Rightarrow> order_book \<Rightarrow> order_book" where
  "part_filled_book sd lv rest q b =
     set_side sd (lv\<lparr>l_orders := take_qty q (hd (l_orders lv)) # tl (l_orders lv),
                     total_quantity := total_quantity lv - q\<rparr> # rest) b"

definition head_filled_book :: "order_side \<Rightarrow> price_level \<Rightarrow> price_level list \<Rightarrow> rat \<Rightarrow> order_book \<Rightarrow> order_book" where
  "head_filled_book sd lv rest q b =
     (let oid = order_id (hd (l_orders lv));
          b' = b\<lparr>order_ids := order_ids b - {oid}, order_price_map := (order_price_map b)(oid := None)\<rparr>
      in set_side sd
           (if tl (l_orders lv) = [] then rest
            else lv\<lparr>l_orders := tl (l_orders lv), total_quantity := total_quantity lv - q\<rparr> # rest) b')"

lemma set_side_twice [simp]:
  "set_side sd xs (set_side sd ys b) = set_side sd xs b"
  "set_side sd xs ((set_side sd ys b)\<lparr>order_ids := s, order_price_map := m\<rparr>) =
     set_side sd xs (b\<lparr>order_ids := s, order_price_map := m\<rparr>)"
  "(set_side sd ys b)\<lparr>order_ids := s, order_price_map := m\<rparr> =
     set_side sd ys (b\<lparr>order_ids := s, order_price_map := m\<rparr>)"
  by (cases sd; simp add: set_side_def)+

lemma in_index:
  assumes "book_wf b" and "x \<in> set (side_orders sd b)"
  shows "order_id x \<in> order_ids b" "order_price_map b (order_id x) = price x"
proof -
  from assms(2) have x: "x \<in> set (resting b)"
    by (simp add: set_resting [of b sd])
  with assms(1) show "order_id x \<in> order_ids b"
    by (simp add: book_wf_def index_ok_def)
  obtain p where "price x = Some p"
    using rests_ok_in_book [OF assms] by (auto simp: rests_ok_def)
  with x assms(1) show "order_price_map b (order_id x) = price x"
    by (auto simp: book_wf_def index_ok_def)
qed

lemma match_body_eq:
  assumes wf: "book_wf b" and side: "book_side (flip (side o1)) b = lv # rest"
    and m: "l_orders lv = m # ms" and ok: "order_ok o1" "\<not> is_filled o1"
    and rm: "rests_ok (flip (side o1)) (book_instrument b) (l_price lv) m"
  defines "q \<equiv> match_qty o1 m"
  defines "t \<equiv> match_trade (book_instrument b) o1 m (l_price lv) q"
  shows "match_body o1 lv rest b ts =
    (None, ts @ [t], take_qty q o1,
     (if q = remaining_quantity m then head_filled_book else part_filled_book)
       (flip (side o1)) lv rest q (record_book_trade t b))"
proof -
  note q = match_qty_facts [OF ok rm, folded q_def]
  have t: "new_trade t = Inr t"
    unfolding t_def using rests_ok_price_pos [OF rm] q by (intro match_trade_ok)
  have "m \<in> set (side_orders (flip (side o1)) b)"
    using side m by (simp add: side_orders_def)
  note idx = in_index [OF wf this]
  have pm: "price m = Some (l_price lv)"
    using rm by (rule rests_okD)
  have qm: "min (remaining_quantity o1) (remaining_quantity m) = q"
    by (simp add: q_def match_qty_def)
  show ?thesis
    using idx pm q
    by (simp add: match_body_def m qm t_def [symmetric] t fill_ok set_opposite_is_flip
        part_filled_book_def head_filled_book_def drop_filled_def level_remove_head is_filled_def
        level_is_empty_def Let_def)
qed

lemma part_filled_wf:
  assumes wf: "book_wf b" and side: "book_side sd b = lv # rest" and m: "l_orders lv = m # ms"
    and q: "0 < q" "q \<in> \<int>" "q < remaining_quantity m"
  shows "book_wf (part_filled_book sd lv rest q b)"
proof (rule book_wf_update [OF wf])
  from wf side book_wf_side [of b sd]
  have ok: "side_ok sd (book_instrument b) (lv # rest)" by simp
  then have rm: "rests_ok sd (book_instrument b) (l_price lv) m"
    using m by (simp add: level_ok_def)
  with q have "rests_ok sd (book_instrument b) (l_price lv) (take_qty q m)"
    by (auto simp: rests_ok_def intro: order_ok_take_qty)
  with ok m show "side_ok sd (book_instrument b) (book_side sd (part_filled_book sd lv rest q b))"
    by (auto simp: part_filled_book_def level_ok_def)
qed (use wf m side in \<open>auto simp: part_filled_book_def side_orders_def book_wf_def\<close>)

lemma head_filled_wf:
  assumes wf: "book_wf b" and side: "book_side sd b = lv # rest" and m: "l_orders lv = m # ms"
    and q: "q = remaining_quantity m"
  shows "book_wf (head_filled_book sd lv rest q b)"
proof (rule book_wf_remove [OF wf])
  from wf side book_wf_side [of b sd]
  have ok: "side_ok sd (book_instrument b) (lv # rest)" by simp
  with m q show "side_ok sd (book_instrument b) (book_side sd (head_filled_book sd lv rest q b))"
    by (auto simp: head_filled_book_def level_ok_def Let_def)
  show "mset (side_orders sd b) = add_mset m (mset (side_orders sd (head_filled_book sd lv rest q b)))"
    using side m by (auto simp: head_filled_book_def side_orders_def Let_def)
qed (use wf m side in \<open>auto simp: head_filled_book_def book_wf_def Let_def\<close>)

section \<open>The loop refines the specification\<close>

lemma record_trades_simps [simp]:
  "book_instrument (part_filled_book sd lv rest q b) = book_instrument b"
  "book_instrument (head_filled_book sd lv rest q b) = book_instrument b"
  "trades (part_filled_book sd lv rest q b) = trades b"
  "trades (head_filled_book sd lv rest q b) = trades b"
  "book_side (flip sd) (part_filled_book sd lv rest q b) = book_side (flip sd) b"
  "book_side (flip sd) (head_filled_book sd lv rest q b) = book_side (flip sd) b"
  by (simp_all add: part_filled_book_def head_filled_book_def Let_def)

lemma own_side_after_match [simp]:
  "book_side sd (part_filled_book (flip sd) lv rest q b) = book_side sd b"
  "book_side sd (head_filled_book (flip sd) lv rest q b) = book_side sd b"
  using record_trades_simps(5,6) [of "flip sd"] by simp_all

lemma side_orders_after_match:
  assumes "l_orders lv = m # ms"
  shows "side_orders sd (part_filled_book sd lv rest q b) = take_qty q m # ms @ all_orders rest"
    and "side_orders sd (head_filled_book sd lv rest q b) = ms @ all_orders rest"
  using assms by (simp_all add: part_filled_book_def head_filled_book_def Let_def)

lemma order_ids_after_match:
  "order_ids (part_filled_book sd lv rest q b) = order_ids b"
  "order_ids (head_filled_book sd lv rest q b) \<subseteq> order_ids b"
  by (auto simp: part_filled_book_def head_filled_book_def Let_def)

text \<open>The trade history after a call: the new trades pushed one by one.\<close>

definition push_trades :: "trade list \<Rightarrow> trade list \<Rightarrow> trade list" where
  "push_trades ts hist = foldl (\<lambda>h t. push_bounded max_recent_trades t h) hist ts"

lemma push_trades_Cons [simp]:
  "push_trades [] hist = hist"
  "push_trades (t # ts) hist = push_trades ts (push_bounded max_recent_trades t hist)"
  by (simp_all add: push_trades_def)

lemma side_orders_Cons:
  "book_side sd b = lv # rest \<Longrightarrow> side_orders sd b = l_orders lv @ all_orders rest"
  by (simp add: side_orders_def)

lemma spec_match_done: "is_filled o1 \<Longrightarrow> spec_match iid o1 xs = ([], o1, xs)"
  by (cases xs) simp_all

definition match_refines ::
    "order \<Rightarrow> order_book \<Rightarrow> exn option \<times> trade list \<times> order \<times> order_book \<Rightarrow> trade list \<Rightarrow> bool" where
  "match_refines o1 b res acc \<longleftrightarrow>
     (case res of (e, ts, o2, b') \<Rightarrow>
       (case spec_match (book_instrument b) o1 (side_orders (flip (side o1)) b) of (sts, so, opp) \<Rightarrow>
          e = None \<and> ts = acc @ sts \<and> o2 = so \<and> book_wf b' \<and> order_ok so \<and>
          side_orders (flip (side o1)) b' = opp \<and> book_side (side o1) b' = book_side (side o1) b \<and>
          order_ids b' \<subseteq> order_ids b \<and> book_instrument b' = book_instrument b \<and>
          trades b' = push_trades sts (trades b)))"

lemma match_loop_refines:
  assumes "book_wf b" and "order_ok o1"
  shows "match_refines o1 b (match_loop o1 b acc) acc"
  using assms
proof (induction o1 b acc rule: match_loop.induct)
  case (1 o1 b acc)
  let ?sd = "flip (side o1)"
  show ?case
  proof (cases "book_side ?sd b")
    case Nil
    with "1.prems" show ?thesis
      by (simp add: match_loop.simps [of o1 b acc] opposite_is_flip match_refines_def side_orders_def)
  next
    case (Cons lv rest)
    from best_level [OF "1.prems"(1) Cons] obtain m ms where m: "l_orders lv = m # ms"
      and rm: "rests_ok ?sd (book_instrument b) (l_price lv) m" by metis
    note sides = side_orders_Cons [OF Cons]
    have pm: "price m = Some (l_price lv)" using rm by (rule rests_okD)
    show ?thesis
    proof (cases "is_filled o1 \<or> beyond_limit o1 (l_price lv)")
      case True
      with "1.prems" Cons m pm sides show ?thesis
        by (auto simp: match_loop.simps [of o1 b acc] opposite_is_flip match_refines_def)
    next
      case False
      define q where "q = match_qty o1 m"
      define t where "t = match_trade (book_instrument b) o1 m (l_price lv) q"
      define b' where "b' = (if q = remaining_quantity m then head_filled_book else part_filled_book)
         ?sd lv rest q (record_book_trade t b)"
      from False have nf: "\<not> is_filled o1" and nb: "\<not> beyond_limit o1 (l_price lv)" by auto
      note q = match_qty_facts [OF "1.prems"(2) nf rm, folded q_def]
      have body: "match_body o1 lv rest b acc = (None, acc @ [t], take_qty q o1, b')"
        unfolding b'_def t_def q_def by (rule match_body_eq [OF "1.prems"(1) Cons m "1.prems"(2) nf rm])
      have side': "book_side ?sd (record_book_trade t b) = lv # rest" using Cons by simp
      have wf': "book_wf b'"
        using q head_filled_wf [OF book_wf_record_trade [OF "1.prems"(1)] side' m]
          part_filled_wf [OF book_wf_record_trade [OF "1.prems"(1)] side' m]
        by (auto simp: b'_def)
      have ok': "order_ok (take_qty q o1)"
        using q "1.prems"(2) by (auto intro: order_ok_take_qty)
      have IH: "match_refines (take_qty q o1) b' (match_loop (take_qty q o1) b' (acc @ [t])) (acc @ [t])"
        using "1.IH" [OF _ nf nb body [symmetric] refl refl refl] Cons wf' ok' by (simp add: opposite_is_flip)
      have step: "match_loop o1 b acc = match_loop (take_qty q o1) b' (acc @ [t])"
        using body nf nb Cons by (simp add: match_loop.simps [of o1 b acc] opposite_is_flip)
      have ids: "order_ids b' \<subseteq> order_ids b"
        using order_ids_after_match(2) [of ?sd lv rest q "record_book_trade t b"]
        by (cases "q = remaining_quantity m") (auto simp: b'_def order_ids_after_match(1))
      have own: "book_side (side o1) b' = book_side (side o1) b"
        by (simp add: b'_def)
      have spec: "spec_match (book_instrument b) o1 (side_orders ?sd b) =
        (case spec_match (book_instrument b) (take_qty q o1) (side_orders ?sd b') of (ts, o2, opp) \<Rightarrow> (t # ts, o2, opp))"
      proof (cases "q = remaining_quantity m")
        case True
        then show ?thesis
          using False sides m pm
          by (simp add: b'_def side_orders_after_match q_def match_qty_def t_def Let_def)
      next
        case part: False
        with q have "is_filled (take_qty q o1)"
          by (simp add: q_def match_qty_def is_filled_def min_def split: if_splits)
        with part show ?thesis
          using False sides m pm
          by (simp add: b'_def side_orders_after_match spec_match_done)
            (auto simp: q_def match_qty_def t_def Let_def)
      qed
      show ?thesis
        using IH ids own spec
        by (auto simp: step match_refines_def b'_def split: prod.splits)
    qed
  qed
qed

section \<open>Inserting and adding\<close>

text \<open>
  Induction over a run of the specification: it stops, fills the head order completely and
  goes on, or fills part of it and is done.
\<close>

lemma spec_match_induct [consumes 1, case_names stop fill part]:
  assumes run: "spec_match iid o1 xs = (ts, o2, opp)"
    and stop: "\<And>o1 xs. xs = [] \<or> is_filled o1 \<or> beyond_limit o1 (the (price (hd xs))) \<Longrightarrow> P o1 xs [] o1 xs"
    and fill: "\<And>o1 m ms ts o2 opp. \<not> is_filled o1 \<Longrightarrow> \<not> beyond_limit o1 (the (price m)) \<Longrightarrow>
      remaining_quantity m \<le> remaining_quantity o1 \<Longrightarrow>
      P (take_qty (remaining_quantity m) o1) ms ts o2 opp \<Longrightarrow>
      P o1 (m # ms) (match_trade iid o1 m (the (price m)) (remaining_quantity m) # ts) o2 opp"
    and part: "\<And>o1 m ms. \<not> is_filled o1 \<Longrightarrow> \<not> beyond_limit o1 (the (price m)) \<Longrightarrow>
      remaining_quantity o1 < remaining_quantity m \<Longrightarrow>
      P o1 (m # ms) [match_trade iid o1 m (the (price m)) (remaining_quantity o1)]
        (take_qty (remaining_quantity o1) o1) (take_qty (remaining_quantity o1) m # ms)"
  shows "P o1 xs ts o2 opp"
  using run
proof (induction xs arbitrary: o1 ts o2 opp)
  case Nil
  then show ?case by (auto intro: stop)
next
  case (Cons m ms)
  show ?case
  proof (cases "is_filled o1 \<or> beyond_limit o1 (the (price m))")
    case True
    with Cons.prems show ?thesis by (auto intro: stop)
  next
    case go: False
    show ?thesis
    proof (cases "remaining_quantity m \<le> remaining_quantity o1")
      case True
      with go Cons.prems obtain ts' where
        "ts = match_trade iid o1 m (the (price m)) (remaining_quantity m) # ts'"
        "spec_match iid (take_qty (remaining_quantity m) o1) ms = (ts', o2, opp)"
        by (auto simp: Let_def min_absorb2 split: prod.splits)
      with go True Cons.IH show ?thesis by (auto intro: fill)
    next
      case False
      with go Cons.prems show ?thesis by (auto simp: Let_def intro: part)
    qed
  qed
qed

lemma spec_match_fixed:
  assumes "spec_match iid o1 xs = (ts, o2, opp)"
  shows "side o2 = side o1 \<and> price o2 = price o1 \<and> order_id o2 = order_id o1 \<and>
    instrument_id o2 = instrument_id o1 \<and> order_type o2 = order_type o1 \<and>
    trader_id o2 = trader_id o1 \<and> quantity o2 = quantity o1"
  using assms by (induction rule: spec_match_induct) auto

text \<open>
  When the loop stops with the order unfilled, the next order on the opposite side, if
  any, is beyond its limit.
\<close>

lemma spec_match_stops:
  assumes "spec_match iid o1 xs = (ts, o2, opp)" and "\<not> is_filled o2"
  shows "opp = [] \<or> beyond_limit o2 (the (price (hd opp)))"
  using assms by (induction rule: spec_match_induct) (auto simp: is_filled_def)

lemma beyond_limit_key:
  "is_limit_order o1 \<Longrightarrow> price o1 = Some p \<Longrightarrow>
   beyond_limit o1 lp \<longleftrightarrow> key_of (side o1) lp < key_of (side o1) p"
  by (cases "side o1") (simp_all add: beyond_limit_def is_buy_def is_sell_def)

text \<open>Inserting the unfilled remainder of a limit order that no opposite level can match.\<close>

lemma insert_order_ok:
  assumes wf: "book_wf b" and ok: "order_ok o1" and lim: "is_limit_order o1"
    and unfilled: "\<not> is_filled o1" and iid: "instrument_id o1 = book_instrument b"
    and fresh: "order_id o1 \<notin> order_ids b"
    and stop: "side_orders (flip (side o1)) b = [] \<or>
      beyond_limit o1 (the (price (hd (side_orders (flip (side o1)) b))))"
  shows "\<exists>b'. insert_order o1 b = (None, b') \<and> book_wf b' \<and>
    side_orders (side o1) b' = spec_rest o1 (side_orders (side o1) b) \<and>
    book_side (flip (side o1)) b' = book_side (flip (side o1)) b \<and>
    order_ids b' = insert (order_id o1) (order_ids b) \<and>
    book_instrument b' = book_instrument b \<and> trades b' = trades b"
proof -
  let ?sd = "side o1"
  obtain p where p: "price o1 = Some p"
    using ok lim by (auto simp: order_ok_limit_iff)
  have r: "rests_ok ?sd (book_instrument b) p o1"
    using ok unfilled iid p by (auto simp: rests_ok_def is_filled_def order_ok_def)
  define lvs where "lvs = place_level (key_of ?sd) o1 p (book_side ?sd b)"
  define b' where "b' = (set_side ?sd lvs b)
    \<lparr>order_price_map := (order_price_map b)(order_id o1 \<mapsto> p),
     order_ids := insert (order_id o1) (order_ids b)\<rparr>"
  have ins: "insert_order o1 b = (None, b')"
    using lim p by (cases ?sd)
      (simp_all add: insert_order_def b'_def lvs_def is_buy_def book_side_def set_side_def)
  have sok: "side_ok ?sd (book_instrument b) (book_side ?sd b)"
    using wf by (rule book_wf_side)
  then have srt: "ladder_sorted (key_of ?sd) (book_side ?sd b)"
    by (simp add: side_ok_def)
  have spec: "lvs = place_spec (key_of ?sd) o1 p (book_side ?sd b)"
    unfolding lvs_def using srt by (rule side_ladder.place_level_spec)
  have prios: "all_orders lvs = spec_rest o1 (side_orders ?sd b)"
    unfolding spec spec_rest_def Let_def p side_orders_def option.sel
    using sok by (intro side_ladder.place_spec_all_orders srt) (auto simp: side_ok_def level_ok_def rests_ok_def)
  have free: "key_of ?sd (l_price y) < key_of ?sd p" if y: "y \<in> set (book_side (flip ?sd) b)" for y
  proof -
    obtain lv rest where opp: "book_side (flip ?sd) b = lv # rest"
      using y by (cases "book_side (flip ?sd) b") auto
    from best_level [OF wf opp] obtain m ms where m: "l_orders lv = m # ms"
      and rm: "rests_ok (flip ?sd) (book_instrument b) (l_price lv) m" by metis
    from stop opp m have "beyond_limit o1 (the (price m))"
      by (simp add: side_orders_def)
    then have best: "key_of ?sd (l_price lv) < key_of ?sd p"
      using beyond_limit_key [OF lim p] rests_okD(3) [OF rm] by simp
    have "side_ok (flip ?sd) (book_instrument b) (lv # rest)"
      using book_wf_side [OF wf, of "flip ?sd"] opp by simp
    with y opp have "y = lv \<or> key_of (flip ?sd) (l_price lv) < key_of (flip ?sd) (l_price y)"
      by auto
    with best show ?thesis by (cases ?sd) auto
  qed
  have "book_wf b'"
  proof (rule book_wf_insert [OF wf, of ?sd _ o1 p])
    show "side_ok ?sd (book_instrument b) (book_side ?sd b')"
      using side_ok_place_level [OF sok r] by (simp add: b'_def lvs_def)
    show "mset (side_orders ?sd b') = add_mset o1 (mset (side_orders ?sd b))"
      by (simp add: b'_def spec side_orders_def mset_place_spec)
    show "l_price ` set (book_side ?sd b') \<subseteq> insert p (l_price ` set (book_side ?sd b))"
      by (simp add: b'_def spec set_place_spec_prices)
    show "\<forall>y \<in> set (book_side (flip ?sd) b). key_of ?sd (l_price y) < key_of ?sd p"
      using free by blast
    show "length (trades b') \<le> max_recent_trades"
      using wf by (simp add: b'_def book_wf_def)
  qed (use p fresh in \<open>simp_all add: b'_def\<close>)
  moreover have "side_orders ?sd b' = spec_rest o1 (side_orders ?sd b)"
    using prios by (simp add: b'_def)
  moreover have "book_side (flip ?sd) b' = book_side (flip ?sd) b"
    "order_ids b' = insert (order_id o1) (order_ids b)"
    "book_instrument b' = book_instrument b" "trades b' = trades b"
    by (simp_all add: b'_def)
  ultimately show ?thesis using ins by blast
qed

text \<open>
  \<open>add_order\<close> on a well-formed book and a valid order with a fresh id: no exception, the
  invariant kept, and the specification's effect on both sides.
\<close>

definition add_refines ::
    "order \<Rightarrow> order_book \<Rightarrow> exn option \<times> trade list \<times> order \<times> order_book \<Rightarrow> bool" where
  "add_refines o1 b res \<longleftrightarrow>
     (case res of (e, ts, o2, b') \<Rightarrow>
        e = None \<and> book_wf b' \<and> order_ok o2 \<and>
        spec_add (book_instrument b) o1 (side_orders (side o1) b) (side_orders (flip (side o1)) b) =
          (ts, o2, side_orders (side o1) b', side_orders (flip (side o1)) b') \<and>
        order_ids b' \<subseteq> insert (order_id o1) (order_ids b) \<and>
        book_instrument b' = book_instrument b \<and> trades b' = push_trades ts (trades b))"

definition addable :: "order \<Rightarrow> order_book \<Rightarrow> bool" where
  "addable o1 b \<longleftrightarrow>
     order_ok o1 \<and> instrument_id o1 = book_instrument b \<and> order_id o1 \<notin> order_ids b"

lemma add_order_refines:
  assumes wf: "book_wf b" and add: "addable o1 b"
  shows "add_refines o1 b (add_order o1 b)"
proof -
  let ?opp = "side_orders (flip (side o1)) b"
  obtain e ts o2 b1 where loop: "match_order o1 b = (e, ts, o2, b1)"
    by (metis surj_pair)
  obtain sts so opp where sm: "spec_match (book_instrument b) o1 ?opp = (sts, so, opp)"
    by (metis surj_pair)
  have ref: "e = None" "ts = sts" "o2 = so" "book_wf b1" "order_ok so"
    "side_orders (flip (side o1)) b1 = opp" "book_side (side o1) b1 = book_side (side o1) b"
    "order_ids b1 \<subseteq> order_ids b" "book_instrument b1 = book_instrument b"
    "trades b1 = push_trades sts (trades b)"
    using match_loop_refines [OF wf, of o1 "[]"] add loop sm
    by (simp_all add: addable_def match_order_def match_refines_def)
  note fixd = spec_match_fixed [OF sm]
  have own: "side_orders (side o1) b1 = side_orders (side o1) b"
    using ref(7) by (simp add: side_orders_def)
  show ?thesis
  proof (cases "\<not> is_filled so \<and> is_limit_order so")
    case False
    with loop ref add sm own show ?thesis
      by (auto simp: add_order_def add_refines_def addable_def spec_add_def)
  next
    case True
    have "opp = [] \<or> beyond_limit so (the (price (hd opp)))"
      using spec_match_stops [OF sm] True by auto
    with insert_order_ok [OF ref(4,5), of] True fixd ref add
    obtain b2 where "insert_order so b1 = (None, b2)" "book_wf b2"
      "side_orders (side so) b2 = spec_rest so (side_orders (side so) b1)"
      "book_side (flip (side so)) b2 = book_side (flip (side so)) b1"
      "order_ids b2 = insert (order_id so) (order_ids b1)"
      "book_instrument b2 = book_instrument b1" "trades b2 = trades b1"
      by (auto simp: addable_def)
    with loop ref add sm own fixd True show ?thesis
      by (auto simp: add_order_def add_refines_def addable_def spec_add_def side_orders_def)
  qed
qed

end
