(* ===== verification/Book_Theorems.thy ===== *)
theory Book_Theorems
  imports Book_Refinement
begin

text \<open>
  What the book promises its users: conservation of quantity, price protection, strict
  price-time priority, exact lookup and cancellation, and the round trip of an insertion
  and its cancellation. The proofs argue on the flat specification and carry the result
  over with \<open>add_order_refines\<close>.
\<close>

section \<open>Facts about the specification\<close>

abbreviation total_remaining :: "order list \<Rightarrow> rat" where
  "total_remaining xs \<equiv> sum_list (map remaining_quantity xs)"

abbreviation total_traded :: "trade list \<Rightarrow> rat" where
  "total_traded ts \<equiv> sum_list (map t_quantity ts)"

lemma match_trade_simps [simp]:
  "t_quantity (match_trade iid o1 m lp q) = q"
  "t_price (match_trade iid o1 m lp q) = lp"
  "t_instrument_id (match_trade iid o1 m lp q) = iid"
  by (simp_all add: match_trade_def)

text \<open>The order id of the resting side of a trade that \<open>o1\<close> initiated.\<close>

definition maker_order_id :: "order \<Rightarrow> trade \<Rightarrow> string" where
  "maker_order_id o1 t = (if is_buy o1 then seller_order_id t else buyer_order_id t)"

lemma maker_match_trade [simp]:
  "side o1 = side o2 \<Longrightarrow> maker_order_id o1 (match_trade iid o2 m lp q) = order_id m"
  by (simp add: maker_order_id_def match_trade_def is_buy_def)

lemma spec_match_conserves [quantity_simps]:
  assumes "spec_match iid o1 xs = (ts, o2, opp)"
  shows "remaining_quantity o1 = remaining_quantity o2 + total_traded ts \<and>
    total_remaining xs = total_remaining opp + total_traded ts"
  using assms by (induction rule: spec_match_induct) auto

text \<open>
  The makers are a prefix of the priority list: all of them leave the book but possibly
  the last, which keeps what it was not asked for.
\<close>

definition consumes :: "trade list \<Rightarrow> order list \<Rightarrow> order list \<Rightarrow> bool" where
  "consumes ts xs opp \<longleftrightarrow>
     opp = drop (length ts) xs \<or>
     (\<exists>k. length ts = Suc k \<and>
        opp = take_qty (t_quantity (ts ! k)) (xs ! k) # drop (Suc k) xs)"

lemma consumes_Nil [simp]: "consumes [] xs xs"
  by (simp add: consumes_def)

lemma consumes_Cons: "consumes ts ms opp \<Longrightarrow> consumes (t # ts) (m # ms) opp"
  by (auto simp: consumes_def)

lemma consumes_part: "consumes [t] (m # ms) (take_qty (t_quantity t) m # ms)"
  by (simp add: consumes_def)

lemma spec_match_prefix:
  assumes "spec_match iid o1 xs = (ts, o2, opp)" and "\<forall>x \<in> set xs. price x \<noteq> None"
  shows "map (\<lambda>t. (maker_order_id o1 t, Some (t_price t))) ts =
      map (\<lambda>x. (order_id x, price x)) (take (length ts) xs) \<and> consumes ts xs opp"
  using assms
proof (induction rule: spec_match_induct)
  case (fill o1 m ms ts o2 opp)
  have "maker_order_id (take_qty (remaining_quantity m) o1) = maker_order_id o1"
    by (simp add: maker_order_id_def fun_eq_iff)
  with fill show ?case by (auto intro: consumes_Cons)
next
  case (part o1 m ms)
  then show ?case
    using consumes_part [of "match_trade iid o1 m (the (price m)) (remaining_quantity o1)" m ms]
    by auto
qed auto

text \<open>Every trade is at a price the incoming order accepts and for a positive amount.\<close>

definition initiated_by :: "order \<Rightarrow> trade \<Rightarrow> bool" where
  "initiated_by o1 t \<longleftrightarrow>
     aggressor_side t = side_value (side o1) \<and>
     (if is_buy o1 then buyer_order_id t = order_id o1 \<and> buyer_id t = trader_id o1
      else seller_order_id t = order_id o1 \<and> seller_id t = trader_id o1)"

lemma initiated_by_match_trade [simp]: "initiated_by o1 (match_trade iid o1 m lp q)"
  by (cases "side o1") (simp_all add: initiated_by_def match_trade_def is_buy_def)

lemma initiated_by_take_qty [simp]: "initiated_by (take_qty q o1) t = initiated_by o1 t"
  by (simp add: initiated_by_def)

lemma spec_match_trades:
  assumes "spec_match iid o1 xs = (ts, o2, opp)"
    and "0 \<le> remaining_quantity o1" and "\<forall>x \<in> set xs. 0 < remaining_quantity x"
  shows "\<forall>t \<in> set ts. \<not> beyond_limit o1 (t_price t) \<and> 0 < t_quantity t \<and>
    t_instrument_id t = iid \<and> initiated_by o1 t"
  using assms by (induction rule: spec_match_induct) (auto simp: is_filled_def)

lemma spec_match_ids:
  assumes "spec_match iid o1 xs = (ts, o2, opp)"
  shows "order_id ` set opp \<subseteq> order_id ` set xs"
  using assms by (induction rule: spec_match_induct) auto

lemma spec_match_beyond:
  assumes "spec_match iid o1 xs = (ts, o2, opp)"
  shows "beyond_limit o2 lp = beyond_limit o1 lp"
  using assms by (induction rule: spec_match_induct) auto

lemma spec_match_whole:
  assumes "spec_match iid o1 xs = (ts, o2, opp)"
    and "remaining_quantity o1 \<in> \<int>" and "\<forall>x \<in> set xs. remaining_quantity x \<in> \<int>"
  shows "\<forall>t \<in> set ts. t_quantity t \<in> \<int>"
  using assms by (induction rule: spec_match_induct) auto

lemma mset_spec_rest: "mset (spec_rest o1 xs) = add_mset o1 (mset xs)"
proof -
  have "mset (takeWhile P xs @ o1 # dropWhile P xs) = add_mset o1 (mset xs)" for P
    by (induction xs) auto
  then show ?thesis by (simp add: spec_rest_def Let_def)
qed

lemma set_spec_rest: "set (spec_rest o1 xs) = insert o1 (set xs)"
  using arg_cong [OF mset_spec_rest, of set_mset] by simp

lemma total_spec_rest [quantity_simps]:
  "total_remaining (spec_rest o1 xs) = total_remaining xs + remaining_quantity o1"
proof -
  have "sum_list (map f ys) = sum_mset (image_mset f (mset ys))" for f :: "order \<Rightarrow> rat" and ys
    by (induction ys) auto
  then show ?thesis by (simp add: mset_spec_rest add.commute)
qed

section \<open>From the specification to the book\<close>

lemma add_order_spec:
  assumes "book_wf b" and "addable o1 b" and "add_order o1 b = (e, ts, o2, b')"
  obtains opp where "e = None" and "book_wf b'" and "order_ok o2"
    and "spec_match (book_instrument b) o1 (side_orders (flip (side o1)) b) = (ts, o2, opp)"
    and "side_orders (flip (side o1)) b' = opp"
    and "side_orders (side o1) b' =
      (if \<not> is_filled o2 \<and> is_limit_order o2 then spec_rest o2 (side_orders (side o1) b)
       else side_orders (side o1) b)"
    and "order_ids b' \<subseteq> insert (order_id o1) (order_ids b)"
    and "book_instrument b' = book_instrument b" and "trades b' = push_trades ts (trades b)"
  using add_order_refines [OF assms(1,2)] assms(3) that
  by (auto simp: add_refines_def spec_add_def split: prod.splits)

lemma side_orders_positive:
  "book_wf b \<Longrightarrow> x \<in> set (side_orders sd b) \<Longrightarrow> 0 < remaining_quantity x \<and> price x \<noteq> None"
  using rests_ok_in_book by (fastforce simp: rests_ok_def)

text \<open>Priority order of a side: better prices first.\<close>

definition priority_sorted :: "order_side \<Rightarrow> order list \<Rightarrow> bool" where
  "priority_sorted sd xs \<longleftrightarrow> sorted_wrt (\<lambda>x y. key_of sd (the (price x)) \<le> key_of sd (the (price y))) xs"

lemma side_ok_priority: "side_ok sd iid lvs \<Longrightarrow> priority_sorted sd (all_orders lvs)"
proof (induction lvs)
  case (Cons lv lvs)
  have same: "\<forall>x \<in> set (l_orders lv). price x = Some (l_price lv)"
    using Cons.prems by (auto simp: level_ok_def rests_ok_def)
  have later: "\<forall>y \<in> set (all_orders lvs). key_of sd (l_price lv) < key_of sd (the (price y))"
    using Cons.prems by (fastforce simp: set_all_orders side_ok_def level_ok_def rests_ok_def)
  have "priority_sorted sd (l_orders lv)"
    using same by (auto simp: priority_sorted_def sorted_wrt_iff_nth_less)
  with Cons same later show ?case
    by (fastforce simp: priority_sorted_def sorted_wrt_append)
qed (simp add: priority_sorted_def)

lemma book_priority: "book_wf b \<Longrightarrow> priority_sorted sd (side_orders sd b)"
  unfolding side_orders_def by (rule side_ok_priority) (rule book_wf_side)

section \<open>Locating an order\<close>

text \<open>
  Where a resting order is: its side, its level and its place in the level's queue. On an
  uncrossed book the test \<open>is_bid_price\<close> picks the right side.
\<close>

definition located ::
    "order_book \<Rightarrow> order \<Rightarrow> order_side \<Rightarrow> price_level list \<Rightarrow> price_level \<Rightarrow> price_level list \<Rightarrow>
     order list \<Rightarrow> order list \<Rightarrow> bool" where
  "located b o1 sd pre lv post xs ys \<longleftrightarrow>
     book_side sd b = pre @ lv # post \<and> l_orders lv = xs @ o1 # ys \<and>
     order_price_map b (order_id o1) = Some (l_price lv) \<and>
     level_list b (l_price lv) = pre @ lv # post \<and>
     (is_bid_price b (l_price lv) \<longleftrightarrow> sd = BUY) \<and>
     (\<forall>l \<in> set pre. l_price l \<noteq> l_price lv) \<and> (\<forall>l \<in> set post. l_price l \<noteq> l_price lv) \<and>
     (\<forall>x \<in> set (all_orders pre @ xs @ ys @ all_orders post). order_id x \<noteq> order_id o1) \<and>
     (\<forall>x \<in> set (side_orders (flip sd) b). order_id x \<noteq> order_id o1)"

lemma is_bid_price_side:
  assumes "book_wf b" and "lv \<in> set (book_side sd b)"
  shows "is_bid_price b (l_price lv) \<longleftrightarrow> sd = BUY"
  using assms
  by (cases sd) (fastforce simp: is_bid_price_def book_side_def book_wf_def uncrossed_def list_ex_iff)+

lemma locate:
  assumes wf: "book_wf b" and in_side: "o1 \<in> set (side_orders sd b)"
  shows "\<exists>pre lv post xs ys. located b o1 sd pre lv post xs ys"
proof -
  from in_side obtain lv where lv: "lv \<in> set (book_side sd b)" "o1 \<in> set (l_orders lv)"
    by (auto simp: side_orders_def set_all_orders)
  then obtain pre post where side: "book_side sd b = pre @ lv # post"
    by (meson split_list)
  from lv(2) obtain xs ys where queue: "l_orders lv = xs @ o1 # ys"
    by (meson split_list)
  have sok: "side_ok sd (book_instrument b) (pre @ lv # post)"
    using book_wf_side [OF wf, of sd] side by simp
  then have "price o1 = Some (l_price lv)"
    using lv(2) by (auto simp: side_ok_def level_ok_def rests_ok_def)
  then have pm: "order_price_map b (order_id o1) = Some (l_price lv)"
    using in_index(2) [OF wf in_side] by simp
  have bid: "is_bid_price b (l_price lv) \<longleftrightarrow> sd = BUY"
    using wf lv(1) by (rule is_bid_price_side)
  have lists: "level_list b (l_price lv) = pre @ lv # post"
    using bid side by (cases sd) (simp_all add: level_list_def book_side_def)
  have others: "\<forall>l \<in> set pre. l_price l \<noteq> l_price lv" "\<forall>l \<in> set post. l_price l \<noteq> l_price lv"
    using sok by (fastforce simp: side_ok_def ladder_sorted_def sorted_wrt_append)+
  have "distinct (map order_id (side_orders sd b @ side_orders (flip sd) b))"
    using wf by (simp add: book_wf_def index_ok_def distinct_ids_resting [of b sd])
  moreover have "side_orders sd b = all_orders pre @ xs @ o1 # ys @ all_orders post"
    using side queue by (simp add: side_orders_def)
  ultimately have d: "order_id o1 \<notin> order_id ` set (all_orders pre @ xs @ ys @ all_orders post)"
    "order_id o1 \<notin> order_id ` set (side_orders (flip sd) b)"
    by auto
  from d have "\<forall>x \<in> set (all_orders pre @ xs @ ys @ all_orders post). order_id x \<noteq> order_id o1"
    "\<forall>x \<in> set (side_orders (flip sd) b). order_id x \<noteq> order_id o1"
    by (metis imageI)+
  with side queue pm bid lists others show ?thesis
    unfolding located_def by blast
qed

lemma locate_id:
  assumes "book_wf b" and "oid \<in> order_ids b"
  obtains o1 sd where "order_id o1 = oid" and "o1 \<in> set (side_orders sd b)"
  using assms by (auto simp: book_wf_def index_ok_def resting_def)

lemma unknown_id:
  assumes "book_wf b" and "oid \<notin> order_ids b"
  shows "order_price_map b oid = None"
proof (cases "order_price_map b oid")
  case (Some p)
  with assms(1) obtain x where "x \<in> set (resting b)" "order_id x = oid"
    by (auto simp: book_wf_def index_ok_def)
  with assms show ?thesis by (auto simp: book_wf_def index_ok_def)
qed simp

lemma pop_order_split:
  "\<forall>x \<in> set xs. order_id x \<noteq> order_id o1 \<Longrightarrow>
   pop_order (order_id o1) (xs @ o1 # ys) = Some (o1, xs @ ys)"
  by (induction xs) auto

lemma find_split: "\<not> list_ex P xs \<Longrightarrow> P y \<Longrightarrow> find P (xs @ y # ys) = Some y"
  by (induction xs) auto

lemma put_level_split:
  "\<forall>l \<in> set pre. l_price l \<noteq> p \<Longrightarrow> l_price lv = p \<Longrightarrow>
   put_level p lv' (pre @ lv # post) = pre @ lv' # post"
  by (induction pre) auto

lemma find_level: "\<forall>l \<in> set pre. l_price l \<noteq> l_price lv \<Longrightarrow>
   find (\<lambda>l. l_price l = l_price lv) (pre @ lv # post) = Some lv"
  by (rule find_split) (auto simp: list_ex_iff)

section \<open>Cancellation\<close>

definition without_order :: "order_side \<Rightarrow> price_level list \<Rightarrow> price_level \<Rightarrow> price_level list \<Rightarrow>
    order list \<Rightarrow> order list \<Rightarrow> order \<Rightarrow> order_book \<Rightarrow> order_book" where
  "without_order sd pre lv post xs ys o1 b =
     (let lv' = lv\<lparr>l_orders := xs @ ys, total_quantity := total_quantity lv - remaining_quantity o1\<rparr>
      in set_side sd (if xs @ ys = [] then pre @ post else pre @ lv' # post)
           (b\<lparr>order_ids := order_ids b - {order_id o1},
              order_price_map := (order_price_map b)(order_id o1 := None)\<rparr>))"

lemma cancel_order_eq:
  assumes wf: "book_wf b" and loc: "located b o1 sd pre lv post xs ys"
  shows "cancel_order (order_id o1) b = (Inr (Some o1), without_order sd pre lv post xs ys o1 b)"
proof -
  let ?lv' = "lv\<lparr>l_orders := xs @ ys, total_quantity := total_quantity lv - remaining_quantity o1\<rparr>"
  have "o1 \<in> set (side_orders sd b)"
    using loc by (simp add: located_def side_orders_def)
  then have known: "order_id o1 \<in> order_ids b"
    using wf by (intro in_index)
  have rm: "level_remove_order lv (order_id o1) = (Some o1, ?lv')"
    using loc pop_order_split [of xs o1 ys] by (simp add: level_remove_order_def located_def)
  have new: "?lv' \<notin> set pre"
    using loc by (auto simp: located_def)
  show ?thesis
    using loc known rm new
    by (cases sd) (auto simp: cancel_order_def located_def find_level put_level_split Let_def
        without_order_def level_is_empty_def set_level_list_def set_side_def remove1_middle)
qed

lemma without_order_orders:
  assumes "located b o1 sd pre lv post xs ys"
  shows "side_orders sd (without_order sd pre lv post xs ys o1 b) =
      filter (\<lambda>x. order_id x \<noteq> order_id o1) (side_orders sd b)"
    and "side_orders (flip sd) (without_order sd pre lv post xs ys o1 b) =
      filter (\<lambda>x. order_id x \<noteq> order_id o1) (side_orders (flip sd) b)"
  using assms
  by (auto simp: without_order_def Let_def located_def side_orders_def filter_id_conv_all)

lemma without_order_wf:
  assumes wf: "book_wf b" and loc: "located b o1 sd pre lv post xs ys"
  shows "book_wf (without_order sd pre lv post xs ys o1 b)"
proof (rule book_wf_remove [OF wf, of sd _ o1])
  let ?b' = "without_order sd pre lv post xs ys o1 b"
  have side: "book_side sd b = pre @ lv # post" and queue: "l_orders lv = xs @ o1 # ys"
    using loc by (simp_all add: located_def)
  have sok: "side_ok sd (book_instrument b) (pre @ lv # post)"
    using book_wf_side [OF wf, of sd] side by simp
  then show "side_ok sd (book_instrument b) (book_side sd ?b')"
    using queue
    by (auto simp: without_order_def Let_def side_ok_def ladder_sorted_def sorted_wrt_append level_ok_def)
  show "mset (side_orders sd b) = add_mset o1 (mset (side_orders sd ?b'))"
    using side queue by (auto simp: without_order_def Let_def side_orders_def)
qed (use wf loc in \<open>auto simp: without_order_def Let_def located_def book_wf_def\<close>)

lemma cancel_order_cases:
  assumes "book_wf b"
  shows "cancel_order oid b = (Inr None, b) \<and> oid \<notin> order_ids b \<or>
    (\<exists>o1 sd pre lv post xs ys. order_id o1 = oid \<and> located b o1 sd pre lv post xs ys \<and>
       cancel_order oid b = (Inr (Some o1), without_order sd pre lv post xs ys o1 b))"
proof (cases "oid \<in> order_ids b")
  case True
  with locate_id [OF assms True] locate [OF assms] cancel_order_eq [OF assms] show ?thesis by metis
next
  case False
  with unknown_id [OF assms False] show ?thesis by (simp add: cancel_order_def)
qed

lemma cancel_order_facts:
  assumes "book_wf b"
  shows "case cancel_order oid b of (r, b') \<Rightarrow>
    book_wf b' \<and> order_ids b' = order_ids b - {oid} \<and> trades b' = trades b \<and>
    (\<forall>sd. side_orders sd b' = filter (\<lambda>x. order_id x \<noteq> oid) (side_orders sd b)) \<and>
    (if oid \<in> order_ids b then \<exists>o1 \<in> set (resting b). order_id o1 = oid \<and> r = Inr (Some o1)
     else r = Inr None \<and> b' = b)"
  using cancel_order_cases [OF assms, of oid]
proof (elim disjE exE conjE)
  assume none: "cancel_order oid b = (Inr None, b)" "oid \<notin> order_ids b"
  then have "oid \<notin> order_id ` set (side_orders sd b)" for sd
    using assms by (simp add: book_wf_def index_ok_def set_resting [of b sd] image_Un)
  then have "\<forall>x \<in> set (side_orders sd b). order_id x \<noteq> oid" for sd
    by (metis imageI)
  with none assms show ?thesis by (auto simp: filter_id_conv_all)
next
  fix o1 sd pre lv post xs ys
  assume o1: "order_id o1 = oid" and loc: "located b o1 sd pre lv post xs ys"
    and res: "cancel_order oid b = (Inr (Some o1), without_order sd pre lv post xs ys o1 b)"
  let ?b' = "without_order sd pre lv post xs ys o1 b"
  have mem: "o1 \<in> set (side_orders sd b)"
    using loc by (simp add: located_def side_orders_def)
  then have known: "o1 \<in> set (resting b)" "oid \<in> order_ids b"
    using in_index(1) [OF assms mem] o1 by (simp_all add: set_resting [of b sd])
  have "side_orders sd' ?b' = filter (\<lambda>x. order_id x \<noteq> oid) (side_orders sd' b)" for sd'
    using without_order_orders [OF loc] o1 by (cases "sd' = sd") (simp_all add: other_side)
  with res known o1 without_order_wf [OF assms loc] show ?thesis
    by (auto simp: without_order_def Let_def)
qed

lemma get_order_iff:
  assumes "book_wf b"
  shows "get_order b oid = Some o1 \<longleftrightarrow> o1 \<in> set (resting b) \<and> order_id o1 = oid"
proof (cases "oid \<in> order_ids b")
  case True
  then obtain x sd where x: "order_id x = oid" "x \<in> set (side_orders sd b)"
    using locate_id [OF assms] by metis
  from locate [OF assms x(2)] obtain pre lv post xs ys where
    loc: "located b x sd pre lv post xs ys" by blast
  then have "filter (\<lambda>l. l_price l = l_price lv) pre = []" "filter (\<lambda>l. l_price l = l_price lv) post = []"
    by (auto simp: located_def filter_empty_conv)
  then have "get_order b oid = find (\<lambda>y. order_id y = oid) (xs @ x # ys)"
    using loc x(1) by (simp add: get_order_def located_def)
  also have "\<dots> = Some x"
    using loc x(1) by (intro find_split) (auto simp: located_def list_ex_iff)
  finally have found: "get_order b oid = Some x" .
  have "x \<in> set (resting b)" using x(2) by (simp add: set_resting [of b sd])
  moreover have "inj_on order_id (set (resting b))"
    using assms by (simp add: book_wf_def index_ok_def distinct_map)
  ultimately show ?thesis using found x(1) by (auto dest: inj_onD)
next
  case False
  with assms have "oid \<notin> order_id ` set (resting b)" by (simp add: book_wf_def index_ok_def)
  then have "\<forall>x \<in> set (resting b). order_id x \<noteq> oid" by (metis imageI)
  with unknown_id [OF assms False] show ?thesis by (auto simp: get_order_def)
qed

section \<open>The level representation is canonical\<close>

lemma side_ok_head:
  assumes "side_ok sd iid (lv # lvs)"
  shows "l_orders lv = takeWhile (\<lambda>x. price x = Some (l_price lv)) (all_orders (lv # lvs))"
    and "all_orders lvs = dropWhile (\<lambda>x. price x = Some (l_price lv)) (all_orders (lv # lvs))"
    and "\<exists>x xs. l_orders lv = x # xs \<and> price x = Some (l_price lv)"
proof -
  let ?P = "\<lambda>x. price x = Some (l_price lv)"
  have here: "\<forall>x \<in> set (l_orders lv). ?P x"
    using assms by (auto simp: level_ok_def rests_ok_def)
  have later: "\<forall>x \<in> set (all_orders lvs). \<not> ?P x"
    using assms by (fastforce simp: set_all_orders side_ok_def level_ok_def rests_ok_def)
  then have "takeWhile ?P (all_orders lvs) = []" "dropWhile ?P (all_orders lvs) = all_orders lvs"
    by (cases "all_orders lvs"; simp)+
  with here show "l_orders lv = takeWhile ?P (all_orders (lv # lvs))"
    "all_orders lvs = dropWhile ?P (all_orders (lv # lvs))"
    by (simp_all add: takeWhile_append2 dropWhile_append2)
  show "\<exists>x xs. l_orders lv = x # xs \<and> ?P x"
    using assms here by (cases "l_orders lv") (auto simp: level_ok_def)
qed

text \<open>A well-formed side is determined by its orders: one level per price, exact totals.\<close>

lemma side_ok_canonical:
  assumes "side_ok sd iid lvs" and "side_ok sd iid lvs'" and "all_orders lvs = all_orders lvs'"
  shows "lvs = lvs'"
  using assms
proof (induction lvs arbitrary: lvs')
  case Nil
  then show ?case by (cases lvs') (auto simp: level_ok_def)
next
  case (Cons lv lvs)
  note head = side_ok_head [OF Cons.prems(1)]
  show ?case
  proof (cases lvs')
    case Nil
    with Cons.prems(3) head(3) show ?thesis by auto
  next
    case (Cons lv' rest)
    note head' = side_ok_head [OF Cons.prems(2) [unfolded Cons]]
    have p: "l_price lv = l_price lv'"
      using head(3) head'(3) Cons.prems(3) Cons by auto
    have eq: "all_orders (lv # lvs) = all_orders (lv' # rest)"
      using Cons.prems(3) Cons by (simp only:)
    have q: "l_orders lv = l_orders lv'" "all_orders lvs = all_orders rest"
      using head(1) head'(1) head(2) head'(2) unfolding eq p
      by - (erule trans, erule sym)+
    have "level_ok sd iid lv" "level_ok sd iid lv'"
      using Cons.prems(1,2) Cons by simp_all
    with q(1) have "total_quantity lv = total_quantity lv'"
      by (simp add: level_ok_def)
    with p q(1) have "lv = lv'" by (intro price_level.equality) simp_all
    moreover have "lvs = rest"
      using Cons.IH [of rest] Cons.prems(1,2) Cons q(2) by simp
    ultimately show ?thesis using Cons by simp
  qed
qed

lemma book_eqI:
  fixes b b' :: order_book
  assumes "book_instrument b = book_instrument b'" and "bids b = bids b'" and "asks b = asks b'"
    and "order_price_map b = order_price_map b'" and "order_ids b = order_ids b'"
    and "trades b = trades b'"
  shows "b = b'"
  using assms by (intro order_book.equality) simp_all

text \<open>The id index is determined by the sides.\<close>

lemma book_index_determined:
  assumes "book_wf b" and "book_wf b'" and "\<And>sd. side_orders sd b = side_orders sd b'"
  shows "order_price_map b = order_price_map b'" and "order_ids b = order_ids b'"
proof -
  have r: "resting b = resting b'" using assms(3) by (simp add: resting_def)
  with assms(1,2) show "order_ids b = order_ids b'" by (simp add: book_wf_def index_ok_def)
  have "order_price_map b oid = Some p \<longleftrightarrow> order_price_map b' oid = Some p" for oid p
    using assms(1,2) r by (simp add: book_wf_def index_ok_def)
  then show "order_price_map b = order_price_map b'"
    by (intro ext) (metis not_None_eq)
qed

lemma filter_spec_rest:
  "\<forall>x \<in> set xs. order_id x \<noteq> order_id o1 \<Longrightarrow>
   filter (\<lambda>x. order_id x \<noteq> order_id o1) (spec_rest o1 xs) = xs"
proof -
  assume others: "\<forall>x \<in> set xs. order_id x \<noteq> order_id o1"
  have "filter P (takeWhile Q xs @ o1 # dropWhile Q xs) = filter P xs" if "\<not> P o1" for P Q
    using that by (induction xs) auto
  then show ?thesis using others by (simp add: spec_rest_def Let_def filter_id_conv_all)
qed

lemma spec_match_no_trades:
  assumes "spec_match iid o1 xs = ([], o2, opp)"
  shows "o2 = o1 \<and> opp = xs"
proof -
  have "ts = [] \<longrightarrow> o2 = o1 \<and> opp = xs" if "spec_match iid o1 xs = (ts, o2, opp)" for ts
    using that by (induction rule: spec_match_induct) auto
  with assms show ?thesis by blast
qed

section \<open>The trade history\<close>

lemma push_trades_last:
  "push_trades ts (last_n max_recent_trades hist) = last_n max_recent_trades (hist @ ts)"
proof (induction ts arbitrary: hist)
  case (Cons t ts)
  have "push_bounded max_recent_trades t (last_n max_recent_trades hist) =
      last_n max_recent_trades (hist @ [t])"
    by (simp add: push_bounded_last_n last_n_append)
  with Cons.IH [of "hist @ [t]"] show ?case by simp
qed simp

section \<open>Quotes\<close>

text \<open>The best level of a side: the extreme price, with everything that rests at it.\<close>

definition quote_ok :: "order_side \<Rightarrow> order list \<Rightarrow> (rat \<times> rat) option \<Rightarrow> bool" where
  "quote_ok sd xs q \<longleftrightarrow>
     (case q of None \<Rightarrow> xs = []
      | Some (p, v) \<Rightarrow>
          (\<exists>x \<in> set xs. price x = Some p) \<and>
          (\<forall>x \<in> set xs. key_of sd p \<le> key_of sd (the (price x))) \<and>
          v = total_remaining (filter (\<lambda>x. price x = Some p) xs) \<and> 0 < v)"

definition side_quote :: "price_level list \<Rightarrow> (rat \<times> rat) option" where
  "side_quote lvs = (case lvs of [] \<Rightarrow> None | lv # _ \<Rightarrow> Some (l_price lv, total_quantity lv))"

lemma side_quote_ok:
  assumes "side_ok sd iid lvs"
  shows "quote_ok sd (all_orders lvs) (side_quote lvs)"
proof (cases lvs)
  case Nil
  then show ?thesis by (simp add: quote_ok_def side_quote_def)
next
  case (Cons lv rest)
  with assms have lv: "level_ok sd iid lv" and rest: "side_ok sd iid rest"
    and less: "\<forall>l \<in> set rest. key_of sd (l_price lv) < key_of sd (l_price l)" by simp_all
  have here: "\<forall>x \<in> set (l_orders lv). price x = Some (l_price lv) \<and> 0 < remaining_quantity x"
    using lv by (auto simp: level_ok_def rests_ok_def)
  have later: "\<forall>x \<in> set (all_orders rest). key_of sd (l_price lv) < key_of sd (the (price x))"
    using rest less by (fastforce simp: set_all_orders side_ok_def level_ok_def rests_ok_def)
  have "filter (\<lambda>x. price x = Some (l_price lv)) (all_orders rest) = []"
    using later by (auto simp: filter_empty_conv)
  moreover obtain x xs where x: "l_orders lv = x # xs"
    using lv by (cases "l_orders lv") (auto simp: level_ok_def)
  moreover have "0 \<le> total_remaining xs"
    using here x by (intro sum_list_nonneg) (auto intro: less_imp_le)
  then have "0 < total_remaining (l_orders lv)"
    using here x by (simp add: add_pos_nonneg)
  ultimately show ?thesis
    using lv here later Cons
    by (auto simp: quote_ok_def side_quote_def level_ok_def filter_id_conv_all intro: less_imp_le)
qed

end
