(* ===== verification/Book_Properties.thy ===== *)
theory Book_Properties
  imports Book_Theorems
begin

text \<open>
  The properties of the order book, each with a witness on a small concrete book: one ask
  of 5 at 127 and one of 10 at 128 by two market makers, one bid of 4 at 126.
\<close>

section \<open>A concrete book\<close>

definition demo_order :: "string \<Rightarrow> order_side \<Rightarrow> rat \<Rightarrow> rat option \<Rightarrow> string \<Rightarrow> order" where
  "demo_order oid sd q p trader =
     \<lparr>instrument_id = ''SPX'', side = sd, quantity = q, trader_id = trader, price = p,
      order_id = oid, order_type = (if p = None then MARKET else LIMIT), client_order_id = None,
      remaining_quantity = q\<rparr>"

definition demo_book :: order_book where
  "demo_book =
     \<lparr>book_instrument = ''SPX'',
      bids = [\<lparr>l_price = 126, l_orders = [demo_order ''b1'' BUY 4 (Some 126) ''T3''], total_quantity = 4\<rparr>],
      asks = [\<lparr>l_price = 127, l_orders = [demo_order ''a1'' SELL 5 (Some 127) ''T1''], total_quantity = 5\<rparr>,
              \<lparr>l_price = 128, l_orders = [demo_order ''a2'' SELL 10 (Some 128) ''T2''], total_quantity = 10\<rparr>],
      order_price_map = [''b1'' \<mapsto> 126, ''a1'' \<mapsto> 127, ''a2'' \<mapsto> 128],
      order_ids = {''b1'', ''a1'', ''a2''}, trades = []\<rparr>"

definition demo_buy :: order where
  "demo_buy = demo_order ''x'' BUY 7 (Some 128) ''T4''"

lemma demo_order_simps [simp]:
  "instrument_id (demo_order oid sd q p trader) = ''SPX''"
  "side (demo_order oid sd q p trader) = sd"
  "quantity (demo_order oid sd q p trader) = q"
  "trader_id (demo_order oid sd q p trader) = trader"
  "price (demo_order oid sd q p trader) = p"
  "order_id (demo_order oid sd q p trader) = oid"
  "order_type (demo_order oid sd q p trader) = (if p = None then MARKET else LIMIT)"
  "remaining_quantity (demo_order oid sd q p trader) = q"
  by (simp_all add: demo_order_def)

lemma demo_order_ok:
  "0 < q \<Longrightarrow> q \<in> \<int> \<Longrightarrow> 0 < p \<Longrightarrow> p * 100 \<in> \<int> \<Longrightarrow> order_ok (demo_order oid sd q (Some p) trader)"
  by (simp add: order_ok_def)

lemma demo_book_simps [simp]:
  "book_instrument demo_book = ''SPX''"
  "order_ids demo_book = {''b1'', ''a1'', ''a2''}"
  "side_orders BUY demo_book = [demo_order ''b1'' BUY 4 (Some 126) ''T3'']"
  "side_orders SELL demo_book =
     [demo_order ''a1'' SELL 5 (Some 127) ''T1'', demo_order ''a2'' SELL 10 (Some 128) ''T2'']"
  by (simp_all add: demo_book_def side_orders_def book_side_def)

lemma demo_book_index: "order_price_map demo_book = [''b1'' \<mapsto> 126, ''a1'' \<mapsto> 127, ''a2'' \<mapsto> 128]"
  by (simp add: demo_book_def)

lemma demo_book_wf: "book_wf demo_book"
proof -
  have "index_ok demo_book"
    unfolding index_ok_def resting_def by (auto simp: demo_book_index)
  moreover have "side_ok BUY ''SPX'' (bids demo_book)" "side_ok SELL ''SPX'' (asks demo_book)"
    by (auto simp: demo_book_def level_ok_def rests_ok_def intro: demo_order_ok)
  ultimately show ?thesis
    by (simp add: book_wf_def uncrossed_def) (simp add: demo_book_def max_recent_trades_def)
qed

lemma demo_buy_addable: "addable demo_buy demo_book"
  by (simp add: addable_def demo_buy_def demo_order_ok)

lemma demo_match_trades:
  "spec_match ''SPX'' demo_buy (side_orders SELL demo_book) = (ts, o2, opp) \<Longrightarrow> ts \<noteq> []"
  by (auto simp: demo_buy_def is_filled_def beyond_limit_def is_buy_def is_sell_def Let_def
      split: prod.splits if_splits)

section \<open>Refinement and reachable books\<close>

text \<open>
  C1: on every well-formed book and for every valid order with a fresh id, \<open>add_order\<close>
  returns without an exception, keeps the book well formed (sorted ladders, exact level
  totals, consistent id index, uncrossed) and does to the flattened sides what the
  price-time priority specification does.
\<close>

theorem add_order_implements_spec:
  assumes "book_wf b" and "addable o1 b"
  shows "\<exists>ts o2 b'. add_order o1 b = (None, ts, o2, b') \<and> book_wf b' \<and>
    spec_add (book_instrument b) o1 (side_orders (side o1) b) (side_orders (flip (side o1)) b) =
      (ts, o2, side_orders (side o1) b', side_orders (flip (side o1)) b')"
  using add_order_refines [OF assms] by (auto simp: add_refines_def)

theorem add_order_implements_spec_witness:
  "\<exists>ts o2 b'. add_order demo_buy demo_book = (None, ts, o2, b') \<and> book_wf b' \<and>
    spec_add ''SPX'' demo_buy (side_orders BUY demo_book) (side_orders SELL demo_book) =
      (ts, o2, side_orders BUY b', side_orders SELL b')"
  using add_order_implements_spec [OF demo_book_wf demo_buy_addable] by (simp add: demo_buy_def)

text \<open>
  The books a program can reach: an empty book, any \<open>add_order\<close> of an order the constructor
  accepts, any \<open>cancel_order\<close>, and the batch engine's entries in the trade history.
\<close>

inductive reachable_book :: "string \<Rightarrow> order_book \<Rightarrow> bool" for iid where
  start: "reachable_book iid (new_book iid)"
| add: "reachable_book iid b \<Longrightarrow> order_ok o1 \<Longrightarrow> add_order o1 b = (e, ts, o2, b') \<Longrightarrow>
    reachable_book iid b'"
| cancel: "reachable_book iid b \<Longrightarrow> cancel_order oid b = (r, b') \<Longrightarrow> reachable_book iid b'"
| history: "reachable_book iid b \<Longrightarrow> reachable_book iid (record_book_trade t b)"

lemma add_order_rejects:
  assumes "instrument_id o1 \<noteq> book_instrument b \<or> order_id o1 \<in> order_ids b"
  shows "\<exists>e. add_order o1 b = (Some (ValueError e), [], o1, b)"
  using assms by (auto simp: add_order_def)

lemma cancel_order_wf:
  assumes "book_wf b" and "cancel_order oid b = (r, b')"
  shows "book_wf b' \<and> book_instrument b' = book_instrument b"
  using cancel_order_cases [OF assms(1), of oid] assms without_order_wf [OF assms(1)]
  by (auto simp: without_order_def Let_def)

lemma reachable_book_wf:
  assumes "reachable_book iid b"
  shows "book_wf b \<and> book_instrument b = iid"
  using assms
proof (induction rule: reachable_book.induct)
  case start
  show ?case using book_wf_new by (simp add: new_book_def)
next
  case (add b o1 e ts o2 b')
  show ?case
  proof (cases "addable o1 b")
    case True
    with add add_order_refines [of b o1] show ?thesis by (auto simp: add_refines_def)
  next
    case False
    with add add_order_rejects [of o1 b] show ?thesis by (auto simp: addable_def)
  qed
next
  case (cancel b oid r b')
  then show ?case using cancel_order_wf by blast
next
  case (history b t)
  then show ?case using book_wf_record_trade by simp
qed

text \<open>
  C8: every reachable book is well formed; in particular it is never crossed, and \<open>add_order\<close>
  on it raises only the two ValueErrors of its own validation, leaving book and order as
  they were: no IndexError, KeyError or AssertionError can escape the matching loop, the
  index updates or the insertion.
\<close>

theorem reachable_book_safe:
  assumes "reachable_book iid b" and "order_ok o1"
  shows "book_wf b \<and>
    (case add_order o1 b of (e, ts, o2, b') \<Rightarrow>
       (e = None \<longleftrightarrow> instrument_id o1 = iid \<and> order_id o1 \<notin> order_ids b) \<and>
       (e \<noteq> None \<longrightarrow> (\<exists>m. e = Some (ValueError m)) \<and> ts = [] \<and> o2 = o1 \<and> b' = b))"
proof -
  from reachable_book_wf [OF assms(1)] have wf: "book_wf b" "book_instrument b = iid" by auto
  show ?thesis
  proof (cases "addable o1 b")
    case True
    with add_order_refines [OF wf(1) True] wf show ?thesis
      by (auto simp: add_refines_def addable_def)
  next
    case False
    with assms(2) add_order_rejects [of o1 b] wf show ?thesis by (auto simp: addable_def)
  qed
qed

theorem reachable_book_safe_witness:
  "book_wf (new_book ''SPX'') \<and>
    (case add_order demo_buy (new_book ''SPX'') of (e, ts, o2, b') \<Rightarrow>
       (e = None \<longleftrightarrow> instrument_id demo_buy = ''SPX'' \<and> order_id demo_buy \<notin> order_ids (new_book ''SPX'')) \<and>
       (e \<noteq> None \<longrightarrow> (\<exists>m. e = Some (ValueError m)) \<and> ts = [] \<and> o2 = demo_buy \<and> b' = new_book ''SPX''))"
  using reachable_book_safe [OF reachable_book.start, of demo_buy "''SPX''"]
  by (simp add: demo_buy_def demo_order_ok)

section \<open>Matching\<close>

text \<open>
  quantity is conserved. What the incoming order loses is the sum of its trades, which
  is what the opposite side of the book loses; its own side gains exactly the remainder
  that comes to rest.
\<close>

theorem add_order_conserves:
  assumes "book_wf b" and "addable o1 b" and "add_order o1 b = (e, ts, o2, b')"
  shows "remaining_quantity o1 = remaining_quantity o2 + total_traded ts \<and>
    total_remaining (side_orders (flip (side o1)) b) =
      total_remaining (side_orders (flip (side o1)) b') + total_traded ts \<and>
    total_remaining (side_orders (side o1) b') = total_remaining (side_orders (side o1) b) +
      (if is_limit_order o1 then remaining_quantity o2 else 0)"
proof -
  from add_order_spec [OF assms] obtain opp where
    sm: "spec_match (book_instrument b) o1 (side_orders (flip (side o1)) b) = (ts, o2, opp)"
    and sides: "side_orders (flip (side o1)) b' = opp" "side_orders (side o1) b' =
      (if \<not> is_filled o2 \<and> is_limit_order o2 then spec_rest o2 (side_orders (side o1) b)
       else side_orders (side o1) b)" by metis
  have "is_limit_order o2 = is_limit_order o1"
    using spec_match_fixed [OF sm] by (simp add: is_limit_order_def)
  with spec_match_conserves [OF sm] sides show ?thesis
    by (simp add: total_spec_rest is_filled_def)
qed

theorem add_order_conserves_witness:
  "\<exists>e ts o2 b'. add_order demo_buy demo_book = (e, ts, o2, b') \<and>
    remaining_quantity demo_buy = remaining_quantity o2 + total_traded ts \<and>
    total_remaining (side_orders SELL demo_book) = total_remaining (side_orders SELL b') + total_traded ts \<and>
    total_remaining (side_orders BUY b') = total_remaining (side_orders BUY demo_book) + remaining_quantity o2"
proof -
  obtain e ts o2 b' where r: "add_order demo_buy demo_book = (e, ts, o2, b')" by (metis surj_pair)
  with add_order_conserves [OF demo_book_wf demo_buy_addable r] show ?thesis
    by (auto simp: demo_buy_def is_limit_order_def)
qed

text \<open>
  C21: price protection. Every trade of a call is a valid trade on the book's instrument,
  names the incoming order as its aggressor, and is at a price that order accepts: never
  above a buy limit, never below a sell limit.
\<close>

theorem add_order_price_protected:
  assumes "book_wf b" and "addable o1 b" and "add_order o1 b = (e, ts, o2, b')" and "t \<in> set ts"
  shows "0 < t_quantity t \<and> t_instrument_id t = book_instrument b \<and> initiated_by o1 t \<and>
    (case price o1 of None \<Rightarrow> True | Some p \<Rightarrow> if is_buy o1 then t_price t \<le> p else p \<le> t_price t)"
proof -
  from add_order_spec [OF assms(1-3)] obtain opp where
    sm: "spec_match (book_instrument b) o1 (side_orders (flip (side o1)) b) = (ts, o2, opp)" by metis
  have ok: "order_ok o1" using assms(2) by (simp add: addable_def)
  then have "0 \<le> remaining_quantity o1" by (simp add: order_ok_def)
  with spec_match_trades [OF sm] side_orders_positive [OF assms(1)] assms(4)
  have t: "\<not> beyond_limit o1 (t_price t)" "0 < t_quantity t" "t_instrument_id t = book_instrument b"
    "initiated_by o1 t" by blast+
  have "case price o1 of None \<Rightarrow> True | Some p \<Rightarrow> if is_buy o1 then t_price t \<le> p else p \<le> t_price t"
    using t(1) ok by (cases "side o1")
      (auto simp: beyond_limit_def order_ok_limit_iff is_buy_def is_sell_def split: option.splits)
  with t show ?thesis by blast
qed

theorem add_order_price_protected_witness:
  "\<exists>e t ts o2 b'. add_order demo_buy demo_book = (e, t # ts, o2, b') \<and> t_price t \<le> 128 \<and> 0 < t_quantity t"
proof -
  obtain e ts o2 b' where r: "add_order demo_buy demo_book = (e, ts, o2, b')" by (metis surj_pair)
  from add_order_spec [OF demo_book_wf demo_buy_addable r] obtain opp where
    "spec_match ''SPX'' demo_buy (side_orders SELL demo_book) = (ts, o2, opp)"
    by (auto simp: demo_buy_def)
  then have "ts \<noteq> []" by (rule demo_match_trades)
  then obtain t ts' where ts: "ts = t # ts'" by (cases ts) auto
  with add_order_price_protected [OF demo_book_wf demo_buy_addable r, of t] r show ?thesis
    by (auto simp: demo_buy_def is_buy_def)
qed

text \<open>
  C22: strict price-time priority. The side the order matches is sorted by price priority;
  the trades take its orders from the head, in order and each at its own price, and every
  order taken is exhausted before the next, except that the last may keep a remainder when
  the incoming order is satisfied.
\<close>

theorem add_order_priority:
  assumes "book_wf b" and "addable o1 b" and "add_order o1 b = (e, ts, o2, b')"
  shows "priority_sorted (flip (side o1)) (side_orders (flip (side o1)) b) \<and>
    map (\<lambda>t. (maker_order_id o1 t, Some (t_price t))) ts =
      map (\<lambda>x. (order_id x, price x)) (take (length ts) (side_orders (flip (side o1)) b)) \<and>
    consumes ts (side_orders (flip (side o1)) b) (side_orders (flip (side o1)) b')"
proof -
  from add_order_spec [OF assms] obtain opp where
    sm: "spec_match (book_instrument b) o1 (side_orders (flip (side o1)) b) = (ts, o2, opp)"
    and opp: "side_orders (flip (side o1)) b' = opp" by metis
  have "\<forall>x \<in> set (side_orders (flip (side o1)) b). price x \<noteq> None"
    using side_orders_positive [OF assms(1)] by blast
  from spec_match_prefix [OF sm this] opp book_priority [OF assms(1)] show ?thesis by simp
qed

theorem add_order_priority_witness:
  "\<exists>e ts o2 b'. add_order demo_buy demo_book = (e, ts, o2, b') \<and>
    map (\<lambda>t. (maker_order_id demo_buy t, Some (t_price t))) ts =
      map (\<lambda>x. (order_id x, price x)) (take (length ts) (side_orders SELL demo_book)) \<and>
    consumes ts (side_orders SELL demo_book) (side_orders SELL b')"
proof -
  obtain e ts o2 b' where r: "add_order demo_buy demo_book = (e, ts, o2, b')" by (metis surj_pair)
  with add_order_priority [OF demo_book_wf demo_buy_addable r] show ?thesis
    by (auto simp: demo_buy_def)
qed

text \<open>
  what comes to rest. After the call the order is on the book exactly when it is a
  limit order with quantity left; a market order never rests, filled or not. It queues
  behind every resting order at its price or better, and an unfilled order stops only at
  an opposite side that is empty or beyond its limit.
\<close>

theorem add_order_rests:
  assumes "book_wf b" and "addable o1 b" and "add_order o1 b = (e, ts, o2, b')"
  shows "(order_id o1 \<in> order_ids b' \<longleftrightarrow> is_limit_order o1 \<and> \<not> is_filled o2) \<and>
    (order_id o1 \<in> order_ids b' \<longrightarrow> side_orders (side o1) b' = spec_rest o2 (side_orders (side o1) b)) \<and>
    (\<not> is_filled o2 \<longrightarrow> side_orders (flip (side o1)) b' = [] \<or>
      beyond_limit o1 (the (price (hd (side_orders (flip (side o1)) b')))))"
proof -
  from add_order_spec [OF assms] obtain opp where wf': "book_wf b'"
    and sm: "spec_match (book_instrument b) o1 (side_orders (flip (side o1)) b) = (ts, o2, opp)"
    and sides: "side_orders (flip (side o1)) b' = opp" "side_orders (side o1) b' =
      (if \<not> is_filled o2 \<and> is_limit_order o2 then spec_rest o2 (side_orders (side o1) b)
       else side_orders (side o1) b)" by metis
  note fixd = spec_match_fixed [OF sm]
  have lim: "is_limit_order o2 = is_limit_order o1" using fixd by (simp add: is_limit_order_def)
  have new: "order_id o1 \<notin> order_ids b" using assms(2) by (simp add: addable_def)
  have ids: "order_ids b' = order_id ` set (side_orders (side o1) b') \<union> order_id ` set opp"
    using wf' sides by (simp add: book_wf_def index_ok_def set_resting [of b' "side o1"] image_Un)
  have "order_id ` set (side_orders (side o1) b) \<union> order_id ` set (side_orders (flip (side o1)) b) = order_ids b"
    using assms(1) by (simp add: book_wf_def index_ok_def set_resting [of b "side o1"] image_Un)
  with new spec_match_ids [OF sm]
  have "order_id o1 \<notin> order_id ` set (side_orders (side o1) b)" "order_id o1 \<notin> order_id ` set opp"
    by blast+
  with ids sides fixd have "order_id o1 \<in> order_ids b' \<longleftrightarrow> is_limit_order o1 \<and> \<not> is_filled o2"
    by (simp add: lim set_spec_rest)
  with sides lim spec_match_stops [OF sm] spec_match_beyond [OF sm] show ?thesis by auto
qed

theorem add_order_rests_witness:
  "\<exists>e ts o2 b'. add_order demo_buy demo_book = (e, ts, o2, b') \<and>
    (''x'' \<in> order_ids b' \<longleftrightarrow> is_limit_order demo_buy \<and> \<not> is_filled o2)"
proof -
  obtain e ts o2 b' where r: "add_order demo_buy demo_book = (e, ts, o2, b')" by (metis surj_pair)
  with add_order_rests [OF demo_book_wf demo_buy_addable r] show ?thesis
    by (auto simp: demo_buy_def)
qed

section \<open>Cancellation and lookup\<close>

text \<open>
  \<open>cancel_order\<close> removes exactly the named order. For a resting id it returns that
  order, keeps the book well formed and leaves every other order in its place; for any
  other id it returns None and changes nothing. It never raises.
\<close>

theorem cancel_order_exact:
  assumes "book_wf b"
  shows "case cancel_order oid b of (r, b') \<Rightarrow>
    book_wf b' \<and> order_ids b' = order_ids b - {oid} \<and> trades b' = trades b \<and>
    (\<forall>sd. side_orders sd b' = filter (\<lambda>x. order_id x \<noteq> oid) (side_orders sd b)) \<and>
    (if oid \<in> order_ids b then \<exists>o1 \<in> set (resting b). order_id o1 = oid \<and> r = Inr (Some o1)
     else r = Inr None \<and> b' = b)"
  by (rule cancel_order_facts [OF assms])

theorem cancel_order_exact_witness:
  "case cancel_order ''a1'' demo_book of (r, b') \<Rightarrow>
    book_wf b' \<and> order_ids b' = {''b1'', ''a2''} \<and>
    side_orders SELL b' = [demo_order ''a2'' SELL 10 (Some 128) ''T2''] \<and>
    r = Inr (Some (demo_order ''a1'' SELL 5 (Some 127) ''T1''))"
  using cancel_order_exact [OF demo_book_wf, of "''a1''"]
  by (auto simp: resting_def split: prod.splits)

text \<open>
  \<open>get_order\<close> finds exactly the resting orders, on either side, although it chooses the
  side by testing whether the order's price is a bid price: on an uncrossed book no price
  is on both sides.
\<close>

theorem get_order_exact:
  assumes "book_wf b"
  shows "get_order b oid = Some o1 \<longleftrightarrow> o1 \<in> set (resting b) \<and> order_id o1 = oid"
  by (rule get_order_iff [OF assms])

theorem get_order_exact_witness:
  "get_order demo_book ''a2'' = Some (demo_order ''a2'' SELL 10 (Some 128) ''T2'')"
  using get_order_exact [OF demo_book_wf, of "''a2''" "demo_order ''a2'' SELL 10 (Some 128) ''T2''"]
  by (simp add: resting_def)

text \<open>
  round trip. A limit order that trades with nothing and is then cancelled leaves the
  book exactly as it was, levels, totals, index and history included, and \<open>cancel_order\<close>
  returns the order as it was submitted.
\<close>

theorem add_cancel_roundtrip:
  assumes wf: "book_wf b" and ad: "addable o1 b" and lim: "is_limit_order o1" and "\<not> is_filled o1"
    and run: "add_order o1 b = (e, [], o2, b')"
  shows "cancel_order (order_id o1) b' = (Inr (Some o1), b)"
proof -
  from add_order_spec [OF wf ad run] obtain opp where wf': "book_wf b'"
    and sm: "spec_match (book_instrument b) o1 (side_orders (flip (side o1)) b) = ([], o2, opp)"
    and opp: "side_orders (flip (side o1)) b' = opp" and own: "side_orders (side o1) b' =
      (if \<not> is_filled o2 \<and> is_limit_order o2 then spec_rest o2 (side_orders (side o1) b)
       else side_orders (side o1) b)"
    and inst: "book_instrument b' = book_instrument b" and hist: "trades b' = push_trades [] (trades b)" by metis
  from spec_match_no_trades [OF sm] have same: "o2 = o1" "opp = side_orders (flip (side o1)) b" by auto
  with own lim assms(4) have own': "side_orders (side o1) b' = spec_rest o1 (side_orders (side o1) b)" by simp
  obtain r b2 where c: "cancel_order (order_id o1) b' = (r, b2)" by fastforce
  have fresh: "\<forall>x \<in> set (side_orders sd b). order_id x \<noteq> order_id o1" for sd
    using ad in_index(1) [OF wf] by (metis addable_def)
  have known: "order_id o1 \<in> order_ids b'"
    using in_index(1) [OF wf', of o1 "side o1"] own' by (simp add: set_spec_rest)
  from cancel_order_exact [OF wf', of "order_id o1"] c known
  have wf2: "book_wf b2" and ids: "order_ids b2 = order_ids b' - {order_id o1}" and tr: "trades b2 = trades b'"
    and so: "\<forall>sd. side_orders sd b2 = filter (\<lambda>x. order_id x \<noteq> order_id o1) (side_orders sd b')"
    and r: "\<exists>x \<in> set (resting b'). order_id x = order_id o1 \<and> r = Inr (Some x)"
    by (auto split: if_splits)
  have restored: "side_orders sd b2 = side_orders sd b" for sd
    using so own' opp same fresh filter_spec_rest [OF fresh [of "side o1"]]
    by (cases "sd = side o1") (simp_all add: other_side filter_id_conv_all)
  have r': "r = Inr (Some o1)"
    using r own' opp same fresh [of "flip (side o1)"] fresh [of "side o1"]
    by (auto simp: set_resting [of b' "side o1"] set_spec_rest)
  have inst2: "book_instrument b2 = book_instrument b"
    using cancel_order_wf [OF wf' c] inst by simp
  have "book_side sd b2 = book_side sd b" for sd
    using book_wf_side [OF wf2, of sd] book_wf_side [OF wf, of sd] restored [of sd] inst2
    by (auto intro: side_ok_canonical simp: side_orders_def)
  then have sides: "bids b2 = bids b" "asks b2 = asks b"
    by (metis book_side_def order_side.case)+
  have "order_price_map b2 = order_price_map b" "order_ids b2 = order_ids b"
    using book_index_determined [OF wf2 wf] restored by simp_all
  with sides inst2 tr hist have "b2 = b" by (intro book_eqI) simp_all
  with c r' show ?thesis by simp
qed

theorem add_cancel_roundtrip_witness:
  "\<exists>b'. add_order (demo_order ''y'' BUY 3 (Some 126) ''T5'') demo_book =
      (None, [], demo_order ''y'' BUY 3 (Some 126) ''T5'', b') \<and>
    cancel_order ''y'' b' = (Inr (Some (demo_order ''y'' BUY 3 (Some 126) ''T5'')), demo_book)"
proof -
  let ?o = "demo_order ''y'' BUY 3 (Some 126) ''T5''"
  have ad: "addable ?o demo_book" by (simp add: addable_def demo_order_ok)
  obtain e ts o2 b' where r: "add_order ?o demo_book = (e, ts, o2, b')" by (metis surj_pair)
  from add_order_spec [OF demo_book_wf ad r] have "e = None" "ts = [] \<and> o2 = ?o"
    by (auto simp: is_filled_def beyond_limit_def is_buy_def is_sell_def is_limit_order_def split: if_splits)
  with r add_cancel_roundtrip [OF demo_book_wf ad] show ?thesis
    by (auto simp: is_limit_order_def is_filled_def)
qed

section \<open>Market data\<close>

text \<open>
  the quotes are exact. \<open>best_bid\<close> is the highest resting bid with the total quantity
  resting at that price, \<open>best_ask\<close> the lowest ask, each None exactly when its side is
  empty, and the best bid is always below the best ask; a depth of one level is the quotes.
\<close>

theorem quotes_exact:
  assumes "book_wf b"
  shows "quote_ok BUY (side_orders BUY b) (best_bid b) \<and> quote_ok SELL (side_orders SELL b) (best_ask b) \<and>
    (\<forall>p v p' v'. best_bid b = Some (p, v) \<and> best_ask b = Some (p', v') \<longrightarrow> p < p') \<and>
    depth_snapshot b 1 = (case best_bid b of None \<Rightarrow> [] | Some q \<Rightarrow> [q],
                          case best_ask b of None \<Rightarrow> [] | Some q \<Rightarrow> [q])"
proof -
  have q: "best_bid b = side_quote (bids b)" "best_ask b = side_quote (asks b)"
    by (simp_all add: best_bid_def best_ask_def side_quote_def)
  have "quote_ok BUY (side_orders BUY b) (best_bid b)" "quote_ok SELL (side_orders SELL b) (best_ask b)"
    using side_quote_ok [OF book_wf_side [OF assms, of BUY]] side_quote_ok [OF book_wf_side [OF assms, of SELL]]
    by (simp_all add: q side_orders_def book_side_def)
  moreover have "p < p'" if "best_bid b = Some (p, v)" "best_ask b = Some (p', v')" for p v p' v'
    using assms that by (auto simp: book_wf_def uncrossed_def best_bid_def best_ask_def split: list.splits)
  moreover have "map (\<lambda>lv. (l_price lv, total_quantity lv)) (slice_to 1 lvs) =
      (case side_quote lvs of None \<Rightarrow> [] | Some q \<Rightarrow> [q])" for lvs
    by (cases lvs) (simp_all add: slice_to_def side_quote_def)
  ultimately show ?thesis by (auto simp: depth_snapshot_def q)
qed

theorem quotes_exact_witness:
  "quote_ok BUY (side_orders BUY demo_book) (best_bid demo_book) \<and>
    quote_ok SELL (side_orders SELL demo_book) (best_ask demo_book) \<and>
    best_bid demo_book = Some (126, 4) \<and> best_ask demo_book = Some (127, 5)"
  using quotes_exact [OF demo_book_wf] by (simp add: best_bid_def best_ask_def demo_book_def)

text \<open>
  the trade history. After a call the book holds the last hundred of the earlier
  trades followed by the call's own, and \<open>get_recent_trades n\<close> for positive \<open>n\<close> returns the
  last \<open>n\<close> of them, oldest first; with \<open>n = 0\<close> the slice \<open>[-0:]\<close> returns the whole history.
\<close>

theorem trade_history:
  assumes "book_wf b" and "addable o1 b" and "add_order o1 b = (e, ts, o2, b')"
  shows "trades b' = last_n max_recent_trades (trades b @ ts) \<and>
    (0 < n \<longrightarrow> get_recent_trades b' (int n) = last_n n (trades b')) \<and>
    get_recent_trades b' 0 = trades b'"
proof -
  have "trades b' = push_trades ts (trades b)"
    using add_order_spec [OF assms] by metis
  moreover have "trades b = last_n max_recent_trades (trades b)"
    using assms(1) by (simp add: book_wf_def last_n_all)
  ultimately have "trades b' = last_n max_recent_trades (trades b @ ts)"
    by (metis push_trades_last)
  then show ?thesis
    by (auto simp: get_recent_trades_def slice_from_def last_n_def)
qed

theorem trade_history_witness:
  "\<exists>e ts o2 b'. add_order demo_buy demo_book = (e, ts, o2, b') \<and>
    trades b' = last_n max_recent_trades ts \<and> get_recent_trades b' (int 1) = last_n 1 (trades b') \<and>
    get_recent_trades b' 0 = trades b'"
proof -
  obtain e ts o2 b' where r: "add_order demo_buy demo_book = (e, ts, o2, b')" by (metis surj_pair)
  have "trades demo_book = []" by (simp add: demo_book_def)
  with r trade_history [OF demo_book_wf demo_buy_addable r, of 1] show ?thesis by auto
qed

end
