(* ===== verification/Matching_Engines.thy ===== *)
theory Matching_Engines
  imports Book_Theorems
begin

text \<open>
  \<open>components/orderbook/matching_engine.py\<close>: the continuous engine, and the batch engine that
  collects orders and matches them in one pass.

  The batch engine shares order objects between its pending lists, its sorted lists, the
  results and the order book. The model passes orders by value and writes the shared state
  back where the code would see it: an order that rests in the book after the auction and
  is then hit by a later order of the same batch is updated by \<open>mirror_fills\<close>, and the final
  states of all touched orders are written to the pending list before the results are
  finalised. Object identity is the order id, which the venue keeps unique.
\<close>

section \<open>The continuous engine\<close>

definition order_status :: "order \<Rightarrow> trade list \<Rightarrow> string" where
  "order_status o1 ts =
     (if is_filled o1 then ''filled'' else if ts \<noteq> [] then ''partially_filled'' else ''new'')"

definition continuous_submit ::
    "order \<Rightarrow> order_book \<Rightarrow> (exn + order_result) \<times> order \<times> order_book" where
  "continuous_submit o1 b =
     (case add_order o1 b of
        (Some e, ts, o2, b') \<Rightarrow> (Inl e, o2, b')
      | (None, ts, o2, b') \<Rightarrow>
          (Inr \<lparr>r_order_id = order_id o2, status = order_status o2 ts, fills = ts,
                r_remaining = remaining_quantity o2, error_code = None, error_message = None\<rparr>,
           o2, b'))"

text \<open>\<open>execute_batch\<close> of the continuous engine has nothing to do; \<open>get_mode\<close> names the engines.\<close>

definition continuous_execute_batch ::
    "(string, order_book) dict \<Rightarrow> (string, (string, order_result) dict) dict \<times> (string, order_book) dict" where
  "continuous_execute_batch books = ([], books)"

definition continuous_mode :: string where
  "continuous_mode = ''continuous''"

definition batch_mode :: string where
  "batch_mode = ''batch''"

section \<open>The batch engine: collecting\<close>

type_synonym pending = "(string, order list) dict"
type_synonym books = "(string, order_book) dict"
type_synonym results = "(string, (string, order_result) dict) dict"

definition pending_for :: "pending \<Rightarrow> string \<Rightarrow> order list" where
  "pending_for p iid = (case map_of p iid of None \<Rightarrow> [] | Some os \<Rightarrow> os)"

definition batch_submit ::
    "pending \<Rightarrow> order \<Rightarrow> order_book \<Rightarrow> (exn + order_result) \<times> pending \<times> order \<times> order_book" where
  "batch_submit p o1 b =
     (let iid = instrument_id o1 in
      (Inr \<lparr>r_order_id = order_id o1, status = ''pending_new'', fills = [],
            r_remaining = quantity o1, error_code = None, error_message = None\<rparr>,
       AList.update iid (pending_for p iid @ [o1]) p, o1, b))"

definition get_pending_count :: "pending \<Rightarrow> string \<Rightarrow> nat" where
  "get_pending_count p iid = length (pending_for p iid)"

section \<open>Sorting with a random tie-break\<close>

text \<open>The tuple key of \<open>sorted\<close>: the price key first, then the random draw.\<close>

datatype auction_key = AKey (price_key: rat) (tie_break: rat)

instantiation auction_key :: linorder
begin

definition less_eq_auction_key :: "auction_key \<Rightarrow> auction_key \<Rightarrow> bool" where
  "less_eq_auction_key a b \<longleftrightarrow>
     price_key a < price_key b \<or> (price_key a = price_key b \<and> tie_break a \<le> tie_break b)"

definition less_auction_key :: "auction_key \<Rightarrow> auction_key \<Rightarrow> bool" where
  "less_auction_key a b \<longleftrightarrow> a \<le> b \<and> \<not> b \<le> (a :: auction_key)"

instance
  by standard (auto simp: less_eq_auction_key_def less_auction_key_def auction_key.expand)

end

text \<open>
  The price part of the key: \<open>-o.price\<close> for a descending sort of a priced order, else
  \<open>o.price or 0\<close>. The draws of \<open>random.random()\<close> are a parameter, one per position.
\<close>

definition auction_price_key :: "bool \<Rightarrow> order \<Rightarrow> rat" where
  "auction_price_key descending o1 =
     (case price o1 of None \<Rightarrow> 0 | Some p \<Rightarrow> if descending then - p else p)"

definition randomize_same_price_orders :: "(nat \<Rightarrow> rat) \<Rightarrow> order list \<Rightarrow> bool \<Rightarrow> order list" where
  "randomize_same_price_orders draw os descending =
     map snd (sort_key fst
       (map (\<lambda>(i, o1). (AKey (auction_price_key descending o1) (draw i), o1)) (enumerate 0 os)))"

section \<open>The crossing loop\<close>

definition create_trade :: "order \<Rightarrow> order \<Rightarrow> rat \<Rightarrow> exn + trade" where
  "create_trade buy sell q =
     (case price sell of
        None \<Rightarrow> Inl (AssertionError (lit ''Sell order price cannot be None in trade''))
      | Some p \<Rightarrow>
          new_trade
            \<lparr>t_instrument_id = instrument_id buy, buyer_id = trader_id buy,
             seller_id = trader_id sell, t_price = p, t_quantity = q,
             buyer_order_id = order_id buy, seller_order_id = order_id sell,
             aggressor_side = ''buy''\<rparr>)"

text \<open>\<open>_get_or_create_result\<close> followed by a mutation \<open>f\<close> of the result it returns.\<close>

definition touch_result ::
    "string \<Rightarrow> order \<Rightarrow> (order_result \<Rightarrow> order_result) \<Rightarrow> results \<Rightarrow> results" where
  "touch_result iid o1 f res =
     (let inner = (case map_of res iid of None \<Rightarrow> [] | Some m \<Rightarrow> m);
          r = (case map_of inner (order_id o1) of
                 None \<Rightarrow> \<lparr>r_order_id = order_id o1, status = ''new'', fills = [],
                          r_remaining = remaining_quantity o1, error_code = None,
                          error_message = None\<rparr>
               | Some r \<Rightarrow> r)
      in AList.update iid (AList.update (order_id o1) (f r) inner) res)"

definition add_fills :: "trade list \<Rightarrow> order_result \<Rightarrow> order_result" where
  "add_fills ts r = r\<lparr>fills := fills r @ ts\<rparr>"

definition record_trade ::
    "trade \<Rightarrow> order \<Rightarrow> order \<Rightarrow> results \<Rightarrow> books \<Rightarrow> order \<times> order \<times> results \<times> books" where
  "record_trade t buy sell res books =
     (let iid = t_instrument_id t;
          buy' = take_qty (t_quantity t) buy;
          sell' = take_qty (t_quantity t) sell;
          res1 = touch_result iid buy' (add_fills [t]) res;
          res2 = touch_result iid sell' (add_fills [t]) res1
      in (buy', sell', res2,
          case map_of books iid of
            None \<Rightarrow> books
          | Some b \<Rightarrow> AList.update iid (record_book_trade t b) books))"

definition crosses :: "order \<Rightarrow> order \<Rightarrow> bool" where
  "crosses buy sell \<longleftrightarrow>
     (case (price buy, price sell) of (Some pb, Some ps) \<Rightarrow> pb \<ge> ps | _ \<Rightarrow> False)"

text \<open>
  The two indices are the heads of the lists; \<open>done\<close> collects the orders an index has
  passed. At most one of the two orders of a trade keeps a remainder, so each iteration
  advances an index.
\<close>

lemma create_trade_quantity: "create_trade buy sell q = Inr t \<Longrightarrow> t_quantity t = q"
  by (auto simp: create_trade_def new_trade_Inr split: option.splits)

lemma record_trade_orders:
  "record_trade t buy sell res books = (buy', sell', res', books') \<Longrightarrow>
   buy' = take_qty (t_quantity t) buy \<and> sell' = take_qty (t_quantity t) sell"
  by (simp add: record_trade_def Let_def)

function batch_cross ::
    "order list \<Rightarrow> order list \<Rightarrow> order list \<Rightarrow> results \<Rightarrow> books \<Rightarrow>
     exn option \<times> order list \<times> order list \<times> order list \<times> results \<times> books" where
  "batch_cross (buy # bs) (sell # ss) done res books =
     (if crosses buy sell then
        (let q = min (remaining_quantity buy) (remaining_quantity sell) in
         case create_trade buy sell q of
           Inl e \<Rightarrow> (Some e, buy # bs, sell # ss, done, res, books)
         | Inr t \<Rightarrow>
             (case record_trade t buy sell res books of (buy', sell', res', books') \<Rightarrow>
                batch_cross (if is_filled buy' then bs else buy' # bs)
                  (if is_filled sell' then ss else sell' # ss)
                  (done @ (if is_filled buy' then [buy'] else []) @ (if is_filled sell' then [sell'] else []))
                  res' books'))
      else (None, buy # bs, sell # ss, done, res, books))"
| "batch_cross [] ss done res books = (None, [], ss, done, res, books)"
| "batch_cross (buy # bs) [] done res books = (None, buy # bs, [], done, res, books)"
  by pat_completeness auto
termination
  by (relation "measure (\<lambda>(bs, ss, _). length bs + length ss)")
    (auto simp: is_filled_def min_def dest!: create_trade_quantity record_trade_orders [OF sym] split: if_splits)

section \<open>Adding the rest to the book\<close>

text \<open>The fills that \<open>a\<close> initiated, as another order object sees them.\<close>

definition mirror_fills :: "order \<Rightarrow> trade list \<Rightarrow> order \<Rightarrow> order" where
  "mirror_fills a ts o1 =
     take_qty (sum_list (map t_quantity (filter (\<lambda>t. maker_order_id a t = order_id o1) ts))) o1"

fun add_orders_to_book ::
    "string \<Rightarrow> order list \<Rightarrow> order list \<Rightarrow> results \<Rightarrow> books \<Rightarrow> exn option \<times> order list \<times> results \<times> books" where
  "add_orders_to_book iid [] placed res books = (None, placed, res, books)"
| "add_orders_to_book iid (o1 # os) placed res books =
     (case map_of books iid of
        None \<Rightarrow> (Some (KeyError (lit iid)), placed @ o1 # os, res, books)
      | Some b \<Rightarrow>
          (case add_order o1 b of (e, ts, o2, b') \<Rightarrow>
             (let placed' = map (mirror_fills o2 ts) placed;
                  books' = AList.update iid b' books
              in case e of
                   Some x \<Rightarrow> (Some x, placed' @ o2 # os, res, books')
                 | None \<Rightarrow> add_orders_to_book iid os (placed' @ [o2])
                            (touch_result iid o2 (add_fills ts) res) books')))"

text \<open>The final states of the order objects, seen through the pending list.\<close>

definition write_back :: "order list \<Rightarrow> order list \<Rightarrow> order list" where
  "write_back finals os =
     map (\<lambda>o1. case find (\<lambda>x. order_id x = order_id o1) finals of None \<Rightarrow> o1 | Some x \<Rightarrow> x) os"

definition match_instrument ::
    "(order_side \<Rightarrow> nat \<Rightarrow> rat) \<Rightarrow> string \<Rightarrow> order list \<Rightarrow> results \<Rightarrow> books \<Rightarrow>
     exn option \<times> order list \<times> results \<times> books" where
  "match_instrument draw iid os res books =
     (if map_of books iid = None then (None, os, res, books)
      else
        (let buys = randomize_same_price_orders (draw BUY) (filter (\<lambda>o1. side o1 = BUY) os) True;
             sells = randomize_same_price_orders (draw SELL) (filter (\<lambda>o1. side o1 = SELL) os) False
         in case batch_cross buys sells [] res books of
              (Some e, bs, ss, done, res1, books1) \<Rightarrow>
                (Some e, write_back (done @ bs @ ss) os, res1, books1)
            | (None, bs, ss, done, res1, books1) \<Rightarrow>
                (case add_orders_to_book iid (bs @ ss) [] res1 books1 of (e, placed, res2, books2) \<Rightarrow>
                   (e, write_back (done @ placed) os, res2, books2))))"

fun match_batch_orders ::
    "(string \<Rightarrow> order_side \<Rightarrow> nat \<Rightarrow> rat) \<Rightarrow> pending \<Rightarrow> results \<Rightarrow> books \<Rightarrow>
     exn option \<times> pending \<times> results \<times> books" where
  "match_batch_orders draw [] res books = (None, [], res, books)"
| "match_batch_orders draw ((iid, os) # p) res books =
     (case match_instrument (draw iid) iid os res books of
        (Some e, os', res', books') \<Rightarrow> (Some e, (iid, os') # p, res', books')
      | (None, os', res', books') \<Rightarrow>
          (case match_batch_orders draw p res' books' of (e, p', res'', books'') \<Rightarrow>
             (e, (iid, os') # p', res'', books'')))"

text \<open>\<open>finalize_results\<close>: every pending order gets its remaining quantity and a status.\<close>

definition finalize_order :: "string \<Rightarrow> order \<Rightarrow> results \<Rightarrow> results" where
  "finalize_order iid o1 res =
     touch_result iid o1
       (\<lambda>r. r\<lparr>r_remaining := remaining_quantity o1, status := order_status o1 (fills r)\<rparr>) res"

definition finalize_instrument :: "string \<Rightarrow> order list \<Rightarrow> results \<Rightarrow> results" where
  "finalize_instrument iid os res = fold (finalize_order iid) os res"

fun finalize_results :: "pending \<Rightarrow> results \<Rightarrow> results" where
  "finalize_results [] res = res"
| "finalize_results ((iid, os) # p) res = finalize_results p (finalize_instrument iid os res)"

definition batch_execute ::
    "(string \<Rightarrow> order_side \<Rightarrow> nat \<Rightarrow> rat) \<Rightarrow> pending \<Rightarrow> books \<Rightarrow> (exn + results) \<times> pending \<times> books" where
  "batch_execute draw p books =
     (case match_batch_orders draw p [] books of
        (Some e, p', res, books') \<Rightarrow> (Inl e, p', books')
      | (None, p', res, books') \<Rightarrow> (Inr (finalize_results p' res), [], books'))"

section \<open>The engine interface\<close>

text \<open>
  The contract of \<open>MatchingEngine.submit_order\<close>, for an engine state \<open>'s\<close> (none for the
  continuous engine, the pending table for the batch engine): a valid new order is accepted,
  the result accounts for its whole quantity, the book stays well formed and no other order
  id enters it. \<open>books_ok\<close> is the venue's invariant on its table of books.
\<close>

definition books_ok :: "books \<Rightarrow> bool" where
  "books_ok books \<longleftrightarrow>
     (\<forall>iid b. map_of books iid = Some b \<longrightarrow> book_wf b \<and> book_instrument b = iid)"

locale matching_engine =
  fixes submit :: "'s \<Rightarrow> order \<Rightarrow> order_book \<Rightarrow> (exn + order_result) \<times> 's \<times> order \<times> order_book"
  assumes submit_wf: "book_wf b \<Longrightarrow> addable o1 b \<Longrightarrow> submit s o1 b = (r, s', o2, b') \<Longrightarrow>
      book_wf b' \<and> book_instrument b' = book_instrument b \<and>
      order_ids b' \<subseteq> insert (order_id o1) (order_ids b)"
    and submit_accepts: "book_wf b \<Longrightarrow> addable o1 b \<Longrightarrow> remaining_quantity o1 = quantity o1 \<Longrightarrow>
      submit s o1 b = (r, s', o2, b') \<Longrightarrow>
      \<exists>x. r = Inr x \<and> r_order_id x = order_id o1 \<and> error_code x = None \<and>
        total_traded (fills x) + r_remaining x = quantity o1"
begin

lemma submit_books:
  assumes "books_ok books" and "map_of books (instrument_id o1) = Some b"
    and "order_ok o1" and "order_id o1 \<notin> order_ids b" and "submit s o1 b = (r, s', o2, b')"
  shows "books_ok (AList.update (instrument_id o1) b' books)"
proof -
  from assms(1-4) have "book_wf b" "addable o1 b"
    by (auto simp: books_ok_def addable_def)
  with assms submit_wf [OF this assms(5)] show ?thesis
    by (auto simp: books_ok_def update_key_cases split: if_splits)
qed

end

definition continuous_step ::
    "unit \<Rightarrow> order \<Rightarrow> order_book \<Rightarrow> (exn + order_result) \<times> unit \<times> order \<times> order_book" where
  "continuous_step u o1 b = (case continuous_submit o1 b of (r, o2, b') \<Rightarrow> (r, u, o2, b'))"

lemma continuous_submit_spec:
  assumes wf: "book_wf b" and add: "addable o1 b" and run: "continuous_submit o1 b = (r, o2, b')"
  obtains ts where "add_order o1 b = (None, ts, o2, b')"
    and "r = Inr \<lparr>r_order_id = order_id o1, status = order_status o2 ts, fills = ts,
                  r_remaining = remaining_quantity o2, error_code = None, error_message = None\<rparr>"
    and "book_wf b'" and "book_instrument b' = book_instrument b"
    and "order_ids b' \<subseteq> insert (order_id o1) (order_ids b)"
    and "remaining_quantity o1 = remaining_quantity o2 + total_traded ts"
proof -
  obtain e ts o2' b1 where add': "add_order o1 b = (e, ts, o2', b1)"
    by (metis surj_pair)
  obtain opp where "e = None" "book_wf b1" "order_ids b1 \<subseteq> insert (order_id o1) (order_ids b)"
    "book_instrument b1 = book_instrument b"
    and sm: "spec_match (book_instrument b) o1 (side_orders (flip (side o1)) b) = (ts, o2', opp)"
    by (rule add_order_spec [OF wf add add'])
  with that [of ts] run add' spec_match_fixed [OF sm] spec_match_conserves [OF sm] show thesis
    by (auto simp: continuous_submit_def)
qed

interpretation continuous_engine: matching_engine continuous_step
proof
  fix b o1 r s s' o2 b'
  assume wf: "book_wf b" and add: "addable o1 b" and run: "continuous_step s o1 b = (r, s', o2, b')"
  then have run': "continuous_submit o1 b = (r, o2, b')"
    by (auto simp: continuous_step_def split: prod.splits)
  from continuous_submit_spec [OF wf add this]
  show "book_wf b' \<and> book_instrument b' = book_instrument b \<and>
      order_ids b' \<subseteq> insert (order_id o1) (order_ids b)"
    by blast
  from continuous_submit_spec [OF wf add run']
  show "\<exists>x. r = Inr x \<and> r_order_id x = order_id o1 \<and> error_code x = None \<and>
      total_traded (fills x) + r_remaining x = quantity o1"
    if "remaining_quantity o1 = quantity o1"
    using that by fastforce
qed

interpretation batch_engine: matching_engine batch_submit
  by unfold_locales (auto simp: batch_submit_def Let_def)

end
