(* ===== verification/Batch_Auction.thy ===== *)
theory Batch_Auction
  imports Matching_Engines
begin

text \<open>
  Correctness of the batch engine. The crossing loop is compared with \<open>auction_cross\<close>, a
  function on the two sorted lists alone; adding the rest to the book uses the order
  book's refinement theorem once per order.
\<close>

section \<open>The fixed part of an order\<close>

text \<open>An order without the one field that matching changes.\<close>

definition ident :: "order \<Rightarrow> order" where
  "ident o1 = o1\<lparr>remaining_quantity := 0\<rparr>"

lemma ident_take_qty [simp]: "ident (take_qty q o1) = ident o1"
  by (simp add: ident_def take_qty_def)

lemma ident_mirror_fills [simp]: "ident (mirror_fills a ts o1) = ident o1"
  by (simp add: mirror_fills_def)

lemma ident_order_id: "ident x = ident y \<Longrightarrow> order_id x = order_id y"
  by (drule arg_cong [of _ _ order_id]) (simp add: ident_def)

lemma ident_order_id_map: "order_id = order_id \<circ> ident"
  by (simp add: ident_def fun_eq_iff)

lemma mset_ident_ids: "mset (map ident xs) = mset (map ident ys) \<Longrightarrow>
    mset (map order_id xs) = mset (map order_id ys)"
  by (subst (1 2) ident_order_id_map) (metis map_map mset_map)

section \<open>Sorting\<close>

lemma mset_randomize [simp]:
  "mset (randomize_same_price_orders draw os descending) = mset os"
proof -
  have "mset (map snd (sort_key fst xs)) = mset (map snd xs)" for xs :: "(auction_key \<times> order) list"
    by simp
  moreover have "map snd (map (\<lambda>(i, o1). (AKey (auction_price_key descending o1) (draw i), o1)) (enumerate 0 os)) = os"
    by (simp add: case_prod_unfold comp_def)
  ultimately show ?thesis by (simp only: randomize_same_price_orders_def)
qed

lemma set_randomize [simp]: "set (randomize_same_price_orders draw os d) = set os"
  by (metis mset_randomize set_mset_mset)

lemma sorted_randomize:
  "sorted (map (auction_price_key d) (randomize_same_price_orders draw os d))"
proof -
  let ?xs = "map (\<lambda>(i, o1). (AKey (auction_price_key d o1) (draw i), o1)) (enumerate 0 os)"
  let ?ys = "sort_key fst ?xs"
  have key: "price_key (fst y) = auction_price_key d (snd y)" if "y \<in> set ?ys" for y
    using that by auto
  have "sorted (map fst ?ys)" by simp
  then have "sorted_wrt (\<lambda>x y. price_key (fst x) \<le> price_key (fst y)) ?ys"
    by (auto simp: sorted_map less_eq_auction_key_def elim!: sorted_wrt_mono_rel [rotated])
  then have "sorted_wrt (\<lambda>x y. auction_price_key d (snd x) \<le> auction_price_key d (snd y)) ?ys"
    by (rule sorted_wrt_mono_rel [rotated]) (simp add: key)
  then show ?thesis
    by (simp add: randomize_same_price_orders_def sorted_map comp_def)
qed

section \<open>Crossing as a function of the two lists\<close>

definition auction_trade :: "order \<Rightarrow> order \<Rightarrow> trade" where
  "auction_trade buy sell =
     \<lparr>t_instrument_id = instrument_id buy, buyer_id = trader_id buy, seller_id = trader_id sell,
      t_price = the (price sell), t_quantity = match_qty buy sell, buyer_order_id = order_id buy,
      seller_order_id = order_id sell, aggressor_side = ''buy''\<rparr>"

function auction_cross ::
    "order list \<Rightarrow> order list \<Rightarrow> trade list \<times> order list \<times> order list \<times> order list" where
  "auction_cross (buy # bs) (sell # ss) =
     (if crosses buy sell then
        (let q = match_qty buy sell; buy' = take_qty q buy; sell' = take_qty q sell in
         case auction_cross (if is_filled buy' then bs else buy' # bs)
             (if is_filled sell' then ss else sell' # ss) of
           (ts, dn, bs', ss') \<Rightarrow>
             (auction_trade buy sell # ts,
              (if is_filled buy' then [buy'] else []) @ (if is_filled sell' then [sell'] else []) @ dn,
              bs', ss'))
      else ([], [], buy # bs, sell # ss))"
| "auction_cross [] ss = ([], [], [], ss)"
| "auction_cross (buy # bs) [] = ([], [], buy # bs, [])"
  by pat_completeness auto
termination
  by (relation "measure (\<lambda>(bs, ss). length bs + length ss)")
    (auto simp: is_filled_def match_qty_def min_def split: if_splits)

definition batch_order :: "string \<Rightarrow> order \<Rightarrow> bool" where
  "batch_order iid o1 \<longleftrightarrow> order_ok o1 \<and> instrument_id o1 = iid \<and> 0 < remaining_quantity o1"

text \<open>
  Induction over a crossing run of valid orders: it stops at a pair that does not cross, or
  trades and goes on with the remainders, of which at least one is filled.
\<close>

lemma auction_cross_induct [consumes 3, case_names stop trade]:
  assumes run: "auction_cross bs ss = (ts, dn, bs', ss')"
    and "\<forall>o1 \<in> set bs. batch_order iid o1" and "\<forall>o1 \<in> set ss. batch_order iid o1"
    and stop: "\<And>bs ss. bs = [] \<or> ss = [] \<or> \<not> crosses (hd bs) (hd ss) \<Longrightarrow>
      \<forall>o1 \<in> set bs. batch_order iid o1 \<Longrightarrow> \<forall>o1 \<in> set ss. batch_order iid o1 \<Longrightarrow> P bs ss [] [] bs ss"
    and trade: "\<And>buy bs sell ss q buys sells filled ts dn bs' ss'.
      crosses buy sell \<Longrightarrow> q = match_qty buy sell \<Longrightarrow> batch_order iid buy \<Longrightarrow> batch_order iid sell \<Longrightarrow>
      0 < q \<Longrightarrow> q \<in> \<int> \<Longrightarrow> q \<le> remaining_quantity buy \<Longrightarrow> q \<le> remaining_quantity sell \<Longrightarrow>
      buys = (if is_filled (take_qty q buy) then [] else [take_qty q buy]) \<Longrightarrow>
      sells = (if is_filled (take_qty q sell) then [] else [take_qty q sell]) \<Longrightarrow>
      filled = (if is_filled (take_qty q buy) then [take_qty q buy] else []) @
        (if is_filled (take_qty q sell) then [take_qty q sell] else []) \<Longrightarrow>
      \<forall>o1 \<in> set (buys @ bs). batch_order iid o1 \<Longrightarrow> \<forall>o1 \<in> set (sells @ ss). batch_order iid o1 \<Longrightarrow>
      auction_cross (buys @ bs) (sells @ ss) = (ts, dn, bs', ss') \<Longrightarrow>
      P (buys @ bs) (sells @ ss) ts dn bs' ss' \<Longrightarrow>
      P (buy # bs) (sell # ss) (auction_trade buy sell # ts) (filled @ dn) bs' ss'"
  shows "P bs ss ts dn bs' ss'"
  using assms(1-3)
proof (induction bs ss arbitrary: ts dn bs' ss' rule: auction_cross.induct)
  case (1 buy bs sell ss)
  show ?case
  proof (cases "crosses buy sell")
    case False
    with "1.prems" stop show ?thesis by (simp, metis list.sel(1) list.set_intros set_ConsD)
  next
    case True
    let ?q = "match_qty buy sell"
    let ?buys = "if is_filled (take_qty ?q buy) then [] else [take_qty ?q buy]"
    let ?sells = "if is_filled (take_qty ?q sell) then [] else [take_qty ?q sell]"
    from "1.prems" have ok: "batch_order iid buy" "batch_order iid sell" by simp_all
    then have q: "0 < ?q" "?q \<in> \<int>" "?q \<le> remaining_quantity buy" "?q \<le> remaining_quantity sell"
      by (auto simp: match_qty_def batch_order_def order_ok_def min_def)
    have rest: "\<not> is_filled (take_qty ?q o1) \<Longrightarrow> batch_order iid (take_qty ?q o1)"
      if "batch_order iid o1" "?q \<le> remaining_quantity o1" for o1
      using that q by (auto simp: batch_order_def is_filled_def intro: order_ok_take_qty)
    have lists: "(if is_filled (take_qty ?q buy) then bs else take_qty ?q buy # bs) = ?buys @ bs"
      "(if is_filled (take_qty ?q sell) then ss else take_qty ?q sell # ss) = ?sells @ ss"
      by simp_all
    have ok': "\<forall>o1 \<in> set (?buys @ bs). batch_order iid o1" "\<forall>o1 \<in> set (?sells @ ss). batch_order iid o1"
      using "1.prems"(2,3) rest ok q by auto
    obtain ts' dn' where rec: "auction_cross (?buys @ bs) (?sells @ ss) = (ts', dn', bs', ss')"
      and out: "ts = auction_trade buy sell # ts'"
        "dn = ((if is_filled (take_qty ?q buy) then [take_qty ?q buy] else []) @
          (if is_filled (take_qty ?q sell) then [take_qty ?q sell] else [])) @ dn'"
      using "1.prems"(1) True by (auto simp only: auction_cross.simps if_True Let_def lists
          split: prod.splits) auto
    have "P (?buys @ bs) (?sells @ ss) ts' dn' bs' ss'"
      using "1.IH" [OF True refl refl refl, unfolded lists, OF rec ok'] .
    with trade [OF True refl ok q refl refl refl ok' rec] out show ?thesis by simp
  qed
next
  case (2 ss)
  with stop [of "[]" ss] show ?case by simp
next
  case (3 buy bs)
  with stop [of "buy # bs" "[]"] show ?case by simp
qed

section \<open>Results\<close>

text \<open>The fills recorded for an order, empty when it has no result yet.\<close>

definition result_fills :: "results \<Rightarrow> string \<Rightarrow> string \<Rightarrow> trade list" where
  "result_fills res iid oid =
     (case map_of res iid of None \<Rightarrow> []
      | Some m \<Rightarrow> (case map_of m oid of None \<Rightarrow> [] | Some r \<Rightarrow> fills r))"

lemma result_fills_add [simp]:
  "result_fills (touch_result iid o1 (add_fills ts) res) iid' oid =
     result_fills res iid' oid @ (if iid' = iid \<and> oid = order_id o1 then ts else [])"
  by (auto simp: result_fills_def touch_result_def Let_def add_fills_def update_key_cases
      split: option.splits)

definition involves :: "string \<Rightarrow> trade \<Rightarrow> bool" where
  "involves oid t \<longleftrightarrow> buyer_order_id t = oid \<or> seller_order_id t = oid"

section \<open>The crossing loop refines \<open>auction_cross\<close>\<close>

lemma create_trade_ok:
  assumes "crosses buy sell" and "batch_order iid sell" and "0 < q" and "q \<in> \<int>"
    and "q = match_qty buy sell"
  shows "create_trade buy sell q = Inr (auction_trade buy sell)"
  using assms
  by (auto simp: create_trade_def crosses_def new_trade_Inr trade_ok_def auction_trade_def
      batch_order_def order_ok_def split: option.splits)

lemma update_idem: "map_of d k = Some v \<Longrightarrow> AList.update k v d = d"
  by (induction d) auto

lemma update_update [simp]: "AList.update k v (AList.update k v' d) = AList.update k v d"
  by (induction d) auto

definition with_trades :: "trade list \<Rightarrow> order_book \<Rightarrow> order_book" where
  "with_trades ts b = b\<lparr>trades := push_trades ts (trades b)\<rparr>"

lemma with_trades_simps [simp]:
  "with_trades [] b = b"
  "with_trades ts (record_book_trade t b) = with_trades (t # ts) b"
  by (simp_all add: with_trades_def record_book_trade_def)

lemma batch_cross_step:
  assumes "crosses buy sell" and "create_trade buy sell q = Inr t" and "t_quantity t = q"
    and "q = match_qty buy sell"
    and "record_trade t buy sell res books = (take_qty q buy, take_qty q sell, res', books')"
    and "buys = (if is_filled (take_qty q buy) then [] else [take_qty q buy])"
    and "sells = (if is_filled (take_qty q sell) then [] else [take_qty q sell])"
    and "filled = (if is_filled (take_qty q buy) then [take_qty q buy] else []) @
        (if is_filled (take_qty q sell) then [take_qty q sell] else [])"
  shows "batch_cross (buy # bs) (sell # ss) passed res books =
    batch_cross (buys @ bs) (sells @ ss) (passed @ filled) res' books'"
  using assms by (simp add: match_qty_def Let_def)

lemma batch_cross_refines:
  assumes "auction_cross bs ss = (ts, dn, bs', ss')"
    and "\<forall>o1 \<in> set bs. batch_order iid o1" and "\<forall>o1 \<in> set ss. batch_order iid o1"
    and "map_of books iid = Some b"
    and "order_id ` set bs \<inter> order_id ` set ss = {}"
  shows "\<exists>res'. batch_cross bs ss passed res books =
      (None, bs', ss', passed @ dn, res', AList.update iid (with_trades ts b) books) \<and>
    (\<forall>iid' oid. result_fills res' iid' oid =
       result_fills res iid' oid @ (if iid' = iid then filter (involves oid) ts else []))"
  using assms
proof (induction arbitrary: passed res books b rule: auction_cross_induct)
  case (stop bs ss)
  then show ?case
    by (cases bs; cases ss) (auto simp: update_idem)
next
  case (trade buy bs sell ss q buys sells filled ts dn bs' ss')
  let ?t = "auction_trade buy sell"
  let ?b = "record_book_trade ?t b"
  let ?res = "touch_result iid (take_qty q sell) (add_fills [?t]) (touch_result iid (take_qty q buy) (add_fills [?t]) res)"
  let ?books = "AList.update iid ?b books"
  have tq: "t_quantity ?t = q" "t_instrument_id ?t = iid"
    using trade(2,3) by (simp_all add: auction_trade_def batch_order_def)
  have ct: "create_trade buy sell q = Inr ?t"
    using trade(1,4-6,2) by (rule create_trade_ok)
  have rec: "record_trade ?t buy sell res books = (take_qty q buy, take_qty q sell, ?res, ?books)"
    using trade.prems(1) tq by (simp add: record_trade_def Let_def)
  have neq: "order_id buy \<noteq> order_id sell"
    using trade.prems(2) by auto
  have disj: "order_id ` set (buys @ bs) \<inter> order_id ` set (sells @ ss) = {}"
    using trade.prems(2) trade(9,10) by (auto split: if_splits)
  from trade.IH [OF _ disj, of ?books ?b "passed @ filled" ?res] obtain res' where IH:
    "batch_cross (buys @ bs) (sells @ ss) (passed @ filled) ?res ?books =
      (None, bs', ss', (passed @ filled) @ dn, res', AList.update iid (with_trades ts ?b) ?books)"
    "\<forall>iid' oid. result_fills res' iid' oid =
       result_fills ?res iid' oid @ (if iid' = iid then filter (involves oid) ts else [])"
    by (auto simp: update_key_cases)
  have inv: "involves oid ?t \<longleftrightarrow> oid = order_id buy \<or> oid = order_id sell" for oid
    by (auto simp: involves_def auction_trade_def)
  have "batch_cross (buy # bs) (sell # ss) passed res books =
      (None, bs', ss', passed @ filled @ dn, res', AList.update iid (with_trades (?t # ts) b) books)"
    using batch_cross_step [OF trade(1) ct tq(1) trade(2) rec trade(9-11)] IH(1) by simp
  moreover have "\<forall>iid' oid. result_fills res' iid' oid =
       result_fills res iid' oid @ (if iid' = iid then filter (involves oid) (?t # ts) else [])"
    using IH(2) neq by (auto simp: inv)
  ultimately show ?case by blast
qed

section \<open>What crossing does\<close>

lemma auction_cross_conserves:
  assumes "auction_cross bs ss = (ts, dn, bs', ss')"
    and "\<forall>o1 \<in> set bs. batch_order iid o1" and "\<forall>o1 \<in> set ss. batch_order iid o1"
  shows "total_remaining bs = total_remaining bs' + total_traded ts \<and>
    total_remaining ss = total_remaining ss' + total_traded ts \<and>
    (\<forall>o1 \<in> set dn. is_filled o1 \<and> order_ok o1) \<and>
    mset (map ident (dn @ bs' @ ss')) = mset (map ident (bs @ ss))"
  using assms
proof (induction rule: auction_cross_induct)
  case (trade buy bs sell ss q buys sells filled ts dn bs' ss')
  have "t_quantity (auction_trade buy sell) = q"
    using trade(2) by (simp add: auction_trade_def)
  moreover have "total_remaining buys = remaining_quantity buy - q" "total_remaining sells = remaining_quantity sell - q"
    using trade(9,10) by (auto simp: is_filled_def)
  moreover have "mset (map ident (filled @ buys @ sells)) = {#ident buy, ident sell#}"
    using trade(9-11) by auto
  moreover have "order_ok (take_qty q buy)" "order_ok (take_qty q sell)"
    using trade(3-8) by (auto simp: batch_order_def intro: order_ok_take_qty)
  then have "\<forall>o1 \<in> set filled. is_filled o1 \<and> order_ok o1"
    using trade(11) by auto
  ultimately show ?case
    using trade.IH by (auto simp: algebra_simps)
qed simp

text \<open>
  The pair at which the loop stops does not cross; with both lists sorted and priced, no
  remaining pair does.
\<close>

lemma auction_cross_stops:
  assumes "auction_cross bs ss = (ts, dn, bs', ss')"
    and "\<forall>o1 \<in> set bs. batch_order iid o1" and "\<forall>o1 \<in> set ss. batch_order iid o1"
  shows "bs' = [] \<or> ss' = [] \<or> \<not> crosses (hd bs') (hd ss')"
  using assms by (induction rule: auction_cross_induct) auto

lemma auction_cross_suffix:
  assumes "auction_cross bs ss = (ts, dn, bs', ss')"
    and "\<forall>o1 \<in> set bs. batch_order iid o1" and "\<forall>o1 \<in> set ss. batch_order iid o1"
  shows "(\<forall>o1 \<in> set bs'. batch_order iid o1) \<and> (\<forall>o1 \<in> set ss'. batch_order iid o1) \<and>
    (\<exists>pre. map (\<lambda>x. (side x, price x)) bs = pre @ map (\<lambda>x. (side x, price x)) bs') \<and>
    (\<exists>pre. map (\<lambda>x. (side x, price x)) ss = pre @ map (\<lambda>x. (side x, price x)) ss')"
  using assms
proof (induction rule: auction_cross_induct)
  case (trade buy bs sell ss q buys sells filled ts dn bs' ss')
  have "\<exists>pre. map f (x # xs) = pre @ map f xs'"
    if "\<exists>pre. map f ((if is_filled (take_qty q x) then [] else [take_qty q x]) @ xs) = pre @ map f xs'"
      "f = (\<lambda>x. (side x, price x))" for f :: "order \<Rightarrow> order_side \<times> rat option" and x xs xs'
    using that by (auto split: if_splits)
  with trade show ?case by blast
qed auto

text \<open>The price rule: every trade is at the seller's limit, which the buyer accepts.\<close>

definition fair_trade :: "order set \<Rightarrow> order set \<Rightarrow> trade \<Rightarrow> bool" where
  "fair_trade xs ys t \<longleftrightarrow>
     0 < t_quantity t \<and>
     (\<exists>x \<in> xs. \<exists>y \<in> ys. \<exists>p. buyer_order_id t = order_id x \<and> seller_order_id t = order_id y \<and>
        price y = Some (t_price t) \<and> price x = Some p \<and> t_price t \<le> p)"

lemma fair_trade_mono: "fair_trade xs ys t \<Longrightarrow> xs \<subseteq> xs' \<Longrightarrow> ys \<subseteq> ys' \<Longrightarrow> fair_trade xs' ys' t"
  by (fastforce simp: fair_trade_def)

lemma fair_trade_ident: "fair_trade (ident ` xs) (ident ` ys) t \<longleftrightarrow> fair_trade xs ys t"
  by (simp add: fair_trade_def ident_def)

lemma auction_cross_trades:
  assumes "auction_cross bs ss = (ts, dn, bs', ss')"
    and "\<forall>o1 \<in> set bs. batch_order iid o1" and "\<forall>o1 \<in> set ss. batch_order iid o1"
  shows "\<forall>t \<in> set ts. fair_trade (ident ` set bs) (ident ` set ss) t"
  using assms
proof (induction rule: auction_cross_induct)
  case (trade buy bs sell ss q buys sells filled ts dn bs' ss')
  let ?t = "auction_trade buy sell"
  have sub: "ident ` set (buys @ bs) \<subseteq> ident ` set (buy # bs)" "ident ` set (sells @ ss) \<subseteq> ident ` set (sell # ss)"
    using trade(9,10) by auto
  have "fair_trade {buy} {sell} ?t"
    using trade(1,2,5) by (auto simp: fair_trade_def auction_trade_def crosses_def split: option.splits)
  then have "fair_trade (set (buy # bs)) (set (sell # ss)) ?t"
    by (rule fair_trade_mono) auto
  then have "fair_trade (ident ` set (buy # bs)) (ident ` set (sell # ss)) ?t"
    by (simp only: fair_trade_ident)
  moreover have "\<forall>t \<in> set ts. fair_trade (ident ` set (buy # bs)) (ident ` set (sell # ss)) t"
    using trade.IH fair_trade_mono [OF _ sub] by blast
  ultimately show ?case by simp
qed simp

text \<open>Sorted and priced lists whose heads do not cross have no crossing pair.\<close>

lemma heads_decide:
  assumes "sorted (map (auction_price_key True) bs)" and "sorted (map (auction_price_key False) ss)"
    and "\<forall>x \<in> set bs \<union> set ss. price x \<noteq> None"
    and "bs = [] \<or> ss = [] \<or> \<not> crosses (hd bs) (hd ss)"
    and x: "x \<in> set bs" and y: "y \<in> set ss"
  shows "\<not> crosses x y"
proof -
  obtain b bs' s ss' where eq: "bs = b # bs'" "ss = s # ss'"
    using x y by (cases bs; cases ss) auto
  have "auction_price_key True b \<le> auction_price_key True x"
    "auction_price_key False s \<le> auction_price_key False y"
    using assms(1,2) x y by (auto simp: eq)
  moreover have "price b \<noteq> None" "price s \<noteq> None" "price x \<noteq> None" "price y \<noteq> None" "\<not> crosses b s"
    using assms(3,4) x y by (auto simp: eq)
  ultimately show ?thesis
    by (auto simp: crosses_def auction_price_key_def)
qed

lemma auction_key_fixed:
  "map (\<lambda>x. (side x, price x)) xs = pre @ map (\<lambda>x. (side x, price x)) ys \<Longrightarrow>
   map (auction_price_key d) xs = map (\<lambda>p. auction_price_key d (undefined\<lparr>price := snd p\<rparr>)) pre @
     map (auction_price_key d) ys"
proof -
  assume eq: "map (\<lambda>x. (side x, price x)) xs = pre @ map (\<lambda>x. (side x, price x)) ys"
  have key: "auction_price_key d = (\<lambda>p. auction_price_key d (undefined\<lparr>price := snd p\<rparr>)) \<circ> (\<lambda>x. (side x, price x))"
    by (simp add: auction_price_key_def fun_eq_iff)
  show ?thesis
    by (subst (1 3) key) (simp only: map_map [symmetric] eq map_append)
qed

lemma auction_cross_uncrosses:
  assumes run: "auction_cross bs ss = (ts, dn, bs', ss')"
    and valid: "\<forall>o1 \<in> set bs. batch_order iid o1" "\<forall>o1 \<in> set ss. batch_order iid o1"
    and "sorted (map (auction_price_key True) bs)" and "sorted (map (auction_price_key False) ss)"
    and priced: "\<forall>x \<in> set bs \<union> set ss. price x \<noteq> None"
  shows "\<forall>x \<in> set bs'. \<forall>y \<in> set ss'. \<not> crosses x y"
proof -
  from auction_cross_suffix [OF run valid] obtain pre1 pre2 where
    pre: "map (\<lambda>x. (side x, price x)) bs = pre1 @ map (\<lambda>x. (side x, price x)) bs'"
      "map (\<lambda>x. (side x, price x)) ss = pre2 @ map (\<lambda>x. (side x, price x)) ss'"
    by blast
  have "sorted (map (auction_price_key True) bs')" "sorted (map (auction_price_key False) ss')"
    using assms(4,5) unfolding auction_key_fixed [OF pre(1)] auction_key_fixed [OF pre(2)]
    by (simp_all add: sorted_append)
  moreover have "(\<lambda>x. (side x, price x)) ` set bs' \<subseteq> (\<lambda>x. (side x, price x)) ` set bs"
    "(\<lambda>x. (side x, price x)) ` set ss' \<subseteq> (\<lambda>x. (side x, price x)) ` set ss"
    using arg_cong [OF pre(1), of set] arg_cong [OF pre(2), of set] by auto
  then have "\<forall>x \<in> set bs' \<union> set ss'. price x \<noteq> None"
    using priced by (fastforce simp: image_subset_iff)
  ultimately show ?thesis
    using heads_decide auction_cross_stops [OF run valid] by blast
qed

end
