(* ===== verification/Batch_Execution.thy ===== *)
theory Batch_Execution
  imports Batch_Auction
begin

text \<open>
  The whole of \<open>execute_batch\<close>: after crossing, the orders left over are added to the book
  one by one, the states of the shared order objects are read back and the results are
  finalised. The main lemma keeps the model's copies of the order objects coherent with the
  book: an order that is in the book afterwards is there exactly as its copy says.
\<close>

section \<open>Mirrored fills\<close>

lemma mirror_fills_Nil [simp]: "mirror_fills a [] o1 = o1"
  by (simp add: mirror_fills_def take_qty_def)

lemma mirror_fills_other:
  assumes "\<forall>t \<in> set ts. maker_order_id a t \<noteq> order_id o1"
  shows "mirror_fills a ts o1 = o1"
proof -
  have "filter (\<lambda>t. maker_order_id a t = order_id o1) ts = []"
    using assms by (simp add: filter_empty_conv)
  then show ?thesis by (simp add: mirror_fills_def take_qty_def)
qed

lemma maker_order_id_take_qty [simp]: "maker_order_id (take_qty q o1) = maker_order_id o1"
  by (simp add: maker_order_id_def fun_eq_iff)

lemma mirror_fills_take_qty [simp]: "mirror_fills (take_qty q a) ts o1 = mirror_fills a ts o1"
  by (simp add: mirror_fills_def)

lemma mirror_fills_Cons:
  "mirror_fills a (t # ts) o1 =
     (if maker_order_id a t = order_id o1 then mirror_fills a ts (take_qty (t_quantity t) o1)
      else mirror_fills a ts o1)"
  by (simp add: mirror_fills_def take_qty_def algebra_simps)

text \<open>The opposite side after a match: the orders as the trades leave them, filled ones gone.\<close>

lemma spec_match_mirror:
  assumes "spec_match iid o1 xs = (ts, o2, opp)"
    and "distinct (map order_id xs)" and "\<forall>x \<in> set xs. 0 < remaining_quantity x"
  shows "maker_order_id o1 ` set ts \<subseteq> order_id ` set xs \<and>
    opp = filter (\<lambda>x. \<not> is_filled x) (map (mirror_fills o1 ts) xs)"
  using assms
proof (induction rule: spec_match_induct)
  case (stop o1 xs)
  then show ?case by (auto simp: is_filled_def intro!: filter_True [symmetric])
next
  case (fill o1 m ms ts o2 opp)
  let ?q = "remaining_quantity m"
  let ?t = "match_trade iid o1 m (the (price m)) ?q"
  have run: "maker_order_id o1 ` set ts \<subseteq> order_id ` set ms"
    using fill.IH fill.prems by simp
  have "mirror_fills o1 (?t # ts) x = mirror_fills o1 ts x" if "x \<in> set ms" for x
    using that fill.prems by (auto simp: mirror_fills_Cons)
  moreover have "is_filled (mirror_fills o1 (?t # ts) m)"
  proof -
    have "order_id m \<notin> order_id ` set ms"
      using fill.prems(1) by simp
    with run have "\<forall>t \<in> set ts. maker_order_id o1 t \<noteq> order_id m"
      by (metis imageI subsetD)
    then have "mirror_fills o1 ts (take_qty ?q m) = take_qty ?q m"
      by (intro mirror_fills_other) simp
    then show ?thesis by (simp add: mirror_fills_Cons is_filled_def)
  qed
  ultimately show ?case
    using fill.IH fill.prems by (auto intro: filter_cong)
next
  case (part o1 m ms)
  let ?t = "match_trade iid o1 m (the (price m)) (remaining_quantity o1)"
  have "mirror_fills o1 [?t] x = x" if "x \<in> set ms" for x
    using that part.prems by (intro mirror_fills_other) auto
  then have rest: "map (mirror_fills o1 [?t]) ms = ms"
    by (simp add: map_idI)
  have head: "mirror_fills o1 [?t] m = take_qty (remaining_quantity o1) m"
    by (simp add: mirror_fills_Cons)
  have "filter (\<lambda>x. \<not> is_filled x) ms = ms"
    using part.prems by (auto simp: is_filled_def intro!: filter_True)
  then show ?case
    using part.hyps by (simp add: rest head is_filled_def)
qed

lemma spec_match_ident: "spec_match iid o1 xs = (ts, o2, opp) \<Longrightarrow> ident o2 = ident o1"
  by (induction rule: spec_match_induct) auto

section \<open>Adding the rest, one order at a time\<close>

text \<open>
  The model's copy of an order object: valid, and equal to the resting order of its id when
  there is one.
\<close>

definition coherent :: "order_book \<Rightarrow> order \<Rightarrow> bool" where
  "coherent b x \<longleftrightarrow> order_ok x \<and> (order_id x \<in> order_ids b \<longrightarrow> x \<in> set (resting b))"

lemma resting_sides: "x \<in> set (resting b) \<longleftrightarrow> x \<in> set (side_orders sd b) \<or> x \<in> set (side_orders (flip sd) b)"
  using set_resting [of b sd] by auto

lemma resting_unique:
  "book_wf b \<Longrightarrow> x \<in> set (resting b) \<Longrightarrow> y \<in> set (resting b) \<Longrightarrow> order_id x = order_id y \<Longrightarrow> x = y"
  unfolding book_wf_def index_ok_def distinct_map by (elim conjE) (rule inj_onD)

lemma resting_ids: "book_wf b \<Longrightarrow> oid \<in> order_ids b \<longleftrightarrow> (\<exists>x \<in> set (resting b). order_id x = oid)"
  by (auto simp: book_wf_def index_ok_def)

lemma resting_order_ok: "book_wf b \<Longrightarrow> x \<in> set (resting b) \<Longrightarrow> order_ok x"
  using rests_ok_in_book by (fastforce simp: resting_sides [of x b BUY] rests_ok_def)

lemma distinct_side_ids: "book_wf b \<Longrightarrow> distinct (map order_id (side_orders sd b @ side_orders (flip sd) b))"
  by (simp add: book_wf_def index_ok_def distinct_ids_resting [of b sd])

lemma add_order_coherent:
  assumes wf: "book_wf b" and add: "addable o1 b" and run: "add_order o1 b = (None, ts, o2, b')"
    and x: "coherent b x" and other: "order_id x \<noteq> order_id o1"
  shows "coherent b' (mirror_fills o2 ts x)"
proof -
  let ?opp = "side_orders (flip (side o1)) b" and ?own = "side_orders (side o1) b"
  let ?x = "mirror_fills o2 ts x"
  obtain opp where wf': "book_wf b'"
    and sm: "spec_match (book_instrument b) o1 ?opp = (ts, o2, opp)"
    and opp: "side_orders (flip (side o1)) b' = opp"
    and own_eq: "side_orders (side o1) b' =
      (if \<not> is_filled o2 \<and> is_limit_order o2 then spec_rest o2 ?own else ?own)"
    by (rule add_order_spec [OF wf add run])
  have own: "set (side_orders (side o1) b') \<subseteq> insert o2 (set ?own)"
    by (auto simp: own_eq set_spec_rest)
  have o2: "order_id o2 = order_id o1" "side o2 = side o1"
    using spec_match_fixed [OF sm] by simp_all
  have mk: "maker_order_id o2 = maker_order_id o1"
    by (simp add: maker_order_id_def is_buy_def o2 fun_eq_iff)
  then have mir: "mirror_fills o2 ts y = mirror_fills o1 ts y" for y
    by (simp add: mirror_fills_def)
  have dist: "distinct (map order_id (?own @ ?opp))"
    using wf by (rule distinct_side_ids)
  then have dist_own: "order_id y \<noteq> order_id z" if "y \<in> set ?own" "z \<in> set ?opp" for y z
    using that by (auto simp: image_iff)
  from dist have spec: "maker_order_id o1 ` set ts \<subseteq> order_id ` set ?opp"
    "opp = filter (\<lambda>x. \<not> is_filled x) (map (mirror_fills o1 ts) ?opp)"
    using spec_match_mirror [OF sm] side_orders_positive [OF wf] by auto
  have untouched: "mirror_fills o1 ts y = y" if "order_id y \<notin> order_id ` set ?opp" for y
    using that spec(1) by (intro mirror_fills_other) (metis imageI subsetD)
  have id: "order_id ?x = order_id x"
    by (simp add: mirror_fills_def)
  show ?thesis
  proof (cases "x \<in> set ?opp")
    case True
    have unfilled: "?x \<in> set (resting b')" if "\<not> is_filled ?x"
      using that True by (auto simp: resting_sides [of _ b' "side o1"] opp spec(2) mir)
    have gone: "order_id x \<notin> order_ids b'" if "is_filled ?x"
    proof
      assume "order_id x \<in> order_ids b'"
      then obtain y where y: "y \<in> set (resting b')" "order_id y = order_id x"
        using resting_ids [OF wf'] by auto
      have "y \<noteq> o2"
        using other y(2) o2(1) by auto
      moreover have "y \<notin> set ?own"
        using dist_own [OF _ True] y(2) by auto
      ultimately have "y \<notin> set (side_orders (side o1) b')"
        using own by blast
      then obtain y0 where "y0 \<in> set ?opp" "y = mirror_fills o1 ts y0" "\<not> is_filled y"
        using y by (auto simp: resting_sides [of _ b' "side o1"] opp spec(2))
      moreover from this y(2) have "order_id y0 = order_id x"
        by (simp add: mirror_fills_def)
      with True \<open>y0 \<in> set ?opp\<close> have "y0 = x"
        by (intro resting_unique [OF wf]) (simp_all add: resting_sides [of _ b "side o1"])
      ultimately show False using that by (simp add: mir)
    qed
    have "order_ok ?x"
    proof (cases "is_filled ?x")
      case True
      with x show ?thesis
        by (auto simp: coherent_def order_ok_def is_filled_def mirror_fills_def)
    qed (use unfilled resting_order_ok [OF wf'] in blast)
    with unfilled gone show ?thesis by (auto simp: coherent_def id)
  next
    case False
    have notin: "order_id x \<notin> order_id ` set ?opp"
    proof
      assume "order_id x \<in> order_id ` set ?opp"
      then obtain y where "y \<in> set ?opp" "order_id y = order_id x" by auto
      moreover from this have "order_id x \<in> order_ids b" "y \<in> set (resting b)"
        using resting_ids [OF wf] by (auto simp: resting_sides [of _ b "side o1"])
      ultimately show False
        using x False resting_unique [OF wf] by (metis coherent_def)
    qed
    have "x \<in> set (resting b')" if "order_id x \<in> order_ids b'"
    proof -
      from that obtain y where y: "y \<in> set (resting b')" "order_id y = order_id x"
        using resting_ids [OF wf'] by auto
      have "order_id ` set opp \<subseteq> order_id ` set ?opp"
        using sm by (rule spec_match_ids)
      then have "y \<notin> set opp"
        using notin y(2) by (metis imageI subsetD)
      moreover have "y \<noteq> o2"
        using other y(2) o2(1) by auto
      ultimately have "y \<in> set ?own"
        using y(1) own opp by (auto simp: resting_sides [of _ b' "side o1"])
      then have "x = y"
        using x y(2) resting_unique [OF wf] resting_ids [OF wf]
        by (metis coherent_def resting_sides [of _ b "side o1"])
      with y show ?thesis by simp
    qed
    then show ?thesis
      using x untouched [OF notin] by (simp add: coherent_def mir)
  qed
qed

lemma add_order_newcomer_coherent:
  assumes wf: "book_wf b" and add: "addable o1 b" and run: "add_order o1 b = (None, ts, o2, b')"
  shows "coherent b' o2"
proof -
  let ?own = "side_orders (side o1) b"
  obtain opp where wf': "book_wf b'" and ok: "order_ok o2"
    and sm: "spec_match (book_instrument b) o1 (side_orders (flip (side o1)) b) = (ts, o2, opp)"
    and opp: "side_orders (flip (side o1)) b' = opp"
    and own: "side_orders (side o1) b' =
      (if \<not> is_filled o2 \<and> is_limit_order o2 then spec_rest o2 ?own else ?own)"
    by (rule add_order_spec [OF wf add run])
  have fresh: "order_id y \<noteq> order_id o2" if "y \<in> set (resting b)" for y
    using that add spec_match_fixed [OF sm] resting_ids [OF wf] by (auto simp: addable_def)
  have "o2 \<in> set (resting b')" if "order_id o2 \<in> order_ids b'"
  proof -
    from that obtain y where y: "y \<in> set (resting b')" "order_id y = order_id o2"
      using resting_ids [OF wf'] by auto
    have "order_id o2 \<notin> order_id ` set (side_orders (flip (side o1)) b)"
      using fresh unfolding resting_sides [of _ b "side o1"] by (metis imageE)
    with spec_match_ids [OF sm] y(2) have "y \<notin> set opp"
      by (metis (no_types) imageI subsetD)
    moreover have "y \<notin> set ?own"
      using fresh [of y] y(2) by (auto simp: resting_sides [of _ b "side o1"])
    ultimately have "y = o2"
      using y(1) by (auto simp: resting_sides [of _ b' "side o1"] opp own set_spec_rest split: if_splits)
    with y show ?thesis by simp
  qed
  with ok show ?thesis by (simp add: coherent_def)
qed

lemma add_orders_to_book_ok:
  assumes "map_of books iid = Some b" and "book_wf b" and "book_instrument b = iid"
    and "\<forall>x \<in> set placed. coherent b x" and "distinct (map order_id (placed @ os))"
    and "\<forall>x \<in> set os. batch_order iid x \<and> order_id x \<notin> order_ids b"
  shows "\<exists>placed' res' b'.
    add_orders_to_book iid os placed res books = (None, placed', res', AList.update iid b' books) \<and>
    book_wf b' \<and> book_instrument b' = iid \<and> map ident placed' = map ident (placed @ os) \<and>
    (\<forall>x \<in> set placed'. coherent b' x) \<and> order_ids b' \<subseteq> order_ids b \<union> order_id ` set os"
  using assms
proof (induction os arbitrary: placed res books b)
  case Nil
  then show ?case by (intro exI [of _ placed] exI [of _ res] exI [of _ b]) (simp add: update_idem)
next
  case (Cons o1 os)
  have add: "addable o1 b"
    using Cons.prems(3,6) by (simp add: addable_def batch_order_def)
  obtain e ts o2 b1 where run: "add_order o1 b = (e, ts, o2, b1)"
    by (metis surj_pair)
  obtain opp where e: "e = None" and wf1: "book_wf b1"
    and sm: "spec_match (book_instrument b) o1 (side_orders (flip (side o1)) b) = (ts, o2, opp)"
    and ids1: "order_ids b1 \<subseteq> insert (order_id o1) (order_ids b)"
    and bi: "book_instrument b1 = book_instrument b"
    by (rule add_order_spec [OF Cons.prems(2) add run])
  have same: "ident o2 = ident o1" "order_id o2 = order_id o1"
    using spec_match_fixed [OF sm] spec_match_ident [OF sm] by simp_all
  let ?placed = "map (mirror_fills o2 ts) placed @ [o2]"
  have "\<forall>x \<in> set placed. order_id x \<noteq> order_id o1"
    using Cons.prems(5) by (auto simp: image_iff)
  then have coh: "\<forall>x \<in> set ?placed. coherent b1 x"
    using add_order_coherent [OF Cons.prems(2) add] add_order_newcomer_coherent [OF Cons.prems(2) add]
      run e Cons.prems(4) by auto
  have ids: "map order_id ?placed = map order_id placed @ [order_id o1]"
    by (simp add: same mirror_fills_def)
  have dist: "distinct (map order_id (?placed @ os))"
    using Cons.prems(5) unfolding map_append [of order_id ?placed os] ids by auto
  have fresh: "\<forall>x \<in> set os. batch_order iid x \<and> order_id x \<notin> order_ids b1"
  proof
    fix x
    assume x: "x \<in> set os"
    then have "order_id x \<noteq> order_id o1" and "order_id x \<notin> order_ids b"
      using Cons.prems(5,6) by (auto simp: image_iff)
    then show "batch_order iid x \<and> order_id x \<notin> order_ids b1"
      using Cons.prems(6) x ids1 by auto
  qed
  have up: "map_of (AList.update iid b1 books) iid = Some b1" and bi': "book_instrument b1 = iid"
    using bi Cons.prems(3) by (simp_all add: update_key_cases)
  obtain placed' res' b' where
    IH: "add_orders_to_book iid os ?placed (touch_result iid o2 (add_fills ts) res)
        (AList.update iid b1 books) = (None, placed', res', AList.update iid b' (AList.update iid b1 books))"
    "book_wf b'" "book_instrument b' = iid" "map ident placed' = map ident (?placed @ os)"
    "\<forall>x \<in> set placed'. coherent b' x" "order_ids b' \<subseteq> order_ids b1 \<union> order_id ` set os"
    using Cons.IH [OF up wf1 bi' coh dist fresh] by blast
  have "add_orders_to_book iid (o1 # os) placed res books =
      (None, placed', res', AList.update iid b' books)"
    using IH(1) Cons.prems(1) run e by (simp add: Let_def)
  moreover have "order_ids b' \<subseteq> order_ids b \<union> order_id ` set (o1 # os)"
    using IH(6) ids1 by auto
  ultimately show ?case
    using IH same by (auto simp: comp_def)
qed

section \<open>Reading the shared orders back\<close>

lemma find_by_id:
  assumes "o1 \<in> ident ` set finals" and "order_id x = order_id o1"
    and "\<forall>y \<in> set finals. \<forall>z \<in> set finals. order_id y = order_id z \<longrightarrow> y = z"
  shows "\<exists>y \<in> set finals. find (\<lambda>y. order_id y = order_id x) finals = Some y \<and> ident y = o1"
proof -
  obtain y where y: "y \<in> set finals" "ident y = o1"
    using assms(1) by auto
  then have id: "order_id y = order_id x"
    using assms(2) by (auto simp: ident_def)
  obtain z where z: "find (\<lambda>y. order_id y = order_id x) finals = Some z"
    using y(1) id by (cases "find (\<lambda>y. order_id y = order_id x) finals") (auto simp: find_None_iff)
  then have "z \<in> set finals" "order_id z = order_id x"
    by (auto simp: find_Some_iff)
  then have "z = y" using assms(3) y(1) id by metis
  with z y show ?thesis by auto
qed

lemma write_back_final:
  assumes "mset (map ident finals) = mset (map ident os)" and "distinct (map order_id os)"
  shows "map ident (write_back finals os) = map ident os \<and> set (write_back finals os) \<subseteq> set finals"
proof -
  have "distinct (map order_id finals)"
    using mset_ident_ids [OF assms(1)] assms(2) by (metis mset_eq_imp_distinct_iff)
  then have uniq: "\<forall>y \<in> set finals. \<forall>z \<in> set finals. order_id y = order_id z \<longrightarrow> y = z"
    by (auto simp: distinct_map inj_on_def)
  have sets: "ident ` set finals = ident ` set os"
    using arg_cong [OF assms(1), of set_mset] by simp
  have "\<exists>y \<in> set finals. find (\<lambda>y. order_id y = order_id x) finals = Some y \<and> ident y = ident x"
    if "x \<in> set os" for x
    using that sets by (intro find_by_id [OF _ _ uniq]) (auto simp: ident_def)
  then show ?thesis
    by (fastforce simp: write_back_def)
qed

section \<open>One instrument\<close>

definition batch_ok :: "order_book \<Rightarrow> order list \<Rightarrow> bool" where
  "batch_ok b os \<longleftrightarrow>
     book_wf b \<and> distinct (map order_id os) \<and>
     (\<forall>x \<in> set os. batch_order (book_instrument b) x \<and> order_id x \<notin> order_ids b)"

lemma with_trades_keeps [simp]:
  "order_ids (with_trades ts b) = order_ids b" "book_instrument (with_trades ts b) = book_instrument b"
  by (simp_all add: with_trades_def)

lemma length_push_trades: "length hist \<le> max_recent_trades \<Longrightarrow> length (push_trades ts hist) \<le> max_recent_trades"
  by (induction ts arbitrary: hist) (auto simp: length_push_bounded)

lemma with_trades_wf [wf_intros]: "book_wf b \<Longrightarrow> book_wf (with_trades ts b)"
  by (simp add: with_trades_def book_wf_def index_ok_def resting_def uncrossed_def side_orders_def
      book_side_def length_push_trades)

lemma match_instrument_ok:
  assumes b: "map_of books iid = Some b" "book_instrument b = iid" and ok: "batch_ok b os"
  shows "\<exists>os' res' b'. match_instrument draw iid os res books =
      (None, os', res', AList.update iid b' books) \<and>
    book_wf b' \<and> book_instrument b' = iid \<and> map ident os' = map ident os \<and>
    (\<forall>x \<in> set os'. coherent b' x) \<and> order_ids b' \<subseteq> order_ids b \<union> order_id ` set os"
proof -
  let ?buys = "randomize_same_price_orders (draw BUY) (filter (\<lambda>o1. side o1 = BUY) os) True"
  let ?sells = "randomize_same_price_orders (draw SELL) (filter (\<lambda>o1. side o1 = SELL) os) False"
  have sides: "filter (\<lambda>o1. side o1 = SELL) xs = filter (\<lambda>o1. side o1 \<noteq> BUY) xs" for xs
    by (rule filter_cong) (auto intro: order_side.exhaust)
  have all: "mset (?buys @ ?sells) = mset os"
    by (simp add: sides)
  have dist: "distinct (map order_id (?buys @ ?sells))"
    using ok mset_eq_imp_distinct_iff [of "map order_id (?buys @ ?sells)" "map order_id os"]
    by (simp add: batch_ok_def sides flip: image_mset_union)
  have mem: "\<forall>x \<in> set (?buys @ ?sells). batch_order iid x \<and> order_id x \<notin> order_ids b"
    using ok b(2) by (auto simp: batch_ok_def)
  then have valid: "\<forall>x \<in> set ?buys. batch_order iid x" "\<forall>x \<in> set ?sells. batch_order iid x"
    by auto
  obtain ts dn bs' ss' where cross: "auction_cross ?buys ?sells = (ts, dn, bs', ss')"
    by (metis surj_pair)
  have "order_id ` set ?buys \<inter> order_id ` set ?sells = {}"
    using dist by auto
  from batch_cross_refines [OF cross valid b(1) this, of "[]" res] obtain res1 where
    bc: "batch_cross ?buys ?sells [] res books =
      (None, bs', ss', dn, res1, AList.update iid (with_trades ts b) books)"
    by auto
  from auction_cross_conserves [OF cross valid]
  have dn: "\<forall>x \<in> set dn. is_filled x \<and> order_ok x"
    and raw: "mset (map ident (dn @ bs' @ ss')) = mset (map ident (?buys @ ?sells))"
    by blast+
  have same: "mset (map ident (dn @ bs' @ ss')) = mset (map ident os)"
    by (rule trans [OF raw]) (simp only: mset_map all)
  have ids: "mset (map order_id (dn @ bs' @ ss')) = mset (map order_id os)"
    using same by (rule mset_ident_ids)
  then have dist': "distinct (map order_id (dn @ bs' @ ss'))"
    using ok mset_eq_imp_distinct_iff unfolding batch_ok_def by metis
  have fresh: "order_id x \<notin> order_ids b" if "x \<in> set (dn @ bs' @ ss')" for x
  proof -
    have "order_id x \<in> order_id ` set os"
      using that arg_cong [OF ids, of set_mset] by auto
    with ok show ?thesis by (auto simp: batch_ok_def)
  qed
  let ?b = "with_trades ts b"
  have rest: "\<forall>x \<in> set (bs' @ ss'). batch_order iid x \<and> order_id x \<notin> order_ids ?b"
    using auction_cross_suffix [OF cross valid] fresh by auto
  have "map_of (AList.update iid ?b books) iid = Some ?b" "book_wf ?b" "book_instrument ?b = iid"
    "\<forall>x \<in> set []. coherent ?b x" "distinct (map order_id ([] @ bs' @ ss'))"
    using ok b dist' by (auto simp: update_key_cases batch_ok_def intro: with_trades_wf)
  from add_orders_to_book_ok [OF this rest, of res1]
  obtain placed res' b' where
    placed: "add_orders_to_book iid (bs' @ ss') [] res1 (AList.update iid ?b books) =
        (None, placed, res', AList.update iid b' books)"
      "book_wf b'" "book_instrument b' = iid" "map ident placed = map ident (bs' @ ss')"
      "\<forall>x \<in> set placed. coherent b' x" "order_ids b' \<subseteq> order_ids b \<union> order_id ` set (bs' @ ss')"
    unfolding with_trades_keeps update_update append_Nil by blast
  have "coherent b' x" if "x \<in> set dn" for x
  proof -
    have "order_id x \<notin> order_id ` set (bs' @ ss')"
      using dist' that by auto
    then have "order_id x \<notin> order_ids b'"
      using placed(6) fresh [of x] that by auto
    with dn that show ?thesis by (simp add: coherent_def)
  qed
  moreover have "mset (map ident (dn @ placed)) = mset (map ident os)"
    using same placed(4) by simp
  then have "map ident (write_back (dn @ placed) os) = map ident os \<and>
      set (write_back (dn @ placed) os) \<subseteq> set (dn @ placed)"
    using ok by (intro write_back_final) (simp_all add: batch_ok_def)
  ultimately have "map ident (write_back (dn @ placed) os) = map ident os \<and>
      (\<forall>x \<in> set (write_back (dn @ placed) os). coherent b' x)"
    using placed(5) by auto
  moreover have "order_id ` set (bs' @ ss') \<subseteq> order_id ` set os"
    using arg_cong [OF ids, of set_mset] by auto
  then have "order_ids b' \<subseteq> order_ids b \<union> order_id ` set os"
    using placed(6) by blast
  ultimately show ?thesis
    using bc placed(1-3) b(1) by (auto simp: match_instrument_def Let_def intro!: exI [of _ b'])
qed

section \<open>All instruments\<close>

definition pending_ok :: "pending \<Rightarrow> books \<Rightarrow> bool" where
  "pending_ok p books \<longleftrightarrow>
     distinct (dict_keys p) \<and>
     (\<forall>(iid, os) \<in> set p. distinct (map order_id os) \<and>
        (\<forall>b. map_of books iid = Some b \<longrightarrow> batch_ok b os))"

text \<open>Each entry of the pending table afterwards: the same orders, coherent with the book.\<close>

definition entry_done :: "books \<Rightarrow> books \<Rightarrow> string \<times> order list \<Rightarrow> string \<times> order list \<Rightarrow> bool" where
  "entry_done books books' e e' \<longleftrightarrow>
     fst e' = fst e \<and> map ident (snd e') = map ident (snd e) \<and>
     (case map_of books' (fst e) of None \<Rightarrow> snd e' = snd e
      | Some b' \<Rightarrow> (\<forall>x \<in> set (snd e'). coherent b' x) \<and>
          (\<exists>b. map_of books (fst e) = Some b \<and>
             order_ids b' \<subseteq> order_ids b \<union> order_id ` set (snd e)))"

lemma match_batch_orders_ok:
  assumes "pending_ok p books" and "books_ok books"
  shows "\<exists>p' res' books'. match_batch_orders draw p res books = (None, p', res', books') \<and>
    books_ok books' \<and> list_all2 (entry_done books books') p p' \<and>
    dict_keys books' = dict_keys books \<and>
    (\<forall>iid. iid \<notin> set (dict_keys p) \<longrightarrow> map_of books' iid = map_of books iid)"
  using assms
proof (induction p arbitrary: res books)
  case (Cons e p)
  obtain iid os where e: "e = (iid, os)" by force
  have new: "iid \<notin> set (dict_keys p)" "distinct (map order_id os)"
    using Cons.prems(1) by (auto simp: e pending_ok_def)
  obtain os' res1 books1 where run: "match_instrument (draw iid) iid os res books = (None, os', res1, books1)"
    and ok1: "books_ok books1" and same: "map ident os' = map ident os"
    and dom1: "dict_keys books1 = dict_keys books"
    and others: "\<forall>i. i \<noteq> iid \<longrightarrow> map_of books1 i = map_of books i"
    and fin: "entry_done books books1 (iid, os) (iid, os')"
  proof (cases "map_of books iid")
    case None
    then have "match_instrument (draw iid) iid os res books = (None, os, res, books)"
      by (simp add: match_instrument_def)
    with that None Cons.prems(2) show ?thesis by (simp add: entry_done_def)
  next
    case (Some b)
    have "book_instrument b = iid" "batch_ok b os"
      using Cons.prems Some by (auto simp: e pending_ok_def books_ok_def)
    from match_instrument_ok [OF Some this, of "draw iid" res] obtain os' res' b' where
      "match_instrument (draw iid) iid os res books = (None, os', res', AList.update iid b' books)"
      "book_wf b'" "book_instrument b' = iid" "map ident os' = map ident os" "\<forall>x \<in> set os'. coherent b' x"
      "order_ids b' \<subseteq> order_ids b \<union> order_id ` set os"
      by blast
    moreover have "iid \<in> set (dict_keys books)"
      using map_of_in_set [OF Some] by force
    ultimately show ?thesis
      using that [of os' res' "AList.update iid b' books"] Some Cons.prems(2)
      by (simp add: update_key_cases books_ok_def entry_done_def dict_keys_update)
  qed
  have "\<forall>(i, os) \<in> set p. i \<noteq> iid"
    using new by (auto simp: rev_image_eqI)
  then have "pending_ok p books1"
    using Cons.prems(1) others by (fastforce simp: e pending_ok_def)
  from Cons.IH [OF this ok1, of res1] obtain p' res' books' where
    rest: "match_batch_orders draw p res1 books1 = (None, p', res', books')" "books_ok books'"
      "list_all2 (entry_done books1 books') p p'" "dict_keys books' = dict_keys books1"
      "\<forall>i. i \<notin> set (dict_keys p) \<longrightarrow> map_of books' i = map_of books1 i"
    by blast
  have "entry_done books books' (iid, os) (iid, os')"
    using rest(5) new(1) fin by (simp add: entry_done_def)
  moreover have "list_all2 (entry_done books books') p p'"
  proof (rule list.rel_mono_strong [OF rest(3)])
    fix e e'
    assume "e \<in> set p" and "entry_done books1 books' e e'"
    moreover from this have "fst e \<noteq> iid" using new(1) by auto
    ultimately show "entry_done books books' e e'"
      using others by (simp add: entry_done_def split: option.splits)
  qed
  ultimately show ?case
    using run rest(1,2,4,5) dom1 others by (auto simp: e)
qed simp

section \<open>Finalising the results\<close>

definition result_of :: "results \<Rightarrow> string \<Rightarrow> string \<Rightarrow> order_result option" where
  "result_of res iid oid = (case map_of res iid of None \<Rightarrow> None | Some m \<Rightarrow> map_of m oid)"

lemma result_of_touch:
  "result_of (touch_result iid o1 f res) iid' oid =
     (if iid' = iid \<and> oid = order_id o1 then
        Some (f (case result_of res iid oid of
                   None \<Rightarrow> \<lparr>r_order_id = order_id o1, status = ''new'', fills = [],
                            r_remaining = remaining_quantity o1, error_code = None,
                            error_message = None\<rparr>
                 | Some r \<Rightarrow> r))
      else result_of res iid' oid)"
  by (auto simp: result_of_def touch_result_def Let_def update_key_cases split: option.splits)

text \<open>What a finalised result says of the final state of its order.\<close>

definition reports :: "order_result option \<Rightarrow> order \<Rightarrow> bool" where
  "reports ro x \<longleftrightarrow>
     (case ro of None \<Rightarrow> False
      | Some r \<Rightarrow> r_remaining r = remaining_quantity x \<and> status r = order_status x (fills r))"

lemma reports_finalize_order:
  "reports (result_of (finalize_order iid x res) iid (order_id x)) x"
  by (simp add: reports_def finalize_order_def result_of_touch)

lemma result_of_finalize_order_other:
  "iid' \<noteq> iid \<or> oid \<noteq> order_id x \<Longrightarrow>
   result_of (finalize_order iid x res) iid' oid = result_of res iid' oid"
  by (auto simp: finalize_order_def result_of_touch)

lemma result_of_finalize_instrument_other:
  "iid' \<noteq> iid \<or> oid \<notin> order_id ` set os \<Longrightarrow>
   result_of (finalize_instrument iid os res) iid' oid = result_of res iid' oid"
  by (induction os arbitrary: res) (auto simp: finalize_instrument_def result_of_finalize_order_other)

lemma reports_finalize_instrument:
  assumes "distinct (map order_id os)" and "x \<in> set os"
  shows "reports (result_of (finalize_instrument iid os res) iid (order_id x)) x"
  using assms
proof (induction os arbitrary: res)
  case (Cons y os)
  show ?case
  proof (cases "x = y")
    case True
    have "finalize_instrument iid (y # os) res = finalize_instrument iid os (finalize_order iid y res)"
      by (simp add: finalize_instrument_def)
    with True Cons.prems(1) show ?thesis
      by (simp add: result_of_finalize_instrument_other reports_finalize_order)
  qed (use Cons in \<open>simp add: finalize_instrument_def\<close>)
qed simp

lemma result_of_finalize_other:
  "iid \<notin> set (dict_keys p) \<Longrightarrow> result_of (finalize_results p res) iid oid = result_of res iid oid"
  by (induction p res rule: finalize_results.induct) (auto simp: result_of_finalize_instrument_other)

lemma reports_finalize:
  assumes "distinct (dict_keys p)" and "(iid, os) \<in> set p"
    and "distinct (map order_id os)" and "x \<in> set os"
  shows "reports (result_of (finalize_results p res) iid (order_id x)) x"
  using assms(1,2)
proof (induction p arbitrary: res)
  case (Cons e p)
  show ?case
  proof (cases "e = (iid, os)")
    case True
    with Cons.prems assms(3,4) show ?thesis
      by (simp add: result_of_finalize_other reports_finalize_instrument)
  next
    case False
    then show ?thesis using Cons by (cases e) auto
  qed
qed simp

lemma batch_execute_reports:
  assumes "pending_ok p books" and "books_ok books"
  shows "\<exists>res books'. batch_execute draw p books = (Inr res, [], books') \<and> books_ok books' \<and>
    dict_keys books' = dict_keys books \<and>
    (\<forall>iid. iid \<notin> set (dict_keys p) \<longrightarrow> map_of books' iid = map_of books iid) \<and>
    (\<forall>(iid, os) \<in> set p. \<forall>b'. map_of books' iid = Some b' \<longrightarrow>
       (\<exists>b. map_of books iid = Some b \<and> order_ids b' \<subseteq> order_ids b \<union> order_id ` set os)) \<and>
    (\<forall>(iid, os) \<in> set p. \<forall>x \<in> set os. \<exists>x'. ident x' = ident x \<and>
       reports (result_of res iid (order_id x)) x' \<and>
       (\<forall>b'. map_of books' iid = Some b' \<longrightarrow> coherent b' x'))"
proof -
  from match_batch_orders_ok [OF assms, of draw "[]"] obtain p' res' books' where
    run: "match_batch_orders draw p [] books = (None, p', res', books')" "books_ok books'"
      "list_all2 (entry_done books books') p p'"
    and doms: "dict_keys books' = dict_keys books"
      "\<forall>iid. iid \<notin> set (dict_keys p) \<longrightarrow> map_of books' iid = map_of books iid"
    by blast
  have keys: "dict_keys p' = dict_keys p"
    using run(3) by (induction rule: list_all2_induct) (auto simp: entry_done_def)
  have "\<exists>x'. ident x' = ident x \<and> reports (result_of (finalize_results p' res') iid (order_id x)) x' \<and>
      (\<forall>b'. map_of books' iid = Some b' \<longrightarrow> coherent b' x')"
    if e: "(iid, os) \<in> set p" and x: "x \<in> set os" for iid os x
  proof -
    from run(3) e have "\<exists>e' \<in> set p'. entry_done books books' (iid, os) e'"
      by (induction rule: list_all2_induct) auto
    then obtain os' where e': "(iid, os') \<in> set p'" and done': "entry_done books books' (iid, os) (iid, os')"
      by (force simp: entry_done_def)
    then have same: "map ident os' = map ident os"
      by (simp add: entry_done_def)
    then obtain x' where x': "x' \<in> set os'" "ident x' = ident x"
      using x by (metis (mono_tags, lifting) imageE imageI list.set_map)
    have "distinct (map order_id os)"
      using assms(1) e by (auto simp: pending_ok_def)
    then have "distinct (map order_id os')"
      using same by (metis ident_order_id_map map_map)
    then have "reports (result_of (finalize_results p' res') iid (order_id x')) x'"
      using assms(1) keys e' x'(1) by (intro reports_finalize) (simp_all add: pending_ok_def)
    moreover have "\<forall>b'. map_of books' iid = Some b' \<longrightarrow> coherent b' x'"
      using done' x'(1) by (simp add: entry_done_def split: option.splits)
    ultimately show ?thesis
      using x'(2) ident_order_id [OF x'(2)] by metis
  qed
  moreover have "\<exists>b. map_of books iid = Some b \<and> order_ids b' \<subseteq> order_ids b \<union> order_id ` set os"
    if e: "(iid, os) \<in> set p" and b': "map_of books' iid = Some b'" for iid os b'
  proof -
    from run(3) e have "\<exists>e' \<in> set p'. entry_done books books' (iid, os) e'"
      by (induction rule: list_all2_induct) auto
    with b' show ?thesis by (auto simp: entry_done_def)
  qed
  ultimately show ?thesis
    using run(1,2) doms by (simp add: batch_execute_def) blast
qed

end
