(* ===== verification/Engine_Properties.thy ===== *)
theory Engine_Properties
  imports Batch_Execution Book_Properties
begin

text \<open>
  The properties of the two matching engines, with witnesses on the concrete book of
  \<open>Book_Properties\<close> and a small batch.
\<close>

section \<open>The continuous engine\<close>

lemma total_traded_zero: "\<forall>t \<in> set ts. 0 < t_quantity t \<Longrightarrow> total_traded ts = 0 \<longleftrightarrow> ts = []"
proof (induction ts)
  case (Cons t ts)
  have "0 \<le> total_traded ts"
    using Cons.prems by (intro sum_list_nonneg) (auto intro: less_imp_le)
  with Cons.prems show ?case by (auto simp: add_pos_nonneg less_imp_neq [symmetric])
qed simp

text \<open>
  C35: on a well-formed book the continuous engine accepts every valid fresh order; the
  fills and the remaining quantity of the result add up to the order's quantity, the status
  is filled, partially_filled or new exactly as the fills say, and the order is in the book
  afterwards only if it is a limit order with quantity left: an unmatched market order is
  reported as new although it rests nowhere.
\<close>

theorem continuous_result:
  assumes "book_wf b" and "addable o1 b" and "remaining_quantity o1 = quantity o1"
    and "continuous_submit o1 b = (r, o2, b')"
  shows "\<exists>x. r = Inr x \<and> book_wf b' \<and> total_traded (fills x) + r_remaining x = quantity o1 \<and>
    (status x = ''filled'' \<longleftrightarrow> r_remaining x = 0) \<and>
    (status x = ''partially_filled'' \<longleftrightarrow> r_remaining x \<noteq> 0 \<and> fills x \<noteq> []) \<and>
    (status x = ''new'' \<longleftrightarrow> r_remaining x = quantity o1) \<and>
    (order_id o1 \<in> order_ids b' \<longleftrightarrow> price o1 \<noteq> None \<and> r_remaining x \<noteq> 0)"
proof -
  obtain ts where add: "add_order o1 b = (None, ts, o2, b')"
    and r: "r = Inr \<lparr>r_order_id = order_id o1, status = order_status o2 ts, fills = ts,
              r_remaining = remaining_quantity o2, error_code = None, error_message = None\<rparr>"
    and wf': "book_wf b'" and total: "remaining_quantity o1 = remaining_quantity o2 + total_traded ts"
    by (rule continuous_submit_spec [OF assms(1,2,4)])
  obtain opp where ok: "order_ok o2" 
    and sm: "spec_match (book_instrument b) o1 (side_orders (flip (side o1)) b) = (ts, o2, opp)"
    and sides: "side_orders (flip (side o1)) b' = opp" "side_orders (side o1) b' =
      (if \<not> is_filled o2 \<and> is_limit_order o2 then spec_rest o2 (side_orders (side o1) b)
       else side_orders (side o1) b)"
    by (rule add_order_spec [OF assms(1,2) add])
  note fixed = spec_match_fixed [OF sm]
  have pos: "0 < quantity o1" "0 \<le> remaining_quantity o1"
    using assms(2) by (auto simp: addable_def order_ok_def)
  have fresh: "order_id o1 \<notin> order_ids b"
    using assms(2) by (simp add: addable_def)
  have "\<forall>t \<in> set ts. 0 < t_quantity t"
    using spec_match_trades [OF sm pos(2)] side_orders_positive [OF assms(1)] by blast
  then have none: "total_traded ts = 0 \<longleftrightarrow> ts = []"
    by (rule total_traded_zero)
  have old: "order_id x \<noteq> order_id o1" if "x \<in> set (side_orders sd b)" for x sd
    using in_index(1) [OF assms(1) that] fresh by metis
  have "order_id o1 \<notin> order_id ` set opp"
    using spec_match_ids [OF sm] old by (metis (no_types) imageE subsetD)
  then have "order_id o1 \<in> order_ids b' \<longleftrightarrow> order_id o1 \<in> order_id ` set (side_orders (side o1) b')"
    using resting_ids [OF wf', of "order_id o1"]
    by (metis (no_types) image_iff resting_sides [of _ b' "side o1"] sides(1))
  also have "\<dots> \<longleftrightarrow> \<not> is_filled o2 \<and> is_limit_order o2"
    using old fixed by (simp add: sides(2) set_spec_rest image_iff) metis
  finally have "order_id o1 \<in> order_ids b' \<longleftrightarrow> \<not> is_filled o2 \<and> is_limit_order o2" .
  moreover have "is_limit_order o2 \<longleftrightarrow> price o1 \<noteq> None"
    using order_ok_limit_iff [OF ok] fixed by simp
  ultimately show ?thesis
    using r wf' total none assms(3) pos by (auto simp: order_status_def is_filled_def)
qed

theorem continuous_result_witness:
  "\<exists>r o2 b' x. continuous_submit demo_buy demo_book = (r, o2, b') \<and> r = Inr x \<and>
    total_traded (fills x) + r_remaining x = 7"
proof -
  obtain r o2 b' where run: "continuous_submit demo_buy demo_book = (r, o2, b')"
    by (metis surj_pair)
  have "remaining_quantity demo_buy = quantity demo_buy"
    by (simp add: demo_buy_def)
  from continuous_result [OF demo_book_wf demo_buy_addable this run] run show ?thesis
    by (auto simp: demo_buy_def)
qed

section \<open>The batch engine\<close>

text \<open>
  C17: the opening auction is coherent. For valid pending orders and well-formed books,
  \<open>execute_batch\<close> raises nothing, empties the pending table, keeps every book well formed
  and touches no other book; every pending order gets a result whose remaining quantity and
  status are those of the order object afterwards, and if the order is in the book it rests
  there with exactly that remaining quantity. This holds for every sequence of random draws.
\<close>

theorem batch_execute_coherent:
  assumes "pending_ok p books" and "books_ok books"
  shows "\<exists>res books'. batch_execute draw p books = (Inr res, [], books') \<and> books_ok books' \<and>
    (\<forall>iid. iid \<notin> set (dict_keys p) \<longrightarrow> map_of books' iid = map_of books iid) \<and>
    (\<forall>(iid, os) \<in> set p. \<forall>x \<in> set os. \<exists>x'. ident x' = ident x \<and>
       reports (result_of res iid (order_id x)) x' \<and>
       (\<forall>b'. map_of books' iid = Some b' \<longrightarrow> order_id x \<in> order_ids b' \<longrightarrow> x' \<in> set (resting b')))"
proof -
  from batch_execute_reports [OF assms, of draw] obtain res books' where
    run: "batch_execute draw p books = (Inr res, [], books')" "books_ok books'"
      "\<forall>iid. iid \<notin> set (dict_keys p) \<longrightarrow> map_of books' iid = map_of books iid"
    and each: "\<forall>(iid, os) \<in> set p. \<forall>x \<in> set os. \<exists>x'. ident x' = ident x \<and>
       reports (result_of res iid (order_id x)) x' \<and>
       (\<forall>b'. map_of books' iid = Some b' \<longrightarrow> coherent b' x')"
    by blast
  have "\<forall>(iid, os) \<in> set p. \<forall>x \<in> set os. \<exists>x'. ident x' = ident x \<and>
       reports (result_of res iid (order_id x)) x' \<and>
       (\<forall>b'. map_of books' iid = Some b' \<longrightarrow> order_id x \<in> order_ids b' \<longrightarrow> x' \<in> set (resting b'))"
    using each unfolding coherent_def by (fastforce dest: ident_order_id)
  with run show ?thesis by blast
qed

definition demo_batch :: "order list" where
  "demo_batch = [demo_order ''p1'' BUY 6 (Some 130) ''T1'', demo_order ''p2'' SELL 4 (Some 125) ''T2'']"

lemma demo_batch_ok: "batch_ok demo_book demo_batch"
  using demo_book_wf by (auto simp: batch_ok_def demo_batch_def batch_order_def intro: demo_order_ok)

lemma demo_books_ok: "books_ok [(''SPX'', demo_book)]"
  using demo_book_wf by (simp add: books_ok_def)

theorem batch_execute_coherent_witness:
  "\<exists>res books'. batch_execute (\<lambda>_ _ _. 0) [(''SPX'', demo_batch)] [(''SPX'', demo_book)] =
    (Inr res, [], books') \<and> books_ok books'"
proof -
  have "pending_ok [(''SPX'', demo_batch)] [(''SPX'', demo_book)]"
    using demo_batch_ok by (simp add: pending_ok_def batch_ok_def)
  from batch_execute_coherent [OF this demo_books_ok] show ?thesis by blast
qed



text \<open>
  one market sell order among the pending orders stops the auction. Its price key is
  0, below every limit price, so it heads the sells, and a market order never satisfies the
  crossing test: nothing crosses, however far the limit orders overlap.
\<close>

theorem market_sell_blocks_auction:
  assumes "\<forall>x \<in> set sells. order_ok x" and "\<exists>x \<in> set sells. price x = None"
  shows "batch_cross buys (randomize_same_price_orders d sells False) [] res books =
    (None, buys, randomize_same_price_orders d sells False, [], res, books)"
proof -
  let ?ss = "randomize_same_price_orders d sells False"
  obtain s ss where eq: "?ss = s # ss"
    using assms(2) by (cases ?ss) (auto dest: arg_cong [of _ _ set])
  obtain m where m: "m \<in> set ?ss" "price m = None"
    using assms(2) by auto
  have "s \<in> set ?ss"
    unfolding eq by simp
  then have ok: "order_ok s"
    using assms(1) by simp
  have "auction_price_key False s \<le> auction_price_key False m"
    using sorted_randomize [of False d sells] m(1) unfolding eq by auto
  then have "price s = None"
    using m(2) ok by (auto simp: auction_price_key_def order_ok_def split: option.splits)
  then have "\<not> crosses x s" for x
    by (simp add: crosses_def split: option.splits)
  then show ?thesis
    unfolding eq by (cases buys) simp_all
qed

theorem market_sell_blocks_auction_witness:
  "batch_cross [demo_order ''p1'' BUY 6 (Some 130) ''T1'']
     (randomize_same_price_orders (\<lambda>_. 0)
        [demo_order ''p2'' SELL 4 (Some 125) ''T2'', demo_order ''p3'' SELL 1 None ''T3''] False)
     [] [] [] =
   (None, [demo_order ''p1'' BUY 6 (Some 130) ''T1''],
    randomize_same_price_orders (\<lambda>_. 0)
        [demo_order ''p2'' SELL 4 (Some 125) ''T2'', demo_order ''p3'' SELL 1 None ''T3''] False,
    [], [], [])"
  by (rule market_sell_blocks_auction) (auto simp: order_ok_def)

text \<open>
  The results of a batch can under-report: the buy order that rests first and is then hit by
  a sell of the same batch keeps an empty fill list and the status new, with 3 of its 5
  units gone.
\<close>

lemma batch_maker_reported_new:
  "case batch_execute (\<lambda>_ _ _. 0)
      [(''SPX'', [demo_order ''p1'' BUY 5 (Some 100) ''T1'', demo_order ''p2'' SELL 3 None ''T2''])]
      [(''SPX'', new_book ''SPX'')] of
     (Inr res, p, books) \<Rightarrow>
       (case result_of res ''SPX'' ''p1'' of
          Some r \<Rightarrow> fills r = [] \<and> status r = ''new'' \<and> r_remaining r = 2
        | None \<Rightarrow> False)
   | _ \<Rightarrow> False"
  by code_simp

end
