(* ===== verification/Auction_Pricing.thy ===== *)
theory Auction_Pricing
  imports Core_Models
begin

text \<open>
  \<open>components/orderbook/batch_auction_strategies.py\<close>: the maximum-volume clearing price. The
  candidate prices form a Python set; its members are kept in a list without duplicates, and
  nothing below depends on their order.
\<close>

section \<open>The strategy\<close>

record clearing_result =
  clearing_price :: rat
  max_volume :: int
  algorithm :: string
  price_range :: "(rat \<times> rat) option"

definition no_clearing :: clearing_result where
  "no_clearing =
     \<lparr>clearing_price = 0, max_volume = 0, algorithm = ''maximum_volume'', price_range = None\<rparr>"

definition priced :: "order list \<Rightarrow> rat list" where
  "priced os = map (the \<circ> price) (filter (\<lambda>o1. price o1 \<noteq> None) os)"

definition eligible_buy_volume :: "order list \<Rightarrow> rat \<Rightarrow> rat" where
  "eligible_buy_volume buys p =
     sum_list (map quantity (filter (\<lambda>o1. case price o1 of None \<Rightarrow> False | Some x \<Rightarrow> x \<ge> p) buys))"

definition eligible_sell_volume :: "order list \<Rightarrow> rat \<Rightarrow> rat" where
  "eligible_sell_volume sells p =
     sum_list (map quantity (filter (\<lambda>o1. case price o1 of None \<Rightarrow> False | Some x \<Rightarrow> x \<le> p) sells))"

definition calculate_volume_at_price :: "order list \<Rightarrow> order list \<Rightarrow> rat \<Rightarrow> int" where
  "calculate_volume_at_price buys sells p =
     py_int (min (eligible_buy_volume buys p) (eligible_sell_volume sells p))"

definition find_crossing_range :: "order list \<Rightarrow> order list \<Rightarrow> exn + (rat \<times> rat) option" where
  "find_crossing_range buys sells =
     (if priced buys = [] then Inl (ValueError (lit ''max() iterable argument is empty''))
      else if priced sells = [] then Inl (ValueError (lit ''min() iterable argument is empty''))
      else let max_bid = Max (set (priced buys)); min_ask = Min (set (priced sells))
           in Inr (if max_bid < min_ask then None else Some (min_ask, max_bid)))"

definition collect_crossing_prices :: "order list \<Rightarrow> order list \<Rightarrow> rat \<Rightarrow> rat \<Rightarrow> rat list" where
  "collect_crossing_prices buys sells min_ask max_bid =
     remdups (filter (\<lambda>p. min_ask \<le> p \<and> p \<le> max_bid) (priced (buys @ sells)))"

definition find_optimal_prices ::
    "order list \<Rightarrow> order list \<Rightarrow> rat list \<Rightarrow> (rat list \<times> int) option" where
  "find_optimal_prices buys sells prices =
     (if prices = [] then None
      else let best = Max (calculate_volume_at_price buys sells ` set prices)
           in if best = 0 then None
              else Some (filter (\<lambda>p. calculate_volume_at_price buys sells p = best) prices, best))"

definition select_clearing_price :: "rat list \<Rightarrow> exn + rat" where
  "select_clearing_price ps =
     (case ps of
        [] \<Rightarrow> Inl (ValueError (lit ''min() iterable argument is empty''))
      | [p] \<Rightarrow> Inr p
      | _ \<Rightarrow> Inr ((Min (set ps) + Max (set ps)) / 2))"

definition calculate_clearing_price :: "order list \<Rightarrow> order list \<Rightarrow> exn + clearing_result" where
  "calculate_clearing_price buys sells =
     (if buys = [] \<or> sells = [] then Inr no_clearing
      else case find_crossing_range buys sells of
        Inl e \<Rightarrow> Inl e
      | Inr None \<Rightarrow> Inr no_clearing
      | Inr (Some (min_ask, max_bid)) \<Rightarrow>
          (case find_optimal_prices buys sells (collect_crossing_prices buys sells min_ask max_bid) of
             None \<Rightarrow> Inr no_clearing
           | Some (ps, vol) \<Rightarrow>
               (case select_clearing_price ps of
                  Inl e \<Rightarrow> Inl e
                | Inr p \<Rightarrow>
                    if \<not> 0 < p then
                      Inl (AssertionError (lit ''Clearing price must be positive when trades occur''))
                    else if \<not> 0 < vol then
                      Inl (AssertionError (lit ''Max volume must be positive when trades occur''))
                    else Inr \<lparr>clearing_price = p, max_volume = vol, algorithm = ''maximum_volume'',
                              price_range = (if length ps > 1 then Some (Min (set ps), Max (set ps))
                                             else None)\<rparr>)))"

section \<open>Volume as a function of the price\<close>

definition auction_orders :: "order list \<Rightarrow> bool" where
  "auction_orders os \<longleftrightarrow> (\<forall>o1 \<in> set os. order_ok o1)"

lemma volume_mono:
  assumes "\<forall>o1 \<in> set os. order_ok o1" and "\<And>o1. P o1 \<Longrightarrow> Q o1"
  shows "sum_list (map quantity (filter P os)) \<le> sum_list (map quantity (filter Q os))"
  using assms by (induction os) (auto simp: order_ok_def)

lemma buy_volume_antimono:
  "auction_orders os \<Longrightarrow> p \<le> p' \<Longrightarrow> eligible_buy_volume os p' \<le> eligible_buy_volume os p"
  unfolding eligible_buy_volume_def auction_orders_def
  by (rule volume_mono) (auto split: option.splits)

lemma sell_volume_mono:
  "auction_orders os \<Longrightarrow> p \<le> p' \<Longrightarrow> eligible_sell_volume os p \<le> eligible_sell_volume os p'"
  unfolding eligible_sell_volume_def auction_orders_def
  by (rule volume_mono) (auto split: option.splits)

lemma volume_whole:
  "\<forall>o1 \<in> set os. order_ok o1 \<Longrightarrow> sum_list (map quantity (filter P os)) \<in> \<int>"
  by (rule sum_list_Ints) (auto simp: order_ok_def)

lemma volume_nonneg:
  "\<forall>o1 \<in> set os. order_ok o1 \<Longrightarrow> 0 \<le> sum_list (map quantity (filter P os))"
  by (rule sum_list_nonneg) (auto simp: order_ok_def)

lemma volume_exact:
  assumes "auction_orders buys" and "auction_orders sells"
  shows "of_int (calculate_volume_at_price buys sells p) =
    min (eligible_buy_volume buys p) (eligible_sell_volume sells p)"
proof -
  have "min (eligible_buy_volume buys p) (eligible_sell_volume sells p) \<in> \<int>"
    using assms volume_whole
    by (auto simp: min_def eligible_buy_volume_def eligible_sell_volume_def auction_orders_def)
  then show ?thesis by (simp add: calculate_volume_at_price_def flip: whole_iff_Ints)
qed

lemma volume_le_iff:
  assumes "auction_orders buys" and "auction_orders sells"
  shows "v \<le> calculate_volume_at_price buys sells p \<longleftrightarrow>
    of_int v \<le> eligible_buy_volume buys p \<and> of_int v \<le> eligible_sell_volume sells p"
  using volume_exact [OF assms, of p]
  by (metis min.bounded_iff of_int_le_iff)

text \<open>Between two prices the volume is at least the smaller of theirs.\<close>

lemma volume_between:
  assumes ok: "auction_orders buys" "auction_orders sells" and "lo \<le> p" and "p \<le> hi"
    and "v \<le> calculate_volume_at_price buys sells lo" and "v \<le> calculate_volume_at_price buys sells hi"
  shows "v \<le> calculate_volume_at_price buys sells p"
  using assms(3-6) buy_volume_antimono [OF ok(1) assms(4)] sell_volume_mono [OF ok(2) assms(3)]
  by (simp add: volume_le_iff [OF ok])

lemma set_priced: "p \<in> set (priced os) \<longleftrightarrow> (\<exists>o1 \<in> set os. price o1 = Some p)"
  by (auto simp: priced_def image_iff)

lemma buy_volume_zero: "\<forall>p' \<in> set (priced os). p' < p \<Longrightarrow> eligible_buy_volume os p = 0"
proof -
  assume a: "\<forall>p' \<in> set (priced os). p' < p"
  have "\<not> (case price o1 of None \<Rightarrow> False | Some x \<Rightarrow> x \<ge> p)" if "o1 \<in> set os" for o1
    using a that set_priced [of _ os] by (cases "price o1") (auto simp: not_le)
  then show ?thesis by (simp add: eligible_buy_volume_def)
qed

lemma sell_volume_zero: "\<forall>p' \<in> set (priced os). p < p' \<Longrightarrow> eligible_sell_volume os p = 0"
proof -
  assume a: "\<forall>p' \<in> set (priced os). p < p'"
  have "\<not> (case price o1 of None \<Rightarrow> False | Some x \<Rightarrow> x \<le> p)" if "o1 \<in> set os" for o1
    using a that set_priced [of _ os] by (cases "price o1") (auto simp: not_le)
  then show ?thesis by (simp add: eligible_sell_volume_def)
qed

text \<open>Any volume is reached at a bid price of the crossing range.\<close>

lemma volume_at_candidate:
  assumes ok: "auction_orders buys" "auction_orders sells"
    and pos: "0 < calculate_volume_at_price buys sells p"
  shows "\<exists>p'. p' \<in> set (collect_crossing_prices buys sells (Min (set (priced sells))) (Max (set (priced buys)))) \<and>
    calculate_volume_at_price buys sells p \<le> calculate_volume_at_price buys sells p'"
proof -
  let ?B = "{x \<in> set (priced buys). p \<le> x}"
  let ?v = "calculate_volume_at_price buys sells p"
  have vol: "0 < min (eligible_buy_volume buys p) (eligible_sell_volume sells p)"
    using pos volume_exact [OF ok, of p] by (metis of_int_0_less_iff)
  then have ne: "?B \<noteq> {}" and "\<exists>a \<in> set (priced sells). a \<le> p"
    using buy_volume_zero [of buys p] sell_volume_zero [of sells p]
    by (fastforce simp: not_less)+
  then obtain a where a: "a \<in> set (priced sells)" "a \<le> p" by auto
  let ?p = "Min ?B"
  have in_B: "?p \<in> ?B" using ne by (intro Min_in) auto
  have same: "eligible_buy_volume buys ?p = eligible_buy_volume buys p"
  proof -
    have fin: "finite ?B" by simp
    have "(case price o1 of None \<Rightarrow> False | Some x \<Rightarrow> x \<ge> ?p) = (case price o1 of None \<Rightarrow> False | Some x \<Rightarrow> x \<ge> p)"
      if "o1 \<in> set buys" for o1
    proof (cases "price o1")
      case (Some x)
      with that have "x \<in> set (priced buys)" by (auto simp: set_priced)
      then have "p \<le> x \<Longrightarrow> ?p \<le> x" using fin by (intro Min_le) auto
      with in_B Some show ?thesis by auto
    qed simp
    then show ?thesis
      unfolding eligible_buy_volume_def
      by (intro arg_cong [where f = "\<lambda>l. sum_list (map quantity l)"] filter_cong) simp_all
  qed
  have "eligible_sell_volume sells p \<le> eligible_sell_volume sells ?p"
    using ok(2) in_B by (intro sell_volume_mono) auto
  then have "?v \<le> calculate_volume_at_price buys sells ?p"
    using volume_le_iff [OF ok, of ?v p] by (simp add: volume_le_iff [OF ok] same)
  moreover have "Min (set (priced sells)) \<le> ?p"
  proof -
    have "Min (set (priced sells)) \<le> a" using a by simp
    also have "\<dots> \<le> ?p" using a(2) in_B by simp
    finally show ?thesis .
  qed
  moreover have "?p \<le> Max (set (priced buys))" "?p \<in> set (priced (buys @ sells))"
    using in_B by (auto simp: priced_def)
  ultimately show ?thesis
    by (auto simp: collect_crossing_prices_def)
qed

section \<open>The clearing price is optimal\<close>

lemma select_clearing_price_between:
  assumes "ps \<noteq> []"
  shows "\<exists>p. select_clearing_price ps = Inr p \<and> Min (set ps) \<le> p \<and> p \<le> Max (set ps)"
proof -
  have le: "Min (set ps) \<le> Max (set ps)"
    using assms by (intro Max_ge Min_in) auto
  show ?thesis
  proof (cases "length ps = 1")
    case True
    then show ?thesis
      by (cases ps) (auto simp: select_clearing_price_def)
  next
    case False
    with assms have "select_clearing_price ps = Inr ((Min (set ps) + Max (set ps)) / 2)"
      by (auto simp: select_clearing_price_def split: list.splits)
    with le show ?thesis
      by (auto intro!: exI [of _ "(Min (set ps) + Max (set ps)) / 2"] simp: field_simps)
  qed
qed

lemma candidates:
  assumes "p \<in> set (collect_crossing_prices buys sells lo hi)"
  shows "lo \<le> p \<and> p \<le> hi \<and> (\<exists>o1 \<in> set (buys @ sells). price o1 = Some p)"
  using assms by (auto simp: collect_crossing_prices_def set_priced)

lemma find_optimal_Some:
  assumes "find_optimal_prices buys sells ps = Some (best, v)"
  shows "best \<noteq> [] \<and> v \<noteq> 0 \<and> (\<forall>p \<in> set best. p \<in> set ps \<and> calculate_volume_at_price buys sells p = v) \<and>
    (\<forall>p \<in> set ps. calculate_volume_at_price buys sells p \<le> v)"
proof -
  let ?V = "calculate_volume_at_price buys sells ` set ps"
  from assms have ne: "ps \<noteq> []" and v: "v = Max ?V" "v \<noteq> 0"
    and best: "best = filter (\<lambda>p. calculate_volume_at_price buys sells p = v) ps"
    by (auto simp: find_optimal_prices_def Let_def split: if_splits)
  have "v \<in> ?V"
    unfolding v(1) using ne by (intro Max_in) auto
  then have "best \<noteq> []"
    by (auto simp: best filter_empty_conv)
  moreover have "\<forall>p \<in> set ps. calculate_volume_at_price buys sells p \<le> v"
    unfolding v(1) by (intro ballI Max_ge) auto
  ultimately show ?thesis using v(2) by (auto simp: best)
qed

lemma volume_nonnegative:
  assumes "auction_orders buys" and "auction_orders sells"
  shows "0 \<le> calculate_volume_at_price buys sells p"
  using volume_nonneg assms
  by (simp add: volume_le_iff [OF assms] eligible_buy_volume_def eligible_sell_volume_def auction_orders_def)

text \<open>What a pricing strategy promises of its result.\<close>

definition clears_optimally :: "order list \<Rightarrow> order list \<Rightarrow> clearing_result \<Rightarrow> bool" where
  "clears_optimally buys sells r \<longleftrightarrow>
     0 \<le> max_volume r \<and>
     (\<forall>p. calculate_volume_at_price buys sells p \<le> max_volume r) \<and>
     (0 < max_volume r \<longrightarrow> 0 < clearing_price r \<and>
        calculate_volume_at_price buys sells (clearing_price r) = max_volume r)"

lemma no_overlap_no_volume:
  assumes ok: "auction_orders buys" "auction_orders sells"
    and "Max (set (priced buys)) < Min (set (priced sells))"
    and "priced buys \<noteq> []" and "priced sells \<noteq> []"
  shows "calculate_volume_at_price buys sells p \<le> 0"
proof (rule ccontr)
  assume "\<not> ?thesis"
  with volume_at_candidate [OF ok, of p] obtain p' where
    "p' \<in> set (collect_crossing_prices buys sells (Min (set (priced sells))) (Max (set (priced buys))))"
    by auto
  with candidates [OF this] assms(3) show False by simp
qed

lemma one_sided_volume: "auction_orders os \<Longrightarrow> calculate_volume_at_price [] os p \<le> 0"
  "auction_orders os \<Longrightarrow> calculate_volume_at_price os [] p \<le> 0"
  using volume_nonneg [of os]
  by (auto simp: calculate_volume_at_price_def eligible_buy_volume_def eligible_sell_volume_def
      auction_orders_def py_int_def min_def)

lemma calculate_optimal:
  assumes ok: "auction_orders buys" "auction_orders sells"
    and priced: "buys = [] \<or> sells = [] \<or> priced buys \<noteq> [] \<and> priced sells \<noteq> []"
  shows "\<exists>r. calculate_clearing_price buys sells = Inr r \<and> clears_optimally buys sells r"
proof (cases "buys = [] \<or> sells = []")
  case True
  with ok show ?thesis
    by (auto simp: calculate_clearing_price_def clears_optimally_def no_clearing_def one_sided_volume)
next
  case two: False
  let ?hi = "Max (set (priced buys))" and ?lo = "Min (set (priced sells))"
  let ?ps = "collect_crossing_prices buys sells ?lo ?hi"
  let ?vol = "calculate_volume_at_price buys sells"
  have ne: "priced buys \<noteq> []" "priced sells \<noteq> []"
    using priced two by auto
  show ?thesis
  proof (cases "?hi < ?lo")
    case True
    then show ?thesis
      using two ne no_overlap_no_volume [OF ok True ne]
      by (auto simp: calculate_clearing_price_def find_crossing_range_def clears_optimally_def no_clearing_def)
  next
    case cross: False
    have range: "find_crossing_range buys sells = Inr (Some (?lo, ?hi))"
      using ne cross by (simp add: find_crossing_range_def)
    show ?thesis
    proof (cases "find_optimal_prices buys sells ?ps")
      case None
      have "?vol p \<le> 0" for p
      proof (rule ccontr)
        assume pos: "\<not> ?vol p \<le> 0"
        with volume_at_candidate [OF ok, of p] obtain p' where p': "p' \<in> set ?ps" "0 < ?vol p'"
          by auto
        then have "?vol p' \<le> Max (?vol ` set ?ps)" by simp
        moreover have "Max (?vol ` set ?ps) = 0"
          using None p'(1) by (auto simp: find_optimal_prices_def Let_def split: if_splits)
        ultimately show False using p'(2) by linarith
      qed
      with None range two show ?thesis
        by (auto simp: calculate_clearing_price_def clears_optimally_def no_clearing_def)
    next
      case (Some bv)
      obtain best v where bv: "bv = (best, v)" by force
      note opt = find_optimal_Some [OF Some [unfolded bv]]
      then have fin: "finite (set best)" "set best \<noteq> {}" by auto
      from opt select_clearing_price_between obtain p where
        p: "select_clearing_price best = Inr p" "Min (set best) \<le> p" "p \<le> Max (set best)"
        by blast
      have in_best: "Min (set best) \<in> set best" "Max (set best) \<in> set best"
        using fin by (auto intro: Min_in Max_in)
      then have "v \<le> ?vol p"
        using opt p(2,3) by (intro volume_between [OF ok p(2,3)]) auto
      moreover have all: "?vol q \<le> v" for q
      proof (cases "0 < ?vol q")
        case True
        with volume_at_candidate [OF ok True] opt show ?thesis by fastforce
      next
        case False
        have "0 \<le> v" using volume_nonnegative [OF ok, of p] opt in_best volume_nonnegative [OF ok]
          by metis
        with False show ?thesis by simp
      qed
      moreover have "0 < v"
        using opt in_best volume_nonnegative [OF ok] by (metis order_le_less)
      moreover have "0 < p"
      proof -
        have "Min (set best) \<in> set ?ps" using opt in_best by blast
        then obtain o1 where "o1 \<in> set (buys @ sells)" "price o1 = Some (Min (set best))"
          using candidates by blast
        then have "0 < Min (set best)"
          using ok by (auto simp: auction_orders_def order_ok_def)
        with p(2) show ?thesis by simp
      qed
      ultimately show ?thesis
        using range Some two p(1) order_antisym [OF all [of p]]
        by (auto simp: calculate_clearing_price_def bv clears_optimally_def)
    qed
  qed
qed

section \<open>The strategy interface\<close>

text \<open>
  \<open>BatchAuctionPricingStrategy\<close>: any strategy that clears optimally on priced orders gives
  every trader a price inside his limit, for the volume it announces.
\<close>

locale pricing_strategy =
  fixes calculate :: "order list \<Rightarrow> order list \<Rightarrow> exn + clearing_result"
  assumes optimal: "auction_orders buys \<Longrightarrow> auction_orders sells \<Longrightarrow>
      priced buys \<noteq> [] \<Longrightarrow> priced sells \<noteq> [] \<Longrightarrow>
      \<exists>r. calculate buys sells = Inr r \<and> clears_optimally buys sells r"
begin

lemma tradable_at_price:
  assumes ok: "auction_orders buys" "auction_orders sells"
    and "priced buys \<noteq> []" and "priced sells \<noteq> []"
    and "calculate buys sells = Inr r"
  shows "of_int (max_volume r) \<le> eligible_buy_volume buys (clearing_price r) \<or> max_volume r = 0"
    and "of_int (max_volume r) \<le> eligible_sell_volume sells (clearing_price r) \<or> max_volume r = 0"
proof -
  have r: "clears_optimally buys sells r"
    using optimal [OF assms(1-4)] assms(5) by auto
  show "of_int (max_volume r) \<le> eligible_buy_volume buys (clearing_price r) \<or> max_volume r = 0"
    "of_int (max_volume r) \<le> eligible_sell_volume sells (clearing_price r) \<or> max_volume r = 0"
    using r volume_le_iff [OF ok, of "max_volume r" "clearing_price r"]
    by (auto simp: clears_optimally_def)
qed

lemma best_volume_unique:
  assumes ok: "auction_orders buys" "auction_orders sells"
    and "priced buys \<noteq> []" and "priced sells \<noteq> []"
    and "calculate buys sells = Inr r" and "clears_optimally buys sells r'"
  shows "max_volume r = max_volume r'"
proof -
  have r: "clears_optimally buys sells r"
    using optimal [OF assms(1-4)] assms(5) by auto
  have "max_volume x \<le> max_volume y" if "clears_optimally buys sells x" "clears_optimally buys sells y" for x y
    using that unfolding clears_optimally_def by (metis linorder_not_le order_le_less_trans order_less_irrefl)
  with r assms(6) show ?thesis by (simp add: order_antisym)
qed

end

interpretation maximum_volume: pricing_strategy calculate_clearing_price
  by unfold_locales (rule calculate_optimal, auto)

section \<open>Properties\<close>

text \<open>
  C24: the maximum-volume price is optimal over all prices, not only over the order prices
  the code tries: no price whatsoever trades more than the announced volume, and the
  announced price, the midpoint of the best prices included, is positive and trades exactly
  that volume. On a side that has orders but no limit price the computation raises the
  ValueError of \<open>max\<close> or \<open>min\<close> of an empty sequence.
\<close>

theorem clearing_price_optimal:
  assumes "auction_orders buys" and "auction_orders sells" and "buys \<noteq> []" and "sells \<noteq> []"
  shows "if priced buys \<noteq> [] \<and> priced sells \<noteq> [] then
      \<exists>r. calculate_clearing_price buys sells = Inr r \<and>
        (\<forall>p. calculate_volume_at_price buys sells p \<le> max_volume r) \<and>
        (0 < max_volume r \<longrightarrow> 0 < clearing_price r \<and>
           calculate_volume_at_price buys sells (clearing_price r) = max_volume r)
    else \<exists>m. calculate_clearing_price buys sells = Inl (ValueError m)"
proof (cases "priced buys \<noteq> [] \<and> priced sells \<noteq> []")
  case True
  with calculate_optimal [OF assms(1,2)] show ?thesis
    by (auto simp: clears_optimally_def)
next
  case False
  with assms(3,4) show ?thesis
    by (auto simp: calculate_clearing_price_def find_crossing_range_def)
qed

definition auction_order :: "string \<Rightarrow> order_side \<Rightarrow> rat \<Rightarrow> rat \<Rightarrow> order" where
  "auction_order oid sd q p =
     \<lparr>instrument_id = ''SPX'', side = sd, quantity = q, trader_id = oid, price = Some p,
      order_id = oid, order_type = LIMIT, client_order_id = None, remaining_quantity = q\<rparr>"

text \<open>Bids of 10 at 102 and at 98, asks of 6 at 99 and 5 at 101: eleven lots want 101 to 102.\<close>

theorem clearing_price_optimal_witness:
  "let buys = [auction_order ''b1'' BUY 10 102, auction_order ''b2'' BUY 10 98];
       sells = [auction_order ''s1'' SELL 6 99, auction_order ''s2'' SELL 5 101]
   in \<exists>r. calculate_clearing_price buys sells = Inr r \<and>
        (\<forall>p. calculate_volume_at_price buys sells p \<le> max_volume r) \<and> max_volume r = 10"
proof -
  let ?buys = "[auction_order ''b1'' BUY 10 102, auction_order ''b2'' BUY 10 98]"
  let ?sells = "[auction_order ''s1'' SELL 6 99, auction_order ''s2'' SELL 5 101]"
  have ok: "auction_orders ?buys" "auction_orders ?sells"
    by (auto simp: auction_orders_def order_ok_def auction_order_def)
  have "priced ?buys \<noteq> [] \<and> priced ?sells \<noteq> []"
    by (simp add: priced_def auction_order_def)
  with clearing_price_optimal [OF ok] obtain r where
    r: "calculate_clearing_price ?buys ?sells = Inr r"
      "\<forall>p. calculate_volume_at_price ?buys ?sells p \<le> max_volume r"
    by auto
  have "map_sum id max_volume (calculate_clearing_price ?buys ?sells) = Inr 10"
    by code_simp
  with r show ?thesis by (simp add: Let_def)
qed

end
