(* ===== verification/Phases.thy ===== *)
theory Phases
  imports Core_Models
begin

text \<open>
  The market phases: \<open>exchange/phase/manager.py\<close> (which phase the schedule gives for a
  moment) and \<open>exchange/phase/transition_handler.py\<close> (what the exchange does when the phase
  it sees changes).

  A moment is a weekday name and a time of day in seconds. The zone conversion of
  \<open>zoneinfo\<close> is a parameter: it maps an aware timestamp to the market's wall clock.
\<close>

section \<open>Times of day\<close>

text \<open>
  \<open>time.fromisoformat\<close>: hours, hours and minutes, or hours, minutes and seconds with an
  optional fraction of three or six digits. These are the forms that every supported Python
  version reads. Version 3.11 and later read some more (no colons, other fractions), and all
  read a zone offset, whose comparison with the naive market time would raise; such strings
  count as unreadable here.
\<close>

definition two_digits :: "char \<Rightarrow> char \<Rightarrow> nat option" where
  "two_digits a b =
     (case (digit a, digit b) of (Some x, Some y) \<Rightarrow> Some (10 * x + y) | _ \<Rightarrow> None)"

fun digit_pairs :: "string \<Rightarrow> (nat list \<times> string) option" where
  "digit_pairs (a # b # rest) =
     (case two_digits a b of
        None \<Rightarrow> None
      | Some x \<Rightarrow>
          (case rest of
             [] \<Rightarrow> Some ([x], [])
           | c # tail \<Rightarrow>
               if c = CHR '':'' then map_option (\<lambda>(xs, r). (x # xs, r)) (digit_pairs tail)
               else Some ([x], rest)))"
| "digit_pairs _ = None"

definition read_fraction :: "string \<Rightarrow> rat option" where
  "read_fraction r =
     (case r of
        [] \<Rightarrow> Some 0
      | c # ds \<Rightarrow>
          if c = CHR ''.'' \<and> length ds \<in> {3, 6} \<and> (\<forall>x \<in> set ds. digit x \<noteq> None)
          then Some (of_nat (digits_value ds) / 10 ^ length ds) else None)"

definition day_seconds :: "nat \<Rightarrow> nat \<Rightarrow> nat \<Rightarrow> rat \<Rightarrow> rat option" where
  "day_seconds h m s f =
     (if h < 24 \<and> m < 60 \<and> s < 60 then Some (of_nat (3600 * h + 60 * m + s) + f) else None)"

definition read_time :: "string \<Rightarrow> rat option" where
  "read_time t =
     (case digit_pairs t of
        Some ([h], []) \<Rightarrow> day_seconds h 0 0 0
      | Some ([h, m], []) \<Rightarrow> day_seconds h m 0 0
      | Some ([h, m, s], r) \<Rightarrow>
          (case read_fraction r of None \<Rightarrow> None | Some f \<Rightarrow> day_seconds h m s f)
      | _ \<Rightarrow> None)"

definition time_fromisoformat :: "string \<Rightarrow> exn + rat" where
  "time_fromisoformat s =
     (case read_time s of
        None \<Rightarrow> Inl (ValueError [Txt ''Invalid isoformat string: '', Txt s])
      | Some t \<Rightarrow> Inr t)"

section \<open>The schedule\<close>

record phase_schedule =
  start_time :: string
  end_time :: string
  weekdays :: "string list"

record market_phases =
  timezone :: string
  schedule :: "(string, phase_schedule) dict"
  phase_states :: "(string, phase_state_config) dict"

type_synonym wall = "string \<times> rat"

text \<open>The loop over the schedule, for a weekday and a time of day.\<close>

fun phase_at :: "(string, phase_schedule) dict \<Rightarrow> wall \<Rightarrow> exn + phase_type" where
  "phase_at [] w = Inr CLOSED"
| "phase_at ((name, sch) # rest) (day, now) =
     (if day \<notin> set (weekdays sch) then phase_at rest (day, now)
      else case time_fromisoformat (start_time sch) of
        Inl e \<Rightarrow> Inl e
      | Inr lo \<Rightarrow>
          (case time_fromisoformat (end_time sch) of
             Inl e \<Rightarrow> Inl e
           | Inr hi \<Rightarrow> if lo \<le> now \<and> now < hi then parse_phase name else phase_at rest (day, now)))"

text \<open>A datetime is naive, already a wall clock reading, or aware.\<close>

datatype 'i datetime = Naive wall | Aware 'i

definition market_time :: "('i \<Rightarrow> wall) \<Rightarrow> 'i datetime \<Rightarrow> wall" where
  "market_time astimezone d = (case d of Naive w \<Rightarrow> w | Aware i \<Rightarrow> astimezone i)"

definition get_current_phase_type ::
    "('i \<Rightarrow> wall) \<Rightarrow> 'i \<Rightarrow> market_phases \<Rightarrow> 'i datetime option \<Rightarrow> exn + phase_type" where
  "get_current_phase_type astimezone now cfg current =
     phase_at (schedule cfg)
       (market_time astimezone (case current of None \<Rightarrow> Aware now | Some d \<Rightarrow> d))"

definition get_current_phase_state ::
    "('i \<Rightarrow> wall) \<Rightarrow> 'i \<Rightarrow> market_phases \<Rightarrow> exn + phase_state" where
  "get_current_phase_state astimezone now cfg =
     (case get_current_phase_type astimezone now cfg None of
        Inl e \<Rightarrow> Inl e
      | Inr p \<Rightarrow>
          (case map_of (phase_states cfg) (phase_value p) of
             None \<Rightarrow> Inl (KeyError (lit (phase_value p)))
           | Some c \<Rightarrow> Inr (from_phase_type p c)))"

section \<open>What the schedule gives\<close>

text \<open>An entry that applies at a moment, and a schedule all of whose entries can be read.\<close>

definition applies :: "wall \<Rightarrow> string \<times> phase_schedule \<Rightarrow> bool" where
  "applies w e \<longleftrightarrow>
     fst w \<in> set (weekdays (snd e)) \<and>
     (case (read_time (start_time (snd e)), read_time (end_time (snd e))) of
        (Some lo, Some hi) \<Rightarrow> lo \<le> snd w \<and> snd w < hi
      | _ \<Rightarrow> False)"

definition schedule_ok :: "(string, phase_schedule) dict \<Rightarrow> bool" where
  "schedule_ok sch \<longleftrightarrow>
     (\<forall>(name, s) \<in> set sch. name \<in> range phase_value \<and>
        read_time (start_time s) \<noteq> None \<and> read_time (end_time s) \<noteq> None)"

lemma phase_at_first:
  assumes "schedule_ok sch"
  shows "\<exists>p. phase_at sch w = Inr p \<and>
    (case find (applies w) sch of None \<Rightarrow> p = CLOSED | Some (name, s) \<Rightarrow> phase_value p = name)"
  using assms
proof (induction sch w rule: phase_at.induct)
  case (2 name sch rest day now)
  obtain lo hi where t: "read_time (start_time sch) = Some lo" "read_time (end_time sch) = Some hi"
    using "2.prems" by (auto simp: schedule_ok_def)
  obtain p where p: "name = phase_value p"
    using "2.prems" by (auto simp: schedule_ok_def)
  have rest: "schedule_ok rest"
    using "2.prems" by (simp add: schedule_ok_def)
  show ?case
  proof (cases "day \<in> set (weekdays sch)")
    case True
    with t p "2.IH"(2) [OF _ _ _ _ rest] show ?thesis
      by (auto simp: applies_def time_fromisoformat_def)
  next
    case False
    with "2.IH"(1) [OF False rest] show ?thesis
      by (auto simp: applies_def)
  qed
qed simp

section \<open>Transitions\<close>

text \<open>
  The handler drives an exchange through two operations; an exchange state is \<open>'x\<close>, an
  operation returns the exception it raises, if any, and the state it leaves. The dispatch
  table has two entries.
\<close>

datatype phase_action = Run_Auction | Close_Market

definition transition_action :: "phase_type \<Rightarrow> phase_type \<Rightarrow> phase_action option" where
  "transition_action from_p to_p =
     (if from_p = PRE_OPEN \<and> to_p = OPENING_AUCTION then Some Run_Auction
      else if from_p = CONTINUOUS \<and> to_p = CLOSED then Some Close_Market
      else None)"

definition handle_transition ::
    "('x \<Rightarrow> exn option \<times> 'x) \<Rightarrow> ('x \<Rightarrow> exn option \<times> 'x) \<Rightarrow> phase_type \<Rightarrow> phase_type \<Rightarrow> 'x \<Rightarrow>
     exn option \<times> 'x" where
  "handle_transition auction close_market from_p to_p x =
     (case transition_action from_p to_p of
        None \<Rightarrow> (None, x)
      | Some Run_Auction \<Rightarrow> auction x
      | Some Close_Market \<Rightarrow> close_market x)"

text \<open>
  \<open>check_and_handle_transition\<close>: the new phase is recorded before the action runs, so an
  action that raises is not repeated at the next check.
\<close>

definition check_and_handle_transition ::
    "('x \<Rightarrow> exn option \<times> 'x) \<Rightarrow> ('x \<Rightarrow> exn option \<times> 'x) \<Rightarrow> phase_type \<Rightarrow>
     phase_type option \<Rightarrow> 'x \<Rightarrow> (exn + bool) \<times> phase_type option \<times> 'x" where
  "check_and_handle_transition auction close_market cur last_phase x =
     (case last_phase of
        None \<Rightarrow> (Inr False, Some cur, x)
      | Some l \<Rightarrow>
          if l = cur then (Inr False, last_phase, x)
          else (case handle_transition auction close_market l cur x of
                  (Some e, x') \<Rightarrow> (Inl e, Some cur, x')
                | (None, x') \<Rightarrow> (Inr True, Some cur, x')))"

definition handler_reset :: "phase_type option \<Rightarrow> phase_type option" where
  "handler_reset last_phase = None"

text \<open>A sequence of polls, stopping at the first exception.\<close>

fun poll_phases ::
    "('x \<Rightarrow> exn option \<times> 'x) \<Rightarrow> ('x \<Rightarrow> exn option \<times> 'x) \<Rightarrow> phase_type list \<Rightarrow>
     phase_type option \<Rightarrow> 'x \<Rightarrow> exn option \<times> phase_type option \<times> 'x" where
  "poll_phases auction close_market [] l x = (None, l, x)"
| "poll_phases auction close_market (p # ps) l x =
     (case check_and_handle_transition auction close_market p l x of
        (Inl e, l', x') \<Rightarrow> (Some e, l', x')
      | (Inr _, l', x') \<Rightarrow> poll_phases auction close_market ps l' x')"

text \<open>The actions a sequence of observed phases calls for: one per adjacent pair in the table.\<close>

fun actions_of :: "phase_type list \<Rightarrow> phase_action list" where
  "actions_of (p # q # ps) =
     (case transition_action p q of None \<Rightarrow> [] | Some a \<Rightarrow> [a]) @ actions_of (q # ps)"
| "actions_of _ = []"

fun run_actions ::
    "('x \<Rightarrow> exn option \<times> 'x) \<Rightarrow> ('x \<Rightarrow> exn option \<times> 'x) \<Rightarrow> phase_action list \<Rightarrow> 'x \<Rightarrow>
     exn option \<times> 'x" where
  "run_actions auction close_market [] x = (None, x)"
| "run_actions auction close_market (a # as) x =
     (case (case a of Run_Auction \<Rightarrow> auction x | Close_Market \<Rightarrow> close_market x) of
        (Some e, x') \<Rightarrow> (Some e, x')
      | (None, x') \<Rightarrow> run_actions auction close_market as x')"

lemma transition_action_same [simp]: "transition_action p p = None"
  by (cases p) (simp_all add: transition_action_def)

lemma poll_phases_actions:
  "(case poll_phases auction close_market ps (Some p) x of (e, l, x') \<Rightarrow> (e, x')) =
     run_actions auction close_market (actions_of (p # ps)) x"
proof (induction ps arbitrary: p x)
  case (Cons q ps)
  show ?case
  proof (cases "transition_action p q")
    case None
    then show ?thesis
      using Cons.IH [of q x]
      by (auto simp: check_and_handle_transition_def handle_transition_def)
  next
    case (Some a)
    then have "p \<noteq> q" by auto
    obtain e x' where run: "(case a of Run_Auction \<Rightarrow> auction x | Close_Market \<Rightarrow> close_market x) = (e, x')"
      by (metis surj_pair)
    with Some \<open>p \<noteq> q\<close> Cons.IH [of q x'] show ?thesis
      by (cases a; cases e) (simp_all add: check_and_handle_transition_def handle_transition_def)
  qed
qed simp

section \<open>The exchange interface of the handler\<close>

text \<open>
  \<open>ExchangeOperations\<close>: both operations succeed on states that satisfy the exchange's
  invariant and keep it; closing leaves nothing resting.
\<close>

locale exchange_operations =
  fixes auction :: "'x \<Rightarrow> exn option \<times> 'x"
    and close_market :: "'x \<Rightarrow> exn option \<times> 'x"
    and inv :: "'x \<Rightarrow> bool"
    and cleared :: "'x \<Rightarrow> bool"
  assumes auction_ok: "inv x \<Longrightarrow> auction x = (e, x') \<Longrightarrow> e = None \<and> inv x'"
    and close_ok: "inv x \<Longrightarrow> close_market x = (e, x') \<Longrightarrow> e = None \<and> inv x' \<and> cleared x'"
begin

lemma check_keeps:
  assumes "inv x" and "check_and_handle_transition auction close_market cur l x = (r, l', x')"
  shows "r \<noteq> Inl e \<and> inv x' \<and> l' = Some cur \<and>
    (l = Some CONTINUOUS \<longrightarrow> cur = CLOSED \<longrightarrow> cleared x')"
proof (cases "\<exists>q. l = Some q \<and> q \<noteq> cur")
  case False
  with assms show ?thesis
    by (cases l) (auto simp: check_and_handle_transition_def)
next
  case True
  then obtain q where q: "l = Some q" "q \<noteq> cur" by blast
  obtain e1 x1 where run: "handle_transition auction close_market q cur x = (e1, x1)"
    by (metis surj_pair)
  then have "e1 = None \<and> inv x1 \<and> (q = CONTINUOUS \<longrightarrow> cur = CLOSED \<longrightarrow> cleared x1)"
  proof (cases "transition_action q cur")
    case None
    with run assms(1) show ?thesis by (auto simp: handle_transition_def transition_action_def)
  next
    case (Some a)
    with run show ?thesis
      using auction_ok [OF assms(1)] close_ok [OF assms(1)]
      by (cases a) (auto simp: handle_transition_def transition_action_def split: if_splits)
  qed
  with q run assms(2) show ?thesis
    by (auto simp: check_and_handle_transition_def)
qed

lemma run_actions_keeps:
  assumes "inv x"
  shows "\<exists>x'. run_actions auction close_market as x = (None, x') \<and> inv x'"
  using assms
proof (induction as arbitrary: x)
  case (Cons a as)
  obtain e x' where run: "(case a of Run_Auction \<Rightarrow> auction x | Close_Market \<Rightarrow> close_market x) = (e, x')"
    by (metis surj_pair)
  then have "e = None \<and> inv x'"
    using auction_ok [OF Cons.prems] close_ok [OF Cons.prems] by (cases a) auto
  with run Cons.IH [of x'] show ?case by simp
qed simp

lemma polls_keep:
  assumes "inv x"
  shows "\<exists>l x'. poll_phases auction close_market ps (Some p) x = (None, l, x') \<and> inv x'"
  using run_actions_keeps [OF assms, of "actions_of (p # ps)"]
    poll_phases_actions [of auction close_market ps p x]
  by (auto split: prod.splits)

end

section \<open>Properties\<close>

text \<open>
  with a readable schedule the phase of every moment is defined: it is the phase of the
  first entry whose weekdays contain the day and whose half-open interval contains the time,
  and CLOSED when there is none. Aware timestamps are converted to the market's zone first.
\<close>

theorem current_phase_first_entry:
  assumes "schedule_ok (schedule cfg)"
    and "w = market_time astimezone (case current of None \<Rightarrow> Aware now | Some d \<Rightarrow> d)"
  shows "\<exists>p. get_current_phase_type astimezone now cfg current = Inr p \<and>
    (case find (applies w) (schedule cfg) of None \<Rightarrow> p = CLOSED | Some (name, s) \<Rightarrow> phase_value p = name)"
  using phase_at_first [OF assms(1), of w] assms(2) by (simp add: get_current_phase_type_def)

definition demo_phases :: market_phases where
  "demo_phases =
     \<lparr>timezone = ''America/Chicago'',
      schedule =
        [(''pre_open'', \<lparr>start_time = ''08:00'', end_time = ''09:29:30'', weekdays = [''Monday'']\<rparr>),
         (''opening_auction'', \<lparr>start_time = ''09:29:30'', end_time = ''09:30'', weekdays = [''Monday'']\<rparr>),
         (''continuous'', \<lparr>start_time = ''09:30'', end_time = ''16:00'', weekdays = [''Monday'']\<rparr>)],
      phase_states = []\<rparr>"

lemma read_time_values [simp]:
  "read_time ''08:00'' = Some 28800" "read_time ''09:29:30'' = Some 34170"
  "read_time ''09:30'' = Some 34200" "read_time ''16:00'' = Some 57600"
  by (simp_all add: read_time_def two_digits_def digit_def day_seconds_def read_fraction_def)

theorem current_phase_first_entry_witness:
  "get_current_phase_type (\<lambda>_. (''Monday'', 34200)) () demo_phases None = Inr CONTINUOUS"
proof -
  have "schedule_ok (schedule demo_phases)"
    unfolding schedule_ok_def demo_phases_def
    by simp (metis phase_value.simps rangeI)
  from current_phase_first_entry [OF this refl, where astimezone = "\<lambda>_. (''Monday'', 34200)" and
      current = None and now = "()"]
  obtain p where p: "get_current_phase_type (\<lambda>_. (''Monday'', 34200)) () demo_phases None = Inr p"
    and "case find (applies (''Monday'', 34200)) (schedule demo_phases) of
        None \<Rightarrow> p = CLOSED | Some (name, s) \<Rightarrow> phase_value p = name"
    by (auto simp: market_time_def)
  then have "phase_value p = phase_value CONTINUOUS"
    by (simp add: demo_phases_def applies_def)
  with p show ?thesis by (metis phase_value_inj)
qed



end
