(* ===== verification/Venue.thy ===== *)
theory Venue
  imports Phases Batch_Execution
begin

text \<open>
  \<open>exchange/venue.py\<close>: the exchange. It keeps one book per listed instrument, the set of
  order ids it has seen, the batch engine's pending table and the phase state it cached at
  the last check. The phase manager is outside: operations that consult it take its answer,
  a phase state or the exception it raised, as an argument; the draws of the batch engine's
  random tie-break are an argument of the operations that run an auction.
\<close>

section \<open>State and construction\<close>

record venue =
  order_books :: books
  instruments :: "(string, instrument) dict"
  all_order_ids :: "string set"
  current_phase_state :: phase_state
  pending_orders :: pending
  last_phase :: "phase_type option"

type_synonym draws = "string \<Rightarrow> order_side \<Rightarrow> nat \<Rightarrow> rat"

text \<open>The constructor asks the phase manager twice: for the cache and for the handler.\<close>

definition new_venue :: "exn + phase_state \<Rightarrow> exn + phase_state \<Rightarrow> exn + venue" where
  "new_venue ps1 ps2 =
     (case ps1 of
        Inl e \<Rightarrow> Inl e
      | Inr s1 \<Rightarrow>
          (case ps2 of
             Inl e \<Rightarrow> Inl e
           | Inr s2 \<Rightarrow>
               Inr \<lparr>order_books = [], instruments = [], all_order_ids = {},
                    current_phase_state = s1, pending_orders = [],
                    last_phase = Some (ph_type s2)\<rparr>))"

definition list_instrument :: "instrument \<Rightarrow> venue \<Rightarrow> exn option \<times> venue" where
  "list_instrument i v =
     (let iid = instrument_key i in
      if iid \<in> set (dict_keys (instruments v)) then
        (Some (ValueError [Txt ''Instrument with ID '', Txt iid, Txt '' already exists'']), v)
      else
        (None, v\<lparr>instruments := AList.update iid i (instruments v),
                 order_books := AList.update iid (new_book iid) (order_books v)\<rparr>))"

section \<open>Submission\<close>

definition should_use_batch_engine :: "venue \<Rightarrow> bool" where
  "should_use_batch_engine v \<longleftrightarrow>
     execution_style (current_phase_state v) = ''batch'' \<or>
     \<not> is_matching_enabled (current_phase_state v)"

text \<open>The result, the order object as it is afterwards, and the venue.\<close>

definition venue_submit_order :: "order \<Rightarrow> venue \<Rightarrow> (exn + order_result) \<times> order \<times> venue" where
  "venue_submit_order o1 v =
     (if \<not> is_order_submission_allowed (current_phase_state v) then
        (Inr \<lparr>r_order_id = order_id o1, status = ''rejected'', fills = [],
              r_remaining = quantity o1, error_code = None,
              error_message = Some [Txt ''Order submission not allowed during '',
                Txt (phase_value (ph_type (current_phase_state v))), Txt '' phase'']\<rparr>, o1, v)
      else case map_of (order_books v) (instrument_id o1) of
        None \<Rightarrow>
          (Inl (ValueError [Txt ''Instrument '', Txt (instrument_id o1), Txt '' not found'']), o1, v)
      | Some b \<Rightarrow>
          if order_id o1 \<in> all_order_ids v then
            (Inl (ValueError [Txt ''Order ID '', Txt (order_id o1), Txt '' already exists'']), o1, v)
          else
            let v1 = v\<lparr>all_order_ids := insert (order_id o1) (all_order_ids v)\<rparr> in
            if should_use_batch_engine v1 then
              (case batch_submit (pending_orders v1) o1 b of
                 (r, p', o2, b') \<Rightarrow>
                   (r, o2, v1\<lparr>pending_orders := p',
                              order_books := AList.update (instrument_id o1) b' (order_books v1)\<rparr>))
            else
              (case continuous_submit o1 b of
                 (r, o2, b') \<Rightarrow>
                   (r, o2, v1\<lparr>order_books := AList.update (instrument_id o1) b' (order_books v1)\<rparr>)))"

section \<open>Cancellation\<close>

fun find_order_book :: "string \<Rightarrow> books \<Rightarrow> (string \<times> order_book \<times> order) option" where
  "find_order_book oid [] = None"
| "find_order_book oid ((iid, b) # bs) =
     (case get_order b oid of Some o1 \<Rightarrow> Some (iid, b, o1) | None \<Rightarrow> find_order_book oid bs)"

definition venue_cancel_order :: "string \<Rightarrow> string \<Rightarrow> venue \<Rightarrow> (exn + bool) \<times> venue" where
  "venue_cancel_order oid trader v =
     (if \<not> is_order_cancellation_allowed (current_phase_state v) then (Inr False, v)
      else if oid \<notin> all_order_ids v then (Inr False, v)
      else case find_order_book oid (order_books v) of
        None \<Rightarrow> (Inr False, v)
      | Some (iid, b, o1) \<Rightarrow>
          if trader_id o1 \<noteq> trader then
            (Inl (ValueError [Txt ''Trader '', Txt trader, Txt '' does not own order '', Txt oid]), v)
          else
            (case cancel_order oid b of
               (r, b') \<Rightarrow>
                 let v1 = v\<lparr>order_books := AList.update iid b' (order_books v)\<rparr> in
                 (case r of
                    Inl e \<Rightarrow> (Inl e, v1)
                  | Inr None \<Rightarrow> (Inr False, v1)
                  | Inr (Some _) \<Rightarrow>
                      (Inr True, v1\<lparr>all_order_ids := all_order_ids v1 - {oid}\<rparr>))))"

section \<open>Queries\<close>

definition get_order_book :: "venue \<Rightarrow> string \<Rightarrow> order_book option" where
  "get_order_book v iid = map_of (order_books v) iid"

definition get_trade_history :: "venue \<Rightarrow> string \<Rightarrow> int \<Rightarrow> exn + trade list" where
  "get_trade_history v iid limit =
     (case map_of (order_books v) iid of
        None \<Rightarrow> Inl (ValueError [Txt ''Instrument '', Txt iid, Txt '' not found''])
      | Some b \<Rightarrow> Inr (get_recent_trades b limit))"

record market_summary =
  ms_instrument_id :: string
  ms_best_bid :: "(rat \<times> rat) option"
  ms_best_ask :: "(rat \<times> rat) option"
  ms_last_trades :: "trade list"
  ms_depth :: "(rat \<times> rat) list \<times> (rat \<times> rat) list"

definition get_market_summary :: "venue \<Rightarrow> string \<Rightarrow> exn + market_summary" where
  "get_market_summary v iid =
     (case map_of (order_books v) iid of
        None \<Rightarrow> Inl (ValueError [Txt ''Instrument '', Txt iid, Txt '' not found''])
      | Some b \<Rightarrow>
          Inr \<lparr>ms_instrument_id = iid, ms_best_bid = best_bid b, ms_best_ask = best_ask b,
               ms_last_trades = get_recent_trades b 5, ms_depth = depth_snapshot b 5\<rparr>)"

definition get_all_instruments :: "venue \<Rightarrow> instrument list" where
  "get_all_instruments v = dict_values (instruments v)"

definition get_matching_mode :: "exn + phase_state \<Rightarrow> exn + string" where
  "get_matching_mode ps = map_sum id execution_style ps"

section \<open>Batches and the end of the day\<close>

definition venue_execute_batch :: "draws \<Rightarrow> venue \<Rightarrow> (exn + results) \<times> venue" where
  "venue_execute_batch draw v =
     (if execution_style (current_phase_state v) = ''batch'' then
        (case batch_execute draw (pending_orders v) (order_books v) of
           (r, p', books') \<Rightarrow> (r, v\<lparr>pending_orders := p', order_books := books'\<rparr>))
      else (Inr [], v))"

definition execute_opening_auction :: "draws \<Rightarrow> venue \<Rightarrow> exn option \<times> venue" where
  "execute_opening_auction draw v =
     (case batch_execute draw (pending_orders v) (order_books v) of
        (r, p', books') \<Rightarrow>
          (case r of Inl e \<Rightarrow> Some e | Inr res \<Rightarrow> None,
           v\<lparr>pending_orders := p', order_books := books'\<rparr>))"

fun cancel_each :: "order list \<Rightarrow> order_book \<Rightarrow> string set \<Rightarrow> exn option \<times> order_book \<times> string set" where
  "cancel_each [] b ids = (None, b, ids)"
| "cancel_each (o1 # os) b ids =
     (case cancel_order (order_id o1) b of
        (Inl e, b') \<Rightarrow> (Some e, b', ids)
      | (Inr None, b') \<Rightarrow> cancel_each os b' ids
      | (Inr (Some _), b') \<Rightarrow> cancel_each os b' (ids - {order_id o1}))"

fun cancel_books :: "books \<Rightarrow> string set \<Rightarrow> exn option \<times> books \<times> string set" where
  "cancel_books [] ids = (None, [], ids)"
| "cancel_books ((iid, b) # bs) ids =
     (case cancel_each (concat (map l_orders (bids b)) @ concat (map l_orders (asks b))) b ids of
        (Some e, b', ids') \<Rightarrow> (Some e, (iid, b') # bs, ids')
      | (None, b', ids') \<Rightarrow>
          (case cancel_books bs ids' of (e, bs', ids'') \<Rightarrow> (e, (iid, b') # bs', ids'')))"

definition cancel_all_orders :: "venue \<Rightarrow> exn option \<times> venue" where
  "cancel_all_orders v =
     (case cancel_books (order_books v) (all_order_ids v) of
        (e, books', ids') \<Rightarrow> (e, v\<lparr>order_books := books', all_order_ids := ids'\<rparr>))"

text \<open>
  \<open>check_phase_transitions\<close> caches the new phase state first and then lets the handler act;
  the handler's memory of the last phase is part of the venue.
\<close>

definition check_phase_transitions :: "draws \<Rightarrow> exn + phase_state \<Rightarrow> venue \<Rightarrow> exn option \<times> venue" where
  "check_phase_transitions draw ps v =
     (case ps of
        Inl e \<Rightarrow> (Some e, v)
      | Inr s \<Rightarrow>
          (case check_and_handle_transition (execute_opening_auction draw) cancel_all_orders
              (ph_type s) (last_phase v) (v\<lparr>current_phase_state := s\<rparr>) of
             (r, l, v') \<Rightarrow>
               (case r of Inl e \<Rightarrow> Some e | Inr _ \<Rightarrow> None, v'\<lparr>last_phase := l\<rparr>)))"

section \<open>The invariant\<close>

definition live_ids :: "books \<Rightarrow> pending \<Rightarrow> string \<Rightarrow> string set" where
  "live_ids books p iid =
     (case map_of books iid of None \<Rightarrow> {} | Some b \<Rightarrow> order_ids b) \<union> order_id ` set (pending_for p iid)"

text \<open>
  The venue's tables agree: a book per instrument, valid books, valid pending orders, and
  every live order id known to the venue and used for one instrument only.
\<close>

definition venue_wf :: "venue \<Rightarrow> bool" where
  "venue_wf v \<longleftrightarrow>
     distinct (dict_keys (order_books v)) \<and>
     dict_keys (instruments v) = dict_keys (order_books v) \<and>
     set (dict_keys (pending_orders v)) \<subseteq> set (dict_keys (order_books v)) \<and>
     books_ok (order_books v) \<and> pending_ok (pending_orders v) (order_books v) \<and>
     (\<forall>iid. live_ids (order_books v) (pending_orders v) iid \<subseteq> all_order_ids v) \<and>
     (\<forall>iid iid'. iid \<noteq> iid' \<longrightarrow>
        live_ids (order_books v) (pending_orders v) iid \<inter>
        live_ids (order_books v) (pending_orders v) iid' = {})"

definition all_empty :: "books \<Rightarrow> bool" where
  "all_empty books \<longleftrightarrow> (\<forall>(iid, b) \<in> set books. resting b = [])"

lemma venue_wf_new: "new_venue ps1 ps2 = Inr v \<Longrightarrow> venue_wf v"
  by (auto simp: new_venue_def venue_wf_def books_ok_def pending_ok_def live_ids_def pending_for_def
      split: sum.splits)

lemma venue_wf_cong:
  "order_books v' = order_books v \<Longrightarrow> instruments v' = instruments v \<Longrightarrow>
   pending_orders v' = pending_orders v \<Longrightarrow> all_order_ids v' = all_order_ids v \<Longrightarrow>
   venue_wf v' = venue_wf v"
  by (simp add: venue_wf_def)

lemma book_wf_new_book: "book_wf (new_book iid)" "book_instrument (new_book iid) = iid" "order_ids (new_book iid) = {}"
  using book_wf_new by (simp_all add: new_book_def)

section \<open>Every operation keeps the invariant\<close>

lemma pending_for_update [simp]:
  "pending_for (AList.update iid os p) iid' = (if iid' = iid then os else pending_for p iid')"
  by (simp add: pending_for_def update_key_cases)

lemma pending_for_Nil [simp]: "pending_for [] iid = []"
  by (simp add: pending_for_def)

lemma live_ids_update:
  "live_ids (AList.update iid b' books) p iid' =
     (if iid' = iid then order_ids b' \<union> order_id ` set (pending_for p iid) else live_ids books p iid')"
  by (simp add: live_ids_def update_key_cases)

lemma books_ok_update:
  "books_ok books \<Longrightarrow> book_wf b' \<Longrightarrow> book_instrument b' = iid \<Longrightarrow> books_ok (AList.update iid b' books)"
  by (simp add: books_ok_def update_key_cases)

text \<open>The orders waiting for an instrument are valid and not in its book.\<close>

lemma pending_okD:
  assumes "pending_ok p books" and "map_of books iid = Some b" and "books_ok books"
  shows "batch_ok b (pending_for p iid)"
proof (cases "map_of p iid")
  case None
  with assms show ?thesis by (simp add: pending_for_def batch_ok_def books_ok_def)
next
  case (Some os)
  with assms show ?thesis
    using map_of_in_set [OF Some] by (fastforce simp: pending_ok_def pending_for_def)
qed

lemma pending_okI:
  assumes "distinct (dict_keys p)" and "set (dict_keys p) \<subseteq> set (dict_keys books)"
    and "\<And>iid b. map_of books iid = Some b \<Longrightarrow> batch_ok b (pending_for p iid)"
  shows "pending_ok p books"
proof -
  have "batch_ok b os \<and> distinct (map order_id os)" if "(iid, os) \<in> set p" and "map_of books iid = Some b" for iid os b
    using that assms(1,3) by (force simp: pending_for_def batch_ok_def)
  moreover have "\<exists>b. map_of books iid = Some b" if "(iid, os) \<in> set p" for iid os
    using that assms(2) by (auto simp: subset_iff image_iff) (metis map_of_eq_None_iff option.exhaust imageI fst_conv)
  ultimately show ?thesis
    using assms(1) by (fastforce simp: pending_ok_def)
qed

lemma venue_wf_book:
  assumes wf: "venue_wf v" and b: "map_of (order_books v) iid = Some b"
    and b': "book_wf b'" "book_instrument b' = iid" "order_ids b' \<subseteq> order_ids b \<union> new"
    and new: "new \<inter> all_order_ids v = {}"
    and known: "\<And>iid'. live_ids (AList.update iid b' (order_books v)) (pending_orders v) iid' \<subseteq> ids"
  shows "venue_wf (v\<lparr>order_books := AList.update iid b' (order_books v), all_order_ids := ids\<rparr>)"
proof -
  let ?books = "AList.update iid b' (order_books v)"
  have in_keys: "iid \<in> set (dict_keys (order_books v))"
    using map_of_in_set [OF b] by force
  have old: "live_ids (order_books v) (pending_orders v) i \<subseteq> all_order_ids v" for i
    using wf by (simp add: venue_wf_def)
  have grow: "live_ids ?books (pending_orders v) i \<subseteq>
      live_ids (order_books v) (pending_orders v) i \<union> (if i = iid then new else {})" for i
    using b b'(3) by (auto simp: live_ids_def update_key_cases)
  have disj: "live_ids ?books (pending_orders v) i \<inter> live_ids ?books (pending_orders v) j = {}" if "i \<noteq> j" for i j
  proof -
    have "live_ids (order_books v) (pending_orders v) i \<inter> live_ids (order_books v) (pending_orders v) j = {}"
      using wf that by (simp add: venue_wf_def)
    with grow [of i] grow [of j] old [of i] old [of j] new that show ?thesis
      by (simp split: if_splits) blast+
  qed
  have "pending_ok (pending_orders v) ?books"
  proof (rule pending_okI)
    fix i c
    assume c: "map_of ?books i = Some c"
    show "batch_ok c (pending_for (pending_orders v) i)"
    proof (cases "i = iid")
      case True
      have pend: "batch_ok b (pending_for (pending_orders v) iid)"
        using wf b by (intro pending_okD) (auto simp: venue_wf_def)
      moreover have "order_id ` set (pending_for (pending_orders v) iid) \<subseteq> all_order_ids v"
        using old [of iid] by (simp add: live_ids_def)
      moreover have "book_instrument b = iid"
        using wf b by (simp add: venue_wf_def books_ok_def)
      moreover have "c = b'" using c True by (simp add: update_key_cases)
      ultimately show ?thesis
        using True b' new by (auto simp: batch_ok_def)
    next
      case False
      with c wf show ?thesis
        by (intro pending_okD) (auto simp: venue_wf_def update_key_cases)
    qed
  qed (use wf in \<open>auto simp: venue_wf_def pending_ok_def dict_keys_update\<close>)
  with wf b' known disj in_keys show ?thesis
    by (simp add: venue_wf_def books_ok_update dict_keys_update)
qed

lemma live_ids_known: "venue_wf v \<Longrightarrow> live_ids (order_books v) (pending_orders v) iid \<subseteq> all_order_ids v"
  by (simp add: venue_wf_def)

lemma book_ids_known:
  assumes "venue_wf v" and "map_of (order_books v) iid = Some b"
  shows "order_ids b \<subseteq> all_order_ids v" "order_id ` set (pending_for (pending_orders v) iid) \<subseteq> all_order_ids v"
  using live_ids_known [OF assms(1), of iid] assms(2) by (simp_all add: live_ids_def)

text \<open>The known ids after a change of one book, given what the new book holds.\<close>

lemma live_ids_after:
  assumes "venue_wf v" and "order_ids b' \<union> order_id ` set (pending_for (pending_orders v) iid) \<subseteq> ids"
    and "\<And>i. i \<noteq> iid \<Longrightarrow> live_ids (order_books v) (pending_orders v) i \<subseteq> ids"
  shows "live_ids (AList.update iid b' (order_books v)) (pending_orders v) i \<subseteq> ids"
  using assms(2,3) by (simp add: live_ids_update)

lemma venue_wf_list_instrument:
  assumes "venue_wf v" and "list_instrument i v = (e, v')"
  shows "venue_wf v'"
proof (cases "instrument_key i \<in> set (dict_keys (instruments v))")
  case True
  with assms show ?thesis by (simp add: list_instrument_def Let_def)
next
  case False
  let ?iid = "instrument_key i"
  have "dict_keys (instruments v) = dict_keys (order_books v)"
    using assms(1) by (simp add: venue_wf_def)
  with False have new: "?iid \<notin> set (dict_keys (order_books v))"
    by (metis (no_types))
  then have none: "map_of (order_books v) ?iid = None" "map_of (pending_orders v) ?iid = None"
    using assms(1) by (auto simp: map_of_eq_None_iff venue_wf_def)
  then have live: "live_ids (AList.update ?iid (new_book ?iid) (order_books v)) (pending_orders v) =
      live_ids (order_books v) (pending_orders v)"
    by (auto simp: live_ids_def update_key_cases pending_for_def fun_eq_iff book_wf_new_book)
  have "pending_ok (pending_orders v) (AList.update ?iid (new_book ?iid) (order_books v))"
  proof (rule pending_okI)
    fix j c
    assume c: "map_of (AList.update ?iid (new_book ?iid) (order_books v)) j = Some c"
    show "batch_ok c (pending_for (pending_orders v) j)"
    proof (cases "j = ?iid")
      case True
      with c none(2) show ?thesis
        using book_wf_new_book(1) [of ?iid] by (auto simp: update_key_cases pending_for_def batch_ok_def)
    next
      case False
      with c assms(1) show ?thesis
        by (intro pending_okD) (auto simp: venue_wf_def update_key_cases)
    qed
  qed (use assms(1) in \<open>auto simp: venue_wf_def pending_ok_def dict_keys_update\<close>)
  moreover have "v' = v\<lparr>instruments := AList.update ?iid i (instruments v),
      order_books := AList.update ?iid (new_book ?iid) (order_books v)\<rparr>"
    using assms(2) False by (auto simp: list_instrument_def Let_def)
  moreover have "set (dict_keys (pending_orders v)) \<subseteq> insert ?iid (set (dict_keys (order_books v)))"
    using assms(1) by (auto simp: venue_wf_def)
  ultimately show ?thesis
    using assms(1) by (simp add: venue_wf_def live dict_keys_update distinct_dict_keys_update
        books_ok_update book_wf_new_book)
qed

text \<open>An order as the constructor builds it: valid, nothing filled yet.\<close>

definition fresh_order :: "order \<Rightarrow> bool" where
  "fresh_order o1 \<longleftrightarrow> order_ok o1 \<and> remaining_quantity o1 = quantity o1"

lemma venue_wf_pending:
  assumes wf: "venue_wf v" and b: "map_of (order_books v) iid = Some b" and ok: "batch_order iid o1"
    and new: "order_id o1 \<notin> all_order_ids v"
  shows "venue_wf (v\<lparr>all_order_ids := insert (order_id o1) (all_order_ids v),
    pending_orders := AList.update iid (pending_for (pending_orders v) iid @ [o1]) (pending_orders v)\<rparr>)"
proof -
  let ?p = "AList.update iid (pending_for (pending_orders v) iid @ [o1]) (pending_orders v)"
  have live: "live_ids (order_books v) ?p i =
      live_ids (order_books v) (pending_orders v) i \<union> (if i = iid then {order_id o1} else {})" for i
    by (auto simp: live_ids_def)
  have old: "live_ids (order_books v) (pending_orders v) i \<subseteq> all_order_ids v" for i
    using wf by (rule live_ids_known)
  have in_keys: "iid \<in> set (dict_keys (order_books v))"
    using map_of_in_set [OF b] by force
  have "pending_ok ?p (order_books v)"
  proof (rule pending_okI)
    fix j c
    assume c: "map_of (order_books v) j = Some c"
    have pend: "batch_ok c (pending_for (pending_orders v) j)"
      using wf c by (intro pending_okD) (auto simp: venue_wf_def)
    moreover have "order_ids c \<union> order_id ` set (pending_for (pending_orders v) j) \<subseteq> all_order_ids v"
      using old [of j] c by (simp add: live_ids_def)
    moreover have "book_instrument c = j"
      using wf c by (simp add: venue_wf_def books_ok_def)
    ultimately show "batch_ok c (pending_for ?p j)"
      using ok new by (auto simp: batch_ok_def)
  qed (use wf in_keys in \<open>auto simp: venue_wf_def pending_ok_def dict_keys_update distinct_dict_keys_update\<close>)
  moreover have "live_ids (order_books v) ?p i \<inter> live_ids (order_books v) ?p j = {}" if "i \<noteq> j" for i j
  proof -
    have "live_ids (order_books v) (pending_orders v) i \<inter> live_ids (order_books v) (pending_orders v) j = {}"
      using wf that by (simp add: venue_wf_def)
    with old [of i] old [of j] new that show ?thesis
      unfolding live by (simp split: if_splits) blast
  qed
  moreover have "live_ids (order_books v) ?p i \<subseteq> insert (order_id o1) (all_order_ids v)" for i
    using old [of i] by (auto simp: live)
  ultimately show ?thesis
    using wf in_keys by (simp add: venue_wf_def dict_keys_update)
qed

lemma venue_wf_submit:
  assumes wf: "venue_wf v" and fr: "fresh_order o1" and run: "venue_submit_order o1 v = (r, o2, v')"
  shows "venue_wf v'"
proof -
  let ?iid = "instrument_id o1"
  consider (reject) "v' = v"
    | (accept) b where "map_of (order_books v) ?iid = Some b" "order_id o1 \<notin> all_order_ids v"
        "is_order_submission_allowed (current_phase_state v)"
    using run by (fastforce simp: venue_submit_order_def split: if_splits option.splits)
  then show ?thesis
  proof cases
    case reject
    with wf show ?thesis by simp
  next
    case accept
    let ?v = "v\<lparr>all_order_ids := insert (order_id o1) (all_order_ids v)\<rparr>"
    have ok: "book_wf b" "book_instrument b = ?iid"
      using wf accept(1) by (auto simp: venue_wf_def books_ok_def)
    have fresh: "order_id o1 \<notin> order_ids b"
      using live_ids_known [OF wf, of ?iid] accept(1,2) by (auto simp: live_ids_def)
    show ?thesis
    proof (cases "should_use_batch_engine ?v")
      case True
      have "v' = v\<lparr>all_order_ids := insert (order_id o1) (all_order_ids v),
          pending_orders := AList.update ?iid (pending_for (pending_orders v) ?iid @ [o1]) (pending_orders v)\<rparr>"
        using run accept True
        by (auto simp: venue_submit_order_def batch_submit_def Let_def update_idem [OF accept(1)])
      moreover have "batch_order ?iid o1"
        using fr by (auto simp: fresh_order_def batch_order_def order_ok_def)
      ultimately show ?thesis
        using venue_wf_pending [OF wf accept(1) _ accept(2)] by simp
    next
      case False
      obtain b' where cont: "continuous_submit o1 b = (r, o2, b')"
        and v': "v' = ?v\<lparr>order_books := AList.update ?iid b' (order_books v)\<rparr>"
        using run accept False by (auto simp: venue_submit_order_def Let_def split: prod.splits)
      have "addable o1 b"
        using fr ok fresh by (simp add: addable_def fresh_order_def)
      from continuous_submit_spec [OF ok(1) this cont] ok(2) have
        b': "book_wf b'" "book_instrument b' = ?iid" "order_ids b' \<subseteq> order_ids b \<union> {order_id o1}"
        by auto
      have "live_ids (AList.update ?iid b' (order_books v)) (pending_orders v) i
          \<subseteq> insert (order_id o1) (all_order_ids v)" for i
      proof (rule live_ids_after [OF wf])
        show "order_ids b' \<union> order_id ` set (pending_for (pending_orders v) ?iid) \<subseteq> insert (order_id o1) (all_order_ids v)"
          using book_ids_known [OF wf accept(1)] b'(3) by blast
      qed (use live_ids_known [OF wf] in blast)
      with accept(2) have "venue_wf (v\<lparr>order_books := AList.update ?iid b' (order_books v),
          all_order_ids := insert (order_id o1) (all_order_ids v)\<rparr>)"
        by (intro venue_wf_book [OF wf accept(1) b']) auto
      then show ?thesis
        by (rule venue_wf_cong [THEN iffD1, rotated 4]) (simp_all add: v')
    qed
  qed
qed

section \<open>Cancelling\<close>

lemma find_order_book_Some:
  assumes "find_order_book oid bs = Some (iid, b, o1)" and "distinct (dict_keys bs)"
  shows "map_of bs iid = Some b \<and> get_order b oid = Some o1"
  using assms by (induction bs) (auto split: option.splits dest: map_of_in_set simp: rev_image_eqI)

lemma find_order_book_None:
  "find_order_book oid bs = None \<longleftrightarrow> (\<forall>(iid, b) \<in> set bs. get_order b oid = None)"
  by (induction bs) (auto split: option.splits)

text \<open>Only one book holds an id, so the search finds the right one.\<close>

lemma find_order_book_iff:
  assumes wf: "venue_wf v"
  shows "find_order_book oid (order_books v) = Some (iid, b, o1) \<longleftrightarrow>
    map_of (order_books v) iid = Some b \<and> o1 \<in> set (resting b) \<and> order_id o1 = oid"
proof
  assume "find_order_book oid (order_books v) = Some (iid, b, o1)"
  with find_order_book_Some [OF this] wf show "map_of (order_books v) iid = Some b \<and>
      o1 \<in> set (resting b) \<and> order_id o1 = oid"
    using get_order_iff [of b oid o1] by (auto simp: venue_wf_def books_ok_def)
next
  assume r: "map_of (order_books v) iid = Some b \<and> o1 \<in> set (resting b) \<and> order_id o1 = oid"
  then have ok: "book_wf b" using wf by (auto simp: venue_wf_def books_ok_def)
  then have got: "get_order b oid = Some o1"
    using r by (simp add: get_order_iff)
  then have "find_order_book oid (order_books v) \<noteq> None"
    using r map_of_in_set [of "order_books v" iid b]
    by (auto simp: find_order_book_None intro!: bexI [of _ "(iid, b)"])
  then obtain iid' b' o' where f: "find_order_book oid (order_books v) = Some (iid', b', o')"
    by auto
  with find_order_book_Some [OF f] wf have b': "map_of (order_books v) iid' = Some b'" "get_order b' oid = Some o'"
    by (auto simp: venue_wf_def)
  then have "book_wf b'" using wf by (auto simp: venue_wf_def books_ok_def)
  then have "oid \<in> order_ids b'" "oid \<in> order_ids b"
    using b'(2) r ok get_order_iff resting_ids by metis+
  then have "oid \<in> live_ids (order_books v) (pending_orders v) iid'"
    "oid \<in> live_ids (order_books v) (pending_orders v) iid"
    using r b'(1) by (simp_all add: live_ids_def)
  then have "iid' = iid"
    using wf unfolding venue_wf_def by blast
  then show "find_order_book oid (order_books v) = Some (iid, b, o1)"
    using f b' r got by simp
qed

lemma venue_cancel_effect:
  assumes wf: "venue_wf v" and b: "map_of (order_books v) iid = Some b"
    and o1: "o1 \<in> set (resting b)" "order_id o1 = oid" "trader_id o1 = trader"
    and allowed: "is_order_cancellation_allowed (current_phase_state v)"
  shows "\<exists>b'. venue_cancel_order oid trader v =
      (Inr True, v\<lparr>order_books := AList.update iid b' (order_books v), all_order_ids := all_order_ids v - {oid}\<rparr>) \<and>
    venue_wf (v\<lparr>order_books := AList.update iid b' (order_books v), all_order_ids := all_order_ids v - {oid}\<rparr>) \<and>
    (\<forall>sd. side_orders sd b' = filter (\<lambda>x. order_id x \<noteq> oid) (side_orders sd b)) \<and> trades b' = trades b"
proof -
  have ok: "book_wf b" "book_instrument b = iid"
    using wf b by (auto simp: venue_wf_def books_ok_def)
  have known: "oid \<in> order_ids b"
    using o1 resting_ids [OF ok(1)] by auto
  then have in_all: "oid \<in> all_order_ids v"
    using live_ids_known [OF wf, of iid] b by (auto simp: live_ids_def)
  have found: "find_order_book oid (order_books v) = Some (iid, b, o1)"
    using find_order_book_iff [OF wf] b o1 by simp
  obtain r b' where run: "cancel_order oid b = (r, b')" by fastforce
  from cancel_order_facts [OF ok(1), of oid] run known obtain x where
    b': "book_wf b'" "order_ids b' = order_ids b - {oid}" "trades b' = trades b"
      "\<forall>sd. side_orders sd b' = filter (\<lambda>x. order_id x \<noteq> oid) (side_orders sd b)"
    and r: "r = Inr (Some x)"
    by auto
  have iid': "book_instrument b' = iid"
    using cancel_order_cases [OF ok(1), of oid] run ok(2) by (auto simp: without_order_def Let_def)
  have unpend: "oid \<notin> order_id ` set (pending_for (pending_orders v) iid)"
    using pending_okD [of "pending_orders v" "order_books v" iid b] wf b known
    by (auto simp: venue_wf_def batch_ok_def)
  have elsewhere: "oid \<notin> live_ids (order_books v) (pending_orders v) i" if "i \<noteq> iid" for i
  proof -
    have "oid \<in> live_ids (order_books v) (pending_orders v) iid"
      using b known by (simp add: live_ids_def)
    with wf that show ?thesis unfolding venue_wf_def by blast
  qed
  have "live_ids (AList.update iid b' (order_books v)) (pending_orders v) i \<subseteq> all_order_ids v - {oid}" for i
  proof (intro live_ids_after [OF wf])
    show "order_ids b' \<union> order_id ` set (pending_for (pending_orders v) iid) \<subseteq> all_order_ids v - {oid}"
      using book_ids_known [OF wf b] b'(2) unpend by blast
    show "live_ids (order_books v) (pending_orders v) j \<subseteq> all_order_ids v - {oid}" if "j \<noteq> iid" for j
      using live_ids_known [OF wf, of j] elsewhere [OF that] by blast
  qed
  then have "venue_wf (v\<lparr>order_books := AList.update iid b' (order_books v), all_order_ids := all_order_ids v - {oid}\<rparr>)"
    using b' by (intro venue_wf_book [OF wf b b'(1) iid', of "{}"]) auto
  moreover have "venue_cancel_order oid trader v =
      (Inr True, v\<lparr>order_books := AList.update iid b' (order_books v), all_order_ids := all_order_ids v - {oid}\<rparr>)"
    using allowed in_all found o1(3) run r by (simp add: venue_cancel_order_def Let_def)
  ultimately show ?thesis using b'(3,4) by blast
qed

lemma venue_bookD:
  assumes "venue_wf v" and "map_of (order_books v) iid = Some b"
  shows "book_wf b" "book_instrument b = iid" "uncrossed b"
proof -
  show wf: "book_wf b" and "book_instrument b = iid"
    using assms unfolding venue_wf_def books_ok_def by blast+
  show "uncrossed b"
    using wf by (simp add: book_wf_def)
qed

lemma pendingD_ids:
  assumes "venue_wf v" and "map_of (order_books v) iid = Some b"
  shows "order_id ` set (pending_for (pending_orders v) iid) \<inter> order_ids b = {}"
  using pending_okD [of "pending_orders v" "order_books v" iid b] assms
  by (auto simp: venue_wf_def batch_ok_def)

text \<open>All other calls change nothing.\<close>

lemma venue_cancel_refused:
  assumes wf: "venue_wf v"
    and no: "\<not> (is_order_cancellation_allowed (current_phase_state v) \<and>
      (\<exists>iid b o1. map_of (order_books v) iid = Some b \<and> o1 \<in> set (resting b) \<and> order_id o1 = oid \<and> trader_id o1 = trader))"
  shows "\<exists>r. venue_cancel_order oid trader v = (r, v) \<and>
    (r = Inr False \<or> (\<exists>m. r = Inl (ValueError m)))"
proof (cases "is_order_cancellation_allowed (current_phase_state v) \<and> oid \<in> all_order_ids v")
  case False
  then show ?thesis by (auto simp: venue_cancel_order_def)
next
  case True
  show ?thesis
  proof (cases "find_order_book oid (order_books v)")
    case None
    with True show ?thesis by (simp add: venue_cancel_order_def)
  next
    case (Some t)
    obtain iid b o1 where t: "t = (iid, b, o1)" by (cases t) auto
    with Some find_order_book_iff [OF wf] no True have "trader_id o1 \<noteq> trader" by blast
    with True Some t show ?thesis by (simp add: venue_cancel_order_def)
  qed
qed

lemma venue_wf_cancel:
  assumes "venue_wf v" and "venue_cancel_order oid trader v = (r, v')"
  shows "venue_wf v' \<and> ((\<exists>m. r = Inl (ValueError m)) \<or> (\<exists>b. r = Inr b))"
proof (cases "is_order_cancellation_allowed (current_phase_state v) \<and>
    (\<exists>iid b o1. map_of (order_books v) iid = Some b \<and> o1 \<in> set (resting b) \<and> order_id o1 = oid \<and> trader_id o1 = trader)")
  case True
  then show ?thesis using venue_cancel_effect [OF assms(1)] assms(2) by fastforce
next
  case False
  then show ?thesis using venue_cancel_refused [OF assms(1) False] assms by auto
qed

section \<open>Batches\<close>

lemma venue_wf_batch:
  assumes wf: "venue_wf v" and run: "batch_execute draw (pending_orders v) (order_books v) = (r, p', books')"
  shows "(\<exists>res. r = Inr res) \<and> p' = [] \<and> venue_wf (v\<lparr>pending_orders := p', order_books := books'\<rparr>)"
proof -
  have ok: "pending_ok (pending_orders v) (order_books v)" "books_ok (order_books v)"
    using wf by (simp_all add: venue_wf_def)
  from batch_execute_reports [OF ok, of draw] run obtain res where
    r: "r = Inr res" "p' = []" "books_ok books'" "dict_keys books' = dict_keys (order_books v)"
    and same: "\<forall>iid. iid \<notin> set (dict_keys (pending_orders v)) \<longrightarrow> map_of books' iid = map_of (order_books v) iid"
    and ids: "\<forall>(iid, os) \<in> set (pending_orders v). \<forall>b'. map_of books' iid = Some b' \<longrightarrow>
       (\<exists>b. map_of (order_books v) iid = Some b \<and> order_ids b' \<subseteq> order_ids b \<union> order_id ` set os)"
    by auto
  have dp: "distinct (dict_keys (pending_orders v))"
    using ok(1) by (simp add: pending_ok_def)
  have shrink: "live_ids books' [] iid \<subseteq> live_ids (order_books v) (pending_orders v) iid" for iid
  proof (cases "map_of (pending_orders v) iid")
    case None
    then have "map_of books' iid = map_of (order_books v) iid"
      using same by (simp add: map_of_eq_None_iff)
    then show ?thesis by (auto simp: live_ids_def)
  next
    case (Some os)
    with ids map_of_in_set [OF Some] show ?thesis
      by (fastforce simp: live_ids_def pending_for_def split: option.splits)
  qed
  have "live_ids books' [] iid \<subseteq> all_order_ids v" for iid
    using shrink [of iid] live_ids_known [OF wf, of iid] by blast
  moreover have "live_ids books' [] i \<inter> live_ids books' [] j = {}" if "i \<noteq> j" for i j
  proof -
    have "live_ids (order_books v) (pending_orders v) i \<inter> live_ids (order_books v) (pending_orders v) j = {}"
      using wf that by (simp add: venue_wf_def)
    with shrink [of i] shrink [of j] show ?thesis by blast
  qed
  ultimately show ?thesis
    using wf r by (simp add: venue_wf_def pending_ok_def)
qed

section \<open>The end of the day\<close>

lemma cancel_each_ok:
  assumes "book_wf b"
  shows "\<exists>b'. cancel_each os b ids = (None, b', ids - (order_ids b \<inter> order_id ` set os)) \<and>
    book_wf b' \<and> book_instrument b' = book_instrument b \<and> order_ids b' = order_ids b - order_id ` set os \<and>
    trades b' = trades b"
  using assms
proof (induction os arbitrary: b ids)
  case (Cons x os)
  obtain r b1 where run: "cancel_order (order_id x) b = (r, b1)" by fastforce
  from cancel_order_facts [OF Cons.prems, of "order_id x"] run have
    b1: "book_wf b1" "order_ids b1 = order_ids b - {order_id x}" "trades b1 = trades b"
    and r: "if order_id x \<in> order_ids b then \<exists>y. r = Inr (Some y) else r = Inr None"
    by (auto split: if_splits)
  have instr: "book_instrument b1 = book_instrument b"
    using cancel_order_cases [OF Cons.prems, of "order_id x"] run by (auto simp: without_order_def Let_def)
  show ?case
  proof (cases "order_id x \<in> order_ids b")
    case True
    with r obtain y where "r = Inr (Some y)" by auto
    moreover have "ids - {order_id x} - (order_ids b1 \<inter> order_id ` set os) =
        ids - (order_ids b \<inter> order_id ` set (x # os))"
      using b1(2) True by auto
    ultimately show ?thesis
      using Cons.IH [OF b1(1), of "ids - {order_id x}"] run b1 instr by auto
  next
    case False
    moreover from this have "ids - (order_ids b1 \<inter> order_id ` set os) =
        ids - (order_ids b \<inter> order_id ` set (x # os))"
      using b1(2) by auto
    ultimately show ?thesis
      using Cons.IH [OF b1(1), of ids] run b1 instr r by auto
  qed
qed auto

lemma cancel_books_ok:
  assumes "\<forall>(iid, b) \<in> set books. book_wf b \<and> book_instrument b = iid"
  shows "\<exists>books'. cancel_books books ids = (None, books', ids - (\<Union>(iid, b) \<in> set books. order_ids b)) \<and>
    dict_keys books' = dict_keys books \<and>
    (\<forall>(iid, b) \<in> set books'. book_wf b \<and> book_instrument b = iid \<and> order_ids b = {})"
  using assms
proof (induction books arbitrary: ids)
  case (Cons e books)
  obtain iid b where e: "e = (iid, b)" by force
  have wf: "book_wf b" "book_instrument b = iid"
    using Cons.prems by (auto simp: e)
  have all: "concat (map l_orders (bids b)) @ concat (map l_orders (asks b)) = resting b"
    by (simp add: resting_def side_orders_def book_side_def all_orders_def)
  have "order_id ` set (resting b) = order_ids b"
    using wf(1) by (simp add: book_wf_def index_ok_def)
  with cancel_each_ok [OF wf(1), of "resting b" ids] wf obtain b' where
    b': "cancel_each (resting b) b ids = (None, b', ids - order_ids b)" "book_wf b'"
      "book_instrument b' = iid" "order_ids b' = {}"
    by auto
  have "\<forall>(iid, b) \<in> set books. book_wf b \<and> book_instrument b = iid"
    using Cons.prems by simp
  from Cons.IH [OF this, of "ids - order_ids b"] obtain books' where
    rest: "cancel_books books (ids - order_ids b) =
        (None, books', ids - order_ids b - (\<Union>(iid, b) \<in> set books. order_ids b))"
      "dict_keys books' = dict_keys books"
      "\<forall>(iid, b) \<in> set books'. book_wf b \<and> book_instrument b = iid \<and> order_ids b = {}"
    by blast
  have "cancel_books (e # books) ids =
      (None, (iid, b') # books', ids - (\<Union>(iid, b) \<in> set (e # books). order_ids b))"
    using b'(1) rest(1) by (simp add: e all Diff_eq Int_assoc Compl_Un)
  with b' rest(2,3) show ?case by (auto simp: e)
qed simp

lemma no_ids_no_orders: "book_wf b \<Longrightarrow> order_ids b = {} \<Longrightarrow> resting b = []"
  by (auto simp: book_wf_def index_ok_def)

lemma cancel_all_orders_ok:
  assumes wf: "venue_wf v" and run: "cancel_all_orders v = (e, v')"
  shows "e = None \<and> venue_wf v' \<and> all_empty (order_books v') \<and>
    pending_orders v' = pending_orders v \<and> instruments v' = instruments v \<and>
    dict_keys (order_books v') = dict_keys (order_books v)"
proof -
  have dist: "distinct (dict_keys (order_books v))"
    using wf by (simp add: venue_wf_def)
  then have "\<forall>(iid, b) \<in> set (order_books v). book_wf b \<and> book_instrument b = iid"
    using wf by (auto simp: venue_wf_def books_ok_def)
  from cancel_books_ok [OF this, of "all_order_ids v"] run obtain books' where
    v': "e = None" "v' = v\<lparr>order_books := books',
        all_order_ids := all_order_ids v - (\<Union>(iid, b) \<in> set (order_books v). order_ids b)\<rparr>"
    and keys: "dict_keys books' = dict_keys (order_books v)"
    and each: "\<forall>(iid, b) \<in> set books'. book_wf b \<and> book_instrument b = iid \<and> order_ids b = {}"
    by (auto simp: cancel_all_orders_def)
  have each': "book_wf c \<and> book_instrument c = i \<and> order_ids c = {}" if "map_of books' i = Some c" for i c
    using map_of_in_set [OF that] each by auto
  have live: "live_ids books' (pending_orders v) i = order_id ` set (pending_for (pending_orders v) i)" for i
    using each' [of i] by (auto simp: live_ids_def split: option.splits)
  have old: "\<exists>b. map_of (order_books v) i = Some b" if "map_of books' i = Some c" for i c
    using map_of_in_set [OF that] keys by (metis fst_conv imageI list.set_map map_of_eq_None_iff option.exhaust)
  have pend: "order_id ` set (pending_for (pending_orders v) i) \<inter> order_ids b = {}"
    if b: "(j, b) \<in> set (order_books v)" for i j b
  proof -
    have b: "map_of (order_books v) j = Some b" using dist that by simp
    show ?thesis
    proof (cases "i = j")
      case True
      have "batch_ok b (pending_for (pending_orders v) j)"
        using wf b by (intro pending_okD) (auto simp: venue_wf_def)
      with True show ?thesis by (auto simp: batch_ok_def)
    next
      case False
      then have "live_ids (order_books v) (pending_orders v) i \<inter> live_ids (order_books v) (pending_orders v) j = {}"
        using wf by (simp add: venue_wf_def)
      with b show ?thesis by (auto simp: live_ids_def)
    qed
  qed
  have "pending_ok (pending_orders v) books'"
  proof (rule pending_okI)
    fix i c
    assume c: "map_of books' i = Some c"
    with old obtain b where "map_of (order_books v) i = Some b" by blast
    then have "batch_ok b (pending_for (pending_orders v) i)" "book_instrument b = i"
      using wf pending_okD [of "pending_orders v" "order_books v" i b] by (auto simp: venue_wf_def books_ok_def)
    with each' [OF c] show "batch_ok c (pending_for (pending_orders v) i)"
      by (simp add: batch_ok_def)
  next
    show "set (dict_keys (pending_orders v)) \<subseteq> set (dict_keys books')"
      unfolding keys using wf by (simp add: venue_wf_def)
  qed (use wf in \<open>simp add: venue_wf_def pending_ok_def\<close>)
  moreover have "order_id ` set (pending_for (pending_orders v) i) \<subseteq>
      all_order_ids v - (\<Union>(iid, b) \<in> set (order_books v). order_ids b)" for i
  proof -
    have "order_id ` set (pending_for (pending_orders v) i) \<subseteq> all_order_ids v"
      using live_ids_known [OF wf, of i] by (simp add: live_ids_def)
    moreover have "order_id ` set (pending_for (pending_orders v) i) \<inter>
        (\<Union>(iid, b) \<in> set (order_books v). order_ids b) = {}"
    proof (rule equals0I)
      fix x
      assume "x \<in> order_id ` set (pending_for (pending_orders v) i) \<inter>
        (\<Union>(iid, b) \<in> set (order_books v). order_ids b)"
      then obtain j b where "(j, b) \<in> set (order_books v)" "x \<in> order_ids b"
        "x \<in> order_id ` set (pending_for (pending_orders v) i)" by auto
      with pend [of j b i] show False by blast
    qed
    ultimately show ?thesis by blast
  qed
  moreover have "order_id ` set (pending_for (pending_orders v) i) \<inter>
      order_id ` set (pending_for (pending_orders v) j) = {}" if "i \<noteq> j" for i j
  proof -
    have "live_ids (order_books v) (pending_orders v) i \<inter> live_ids (order_books v) (pending_orders v) j = {}"
      using wf that by (simp add: venue_wf_def)
    then show ?thesis by (auto simp: live_ids_def)
  qed
  moreover have "books_ok books'"
    using each' by (simp add: books_ok_def)
  moreover have "all_empty books'"
    using each no_ids_no_orders by (fastforce simp: all_empty_def)
  ultimately show ?thesis
    using wf keys by (simp add: v' venue_wf_def live)
qed

section \<open>The venue as the handler's exchange\<close>

interpretation venue_operations: exchange_operations
  "execute_opening_auction draw" cancel_all_orders venue_wf "\<lambda>v. all_empty (order_books v)" for draw
proof
  fix x e x'
  assume wf: "venue_wf x" and run: "execute_opening_auction draw x = (e, x')"
  obtain r p' books' where b: "batch_execute draw (pending_orders x) (order_books x) = (r, p', books')"
    by (metis surj_pair)
  from venue_wf_batch [OF wf b] run b show "e = None \<and> venue_wf x'"
    by (auto simp: execute_opening_auction_def)
next
  fix x e x'
  assume "venue_wf x" and "cancel_all_orders x = (e, x')"
  then show "e = None \<and> venue_wf x' \<and> all_empty (order_books x')"
    using cancel_all_orders_ok by blast
qed

lemma check_phase_transitions_ok:
  assumes wf: "venue_wf v" and run: "check_phase_transitions draw (Inr s) v = (e, v')"
  shows "e = None \<and> venue_wf v' \<and> last_phase v' = Some (ph_type s) \<and>
    (last_phase v = Some CONTINUOUS \<longrightarrow> ph_type s = CLOSED \<longrightarrow> all_empty (order_books v'))"
proof -
  let ?v = "v\<lparr>current_phase_state := s\<rparr>"
  have wf': "venue_wf ?v"
    using wf by (simp add: venue_wf_def)
  obtain r l x where c: "check_and_handle_transition (execute_opening_auction draw) cancel_all_orders
      (ph_type s) (last_phase v) ?v = (r, l, x)"
    by (metis surj_pair)
  from venue_operations.check_keeps [OF wf' c] have
    "\<forall>e. r \<noteq> Inl e" "venue_wf x" "l = Some (ph_type s)"
    "last_phase v = Some CONTINUOUS \<longrightarrow> ph_type s = CLOSED \<longrightarrow> all_empty (order_books x)"
    by auto
  moreover have "venue_wf (x\<lparr>last_phase := l\<rparr>) = venue_wf x"
    by (rule venue_wf_cong) simp_all
  ultimately show ?thesis
    using run c by (cases r) (auto simp: check_phase_transitions_def)
qed

section \<open>Reachable venues\<close>

text \<open>The calls a venue receives; one step returns the exception raised, if any.\<close>

datatype venue_op =
    List_Instrument instrument
  | Submit order
  | Cancel string string
  | Execute_Batch draws
  | Check_Phase draws "exn + phase_state"

definition outcome :: "exn + 'a \<Rightarrow> exn option" where
  "outcome r = (case r of Inl e \<Rightarrow> Some e | Inr _ \<Rightarrow> None)"

fun venue_step :: "venue_op \<Rightarrow> venue \<Rightarrow> exn option \<times> venue" where
  "venue_step (List_Instrument i) v = list_instrument i v"
| "venue_step (Submit o1) v = (case venue_submit_order o1 v of (r, o2, v') \<Rightarrow> (outcome r, v'))"
| "venue_step (Cancel oid trader) v = (case venue_cancel_order oid trader v of (r, v') \<Rightarrow> (outcome r, v'))"
| "venue_step (Execute_Batch draw) v = (case venue_execute_batch draw v of (r, v') \<Rightarrow> (outcome r, v'))"
| "venue_step (Check_Phase draw ps) v = check_phase_transitions draw ps v"

text \<open>Orders reach a venue through their constructor.\<close>

fun op_ok :: "venue_op \<Rightarrow> bool" where
  "op_ok (Submit o1) \<longleftrightarrow> fresh_order o1"
| "op_ok _ \<longleftrightarrow> True"

inductive reachable_venue :: "venue \<Rightarrow> bool" where
  start: "new_venue ps1 ps2 = Inr v \<Longrightarrow> reachable_venue v"
| step: "reachable_venue v \<Longrightarrow> op_ok c \<Longrightarrow> venue_step c v = (e, v') \<Longrightarrow> reachable_venue v'"

text \<open>The exceptions a step may raise on a valid venue.\<close>

fun raises :: "venue_op \<Rightarrow> exn option \<Rightarrow> bool" where
  "raises c None \<longleftrightarrow> True"
| "raises (Check_Phase draw ps) (Some e) \<longleftrightarrow> ps = Inl e"
| "raises (Execute_Batch draw) (Some e) \<longleftrightarrow> False"
| "raises c (Some e) \<longleftrightarrow> (\<exists>m. e = ValueError m)"

lemma submit_outcome:
  assumes wf: "venue_wf v" and fr: "fresh_order o1" and run: "venue_submit_order o1 v = (r, o2, v')"
  shows "(\<exists>m. r = Inl (ValueError m)) \<and> v' = v \<or> (\<exists>x. r = Inr x)"
proof (cases "map_of (order_books v) (instrument_id o1)")
  case None
  with run show ?thesis by (auto simp: venue_submit_order_def split: if_splits)
next
  case (Some b)
  show ?thesis
  proof (cases "is_order_submission_allowed (current_phase_state v) \<and> order_id o1 \<notin> all_order_ids v")
    case False
    with Some run show ?thesis by (auto simp: venue_submit_order_def split: if_splits)
  next
    case True
    have ok: "book_wf b" "addable o1 b"
      using wf Some fr True book_ids_known(1) [OF wf Some]
      by (auto simp: venue_wf_def books_ok_def addable_def fresh_order_def)
    obtain r' o' b' where "continuous_submit o1 b = (r', o', b')" by (metis surj_pair)
    with continuous_submit_spec [OF ok this] have "\<exists>x. r' = Inr x" by auto
    with Some True run \<open>continuous_submit o1 b = (r', o', b')\<close> show ?thesis
      by (auto simp: venue_submit_order_def Let_def batch_submit_def split: if_splits)
  qed
qed

lemma venue_step_ok:
  assumes wf: "venue_wf v" and op: "op_ok c" and run: "venue_step c v = (e, v')"
  shows "venue_wf v' \<and> raises c e"
proof (cases c)
  case (List_Instrument i)
  with run venue_wf_list_instrument [OF wf, of i] show ?thesis
    by (cases e) (auto simp: list_instrument_def Let_def split: if_splits)
next
  case (Submit o1)
  obtain r o2 v1 where s: "venue_submit_order o1 v = (r, o2, v1)" by (metis surj_pair)
  with Submit run have "v1 = v'" "e = outcome r" by auto
  with Submit op s venue_wf_submit [OF wf _ s] submit_outcome [OF wf _ s] show ?thesis
    by (auto simp: outcome_def)
next
  case (Cancel oid trader)
  obtain r v1 where s: "venue_cancel_order oid trader v = (r, v1)" by (metis surj_pair)
  with Cancel run s venue_wf_cancel [OF wf s] show ?thesis
    by (auto simp: outcome_def)
next
  case (Execute_Batch draw)
  obtain r p' books' where b: "batch_execute draw (pending_orders v) (order_books v) = (r, p', books')"
    by (metis surj_pair)
  from venue_wf_batch [OF wf b] b run Execute_Batch wf show ?thesis
    by (auto simp: venue_execute_batch_def outcome_def split: if_splits)
next
  case (Check_Phase draw ps)
  show ?thesis
  proof (cases ps)
    case (Inl x)
    with Check_Phase run wf show ?thesis by (auto simp: check_phase_transitions_def)
  next
    case (Inr s)
    with Check_Phase run check_phase_transitions_ok [OF wf, of draw s e v'] show ?thesis by simp
  qed
qed

lemma reachable_venue_wf: "reachable_venue v \<Longrightarrow> venue_wf v"
  by (induction rule: reachable_venue.induct) (use venue_wf_new venue_step_ok in blast)+

end
