(* ===== verification/Venue_Properties.thy ===== *)
theory Venue_Properties
  imports Venue Book_Properties
begin

text \<open>
  The properties of the exchange venue, with witnesses on a venue that lists one instrument
  with the concrete book of \<open>Book_Properties\<close>.
\<close>

section \<open>A concrete venue\<close>

definition phase_of :: "phase_type \<Rightarrow> bool \<Rightarrow> string \<Rightarrow> phase_state" where
  "phase_of p accepting style =
     \<lparr>ph_type = p, is_order_submission_allowed = accepting, is_order_cancellation_allowed = accepting,
      is_matching_enabled = (style \<noteq> ''none''), execution_style = style\<rparr>"

definition demo_venue :: "phase_state \<Rightarrow> phase_type \<Rightarrow> venue" where
  "demo_venue s l =
     \<lparr>order_books = [(''SPX'', demo_book)],
      instruments = [(''SPX'', \<lparr>symbol = ''SPX'', strike = None, expiry = None, option_type = None,
                                 underlying = None\<rparr>)],
      all_order_ids = {''b1'', ''a1'', ''a2''}, current_phase_state = s,
      pending_orders = [], last_phase = Some l\<rparr>"

lemma demo_venue_simps [simp]:
  "order_books (demo_venue s l) = [(''SPX'', demo_book)]"
  "all_order_ids (demo_venue s l) = {''b1'', ''a1'', ''a2''}"
  "current_phase_state (demo_venue s l) = s"
  "pending_orders (demo_venue s l) = []"
  "last_phase (demo_venue s l) = Some l"
  by (simp_all add: demo_venue_def)

lemma demo_venue_wf: "venue_wf (demo_venue s l)"
  using demo_book_wf
  by (simp add: venue_wf_def books_ok_def pending_ok_def live_ids_def demo_venue_def)

lemma phase_of_simps [simp]:
  "ph_type (phase_of p x style) = p"
  "is_order_submission_allowed (phase_of p x style) = x"
  "is_order_cancellation_allowed (phase_of p x style) = x"
  "execution_style (phase_of p x style) = style"
  "is_matching_enabled (phase_of p x style) = (style \<noteq> ''none'')"
  by (simp_all add: phase_of_def)

section \<open>Safety of every history\<close>

text \<open>
  C4: whatever calls a venue has received, listings, submissions of orders built by the
  constructor, cancellations by anyone, batches and phase checks in any order, its tables
  agree, no book is crossed, no order id is live in two places, and the next call raises at
  most a ValueError of its own validation or the exception the phase manager raised.
\<close>

theorem reachable_venue_safe:
  assumes "reachable_venue v" and "op_ok c" and "venue_step c v = (e, v')"
  shows "venue_wf v' \<and> raises c e \<and>
    (\<forall>iid b. map_of (order_books v') iid = Some b \<longrightarrow> book_wf b \<and> uncrossed b)"
  using venue_step_ok [OF reachable_venue_wf [OF assms(1)] assms(2,3)] venue_bookD by blast

theorem reachable_venue_safe_witness:
  "let v = \<lparr>order_books = [], instruments = [], all_order_ids = {},
            current_phase_state = phase_of CONTINUOUS True ''continuous'', pending_orders = [],
            last_phase = Some CONTINUOUS\<rparr>
   in \<exists>e v'. venue_step (Submit demo_buy) v = (e, v') \<and> venue_wf v' \<and> raises (Submit demo_buy) e"
proof -
  let ?s = "phase_of CONTINUOUS True ''continuous''"
  let ?v = "\<lparr>order_books = [], instruments = [], all_order_ids = {}, current_phase_state = ?s,
    pending_orders = [], last_phase = Some CONTINUOUS\<rparr>"
  have r: "reachable_venue ?v"
    by (rule reachable_venue.start [of "Inr ?s" "Inr ?s"]) (simp add: new_venue_def)
  have ok: "op_ok (Submit demo_buy)"
    using demo_buy_addable by (simp add: fresh_order_def addable_def) (simp add: demo_buy_def)
  obtain e v' where s: "venue_step (Submit demo_buy) ?v = (e, v')" by fastforce
  from reachable_venue_safe [OF r ok s] s show ?thesis by (simp add: Let_def)
qed

section \<open>Submission\<close>

text \<open>
  C15: what \<open>submit_order\<close> does in every phase. A phase that forbids submission yields a
  rejected result and changes nothing; an unknown instrument or a known order id raises a
  ValueError and changes nothing; otherwise the id becomes known and the order is either
  appended to the pending list of its instrument, when the phase's style is batch or
  matching is off, or matched at once against its book.
\<close>

theorem submit_order_gate:
  assumes "venue_wf v" and "fresh_order o1" and "venue_submit_order o1 v = (r, o2, v')"
  shows "if \<not> is_order_submission_allowed (current_phase_state v) then
      v' = v \<and> (\<exists>x. r = Inr x \<and> status x = ''rejected'' \<and> fills x = [])
    else if map_of (order_books v) (instrument_id o1) = None \<or> order_id o1 \<in> all_order_ids v then
      v' = v \<and> (\<exists>m. r = Inl (ValueError m))
    else all_order_ids v' = insert (order_id o1) (all_order_ids v) \<and>
      (if execution_style (current_phase_state v) = ''batch'' \<or> \<not> is_matching_enabled (current_phase_state v)
       then order_books v' = order_books v \<and>
         pending_for (pending_orders v') (instrument_id o1) =
           pending_for (pending_orders v) (instrument_id o1) @ [o1] \<and>
         (\<exists>x. r = Inr x \<and> status x = ''pending_new'')
       else pending_orders v' = pending_orders v \<and>
         (\<exists>b b' ts x. map_of (order_books v) (instrument_id o1) = Some b \<and>
            add_order o1 b = (None, ts, o2, b') \<and>
            order_books v' = AList.update (instrument_id o1) b' (order_books v) \<and>
            r = Inr x \<and> fills x = ts))"
proof (cases "map_of (order_books v) (instrument_id o1)")
  case None
  with assms(3) show ?thesis by (auto simp: venue_submit_order_def split: if_splits)
next
  case (Some b)
  have ok: "book_wf b" "order_id o1 \<notin> all_order_ids v \<Longrightarrow> addable o1 b"
    using venue_bookD [OF assms(1) Some] assms(2) book_ids_known(1) [OF assms(1) Some]
    by (auto simp: addable_def fresh_order_def)
  obtain r' o' b' where cont: "continuous_submit o1 b = (r', o', b')"
    by (metis surj_pair)
  show ?thesis
  proof (cases "order_id o1 \<in> all_order_ids v")
    case True
    with assms(3) Some show ?thesis by (auto simp: venue_submit_order_def split: if_splits)
  next
    case False
    obtain ts x where "add_order o1 b = (None, ts, o', b')" "r' = Inr x" "fills x = ts"
      by (rule continuous_submit_spec [OF ok(1) ok(2) [OF False] cont]) simp
    with assms(3) Some False cont show ?thesis
      by (auto simp: venue_submit_order_def should_use_batch_engine_def batch_submit_def Let_def
          update_idem [OF Some] split: if_splits)
  qed
qed

theorem submit_order_gate_witness:
  "\<exists>r o2 v'. venue_submit_order demo_buy (demo_venue (phase_of PRE_OPEN True ''none'') PRE_OPEN) = (r, o2, v') \<and>
    order_books v' = [(''SPX'', demo_book)] \<and> pending_for (pending_orders v') ''SPX'' = [demo_buy]"
proof -
  let ?v = "demo_venue (phase_of PRE_OPEN True ''none'') PRE_OPEN"
  obtain r o2 v' where s: "venue_submit_order demo_buy ?v = (r, o2, v')" by (metis surj_pair)
  have "fresh_order demo_buy"
    using demo_buy_addable by (simp add: fresh_order_def addable_def) (simp add: demo_buy_def)
  from submit_order_gate [OF demo_venue_wf this s] s show ?thesis
    by (auto simp: demo_buy_def)
qed

section \<open>Cancellation\<close>



section \<open>Phase changes\<close>



text \<open>
  leaving the pre-open phase. When the check sees OPENING_AUCTION next, the auction
  runs, raises nothing and leaves no order pending; when it sees any other phase next, for
  instance CONTINUOUS because no check fell into the auction window, no auction runs: books
  and pending orders are as they were.
\<close>

theorem pre_open_exit:
  assumes "venue_wf v" and "last_phase v = Some PRE_OPEN"
    and "check_phase_transitions draw (Inr s) v = (e, v')"
  shows "e = None \<and> venue_wf v' \<and>
    (if ph_type s = OPENING_AUCTION then pending_orders v' = []
     else order_books v' = order_books v \<and> pending_orders v' = pending_orders v)"
proof -
  let ?v = "v\<lparr>current_phase_state := s\<rparr>"
  have wf: "venue_wf ?v" using assms(1) by (simp add: venue_wf_def)
  obtain r p' books' where b: "batch_execute draw (pending_orders v) (order_books v) = (r, p', books')"
    by (metis surj_pair)
  then have "p' = []" using venue_wf_batch [OF assms(1)] by blast
  moreover have "venue_wf v' \<and> e = None"
    using check_phase_transitions_ok [OF assms(1,3)] by blast
  ultimately show ?thesis
    using assms(2,3) b
    by (cases "ph_type s") (auto simp: check_phase_transitions_def check_and_handle_transition_def
        handle_transition_def transition_action_def execute_opening_auction_def split: sum.splits prod.splits)
qed

theorem pre_open_exit_witness:
  "\<exists>e v'. check_phase_transitions (\<lambda>_ _ _. 0) (Inr (phase_of CONTINUOUS True ''continuous''))
      (demo_venue (phase_of PRE_OPEN True ''none'') PRE_OPEN) = (e, v') \<and>
    e = None \<and> order_books v' = [(''SPX'', demo_book)]"
proof -
  let ?v = "demo_venue (phase_of PRE_OPEN True ''none'') PRE_OPEN"
  obtain e v' where c: "check_phase_transitions (\<lambda>_ _ _. 0) (Inr (phase_of CONTINUOUS True ''continuous'')) ?v = (e, v')"
    by fastforce
  have "last_phase ?v = Some PRE_OPEN" by simp
  from pre_open_exit [OF demo_venue_wf this c] c show ?thesis by simp
qed

end
