(* ===== verification/Positions.thy ===== *)
theory Positions
  imports Book_Theorems
begin

text \<open>
  Positions, fees and trade processing: \<open>domain/positions/position_service.py\<close>,
  \<open>threads.py\<close> (the position tracker), \<open>fee_service.py\<close>, \<open>models.py\<close> and
  \<open>trade_processor.py\<close>. Every method holds the service's reentrant lock for its whole body,
  so operations are atomic and their interleavings are sequences. Positions are the exact
  numbers the integers denote; \<open>int()\<close> casts are \<open>py_int\<close>.
\<close>

section \<open>The position service\<close>

type_synonym positions = "(string, (string, rat) dict) dict"

definition team_positions :: "positions \<Rightarrow> string \<Rightarrow> (string, rat) dict" where
  "team_positions ps team = (case map_of ps team of None \<Rightarrow> [] | Some m \<Rightarrow> m)"

definition update_position :: "string \<Rightarrow> string \<Rightarrow> rat \<Rightarrow> positions \<Rightarrow> positions" where
  "update_position team iid delta ps =
     (let m = team_positions ps team;
          old = (case map_of m iid of None \<Rightarrow> 0 | Some q \<Rightarrow> q)
      in AList.update team (AList.update iid (old + delta) m) ps)"

definition get_positions :: "positions \<Rightarrow> string \<Rightarrow> (string, rat) dict" where
  "get_positions ps team = team_positions ps team"

definition get_position_for_instrument :: "positions \<Rightarrow> string \<Rightarrow> string \<Rightarrow> rat" where
  "get_position_for_instrument ps team iid =
     (case map_of ps team of
        Some m \<Rightarrow> (case map_of m iid of None \<Rightarrow> 0 | Some q \<Rightarrow> q)
      | None \<Rightarrow> 0)"

definition initialize_team :: "string \<Rightarrow> positions \<Rightarrow> positions" where
  "initialize_team team ps = (if team \<in> set (dict_keys ps) then ps else AList.update team [] ps)"

definition get_total_absolute_position :: "positions \<Rightarrow> string \<Rightarrow> rat" where
  "get_total_absolute_position ps team = sum_list (map abs (dict_values (team_positions ps team)))"

section \<open>The store as an interface\<close>

text \<open>
  What the tracker and the trade processor rely on: a read after an update sees the delta,
  and nothing else changes.
\<close>

locale position_store =
  fixes upd :: "string \<Rightarrow> string \<Rightarrow> rat \<Rightarrow> 's \<Rightarrow> 's"
    and get :: "'s \<Rightarrow> string \<Rightarrow> string \<Rightarrow> rat"
  assumes get_upd: "get (upd team iid d s) team' iid' =
      get s team' iid' + (if team' = team \<and> iid' = iid then d else 0)"
begin

text \<open>A list of updates adds up, in whatever order it is applied.\<close>

lemma get_fold:
  "get (fold (\<lambda>(team, iid, d). upd team iid d) us s) team' iid' =
     get s team' iid' + sum_list (map (\<lambda>(team, iid, d). if team' = team \<and> iid' = iid then d else 0) us)"
  by (induction us arbitrary: s) (auto simp: get_upd)

lemma get_fold_perm:
  assumes "mset us = mset vs"
  shows "get (fold (\<lambda>(team, iid, d). upd team iid d) us s) team' iid' =
    get (fold (\<lambda>(team, iid, d). upd team iid d) vs s) team' iid'"
proof -
  have "sum_list (map f us) = sum_list (map f vs)" for f :: "string \<times> string \<times> rat \<Rightarrow> rat"
    using assms by (metis mset_map sum_mset_sum_list)
  then show ?thesis by (simp add: get_fold)
qed

end

lemma get_update_position [quantity_simps]:
  "get_position_for_instrument (update_position team iid d ps) team' iid' =
     get_position_for_instrument ps team' iid' + (if team' = team \<and> iid' = iid then d else 0)"
  by (auto simp: get_position_for_instrument_def update_position_def Let_def update_key_cases
      team_positions_def split: option.splits)

interpretation service_store: position_store update_position get_position_for_instrument
  by unfold_locales (rule get_update_position)

section \<open>The position tracker\<close>

record team_info =
  team_id :: string
  team_name :: string
  role :: string
  api_key :: string

definition process_aggressor_position :: "trade \<Rightarrow> order \<Rightarrow> team_info \<Rightarrow> positions \<Rightarrow> positions" where
  "process_aggressor_position t o1 team ps =
     (let d = (if side_value (side o1) = ''buy'' then t_quantity t else - t_quantity t)
      in update_position (team_id team) (instrument_id o1) d ps)"

definition process_counterparty_position :: "trade \<Rightarrow> order \<Rightarrow> team_info \<Rightarrow> positions \<Rightarrow> positions" where
  "process_counterparty_position t o1 team ps =
     (let (cp, d) =
          (if side_value (side o1) = ''buy'' then (seller_id t, - t_quantity t)
           else (buyer_id t, t_quantity t))
      in if cp \<noteq> team_id team then update_position cp (instrument_id o1) d ps else ps)"

definition track_fill :: "order \<Rightarrow> team_info \<Rightarrow> trade \<Rightarrow> positions \<Rightarrow> positions" where
  "track_fill o1 team t ps =
     process_counterparty_position t o1 team (process_aggressor_position t o1 team ps)"

definition track_result :: "order_result \<Rightarrow> order \<Rightarrow> team_info \<Rightarrow> positions \<Rightarrow> positions" where
  "track_result r o1 team ps = fold (track_fill o1 team) (fills r) ps"

text \<open>
  The thread: it takes items from its queue until the shutdown marker None. On items of the
  pipeline's shape no step raises, so the handler that would log and go on is never used.
\<close>

fun position_tracker :: "(order_result \<times> order \<times> team_info) option list \<Rightarrow> positions \<Rightarrow> positions" where
  "position_tracker [] ps = ps"
| "position_tracker (None # q) ps = ps"
| "position_tracker (Some (r, o1, team) # q) ps = position_tracker q (track_result r o1 team ps)"

section \<open>Fees\<close>

record fee_schedule =
  maker_rebate :: rat
  taker_fee :: rat

definition get_fee_for_liquidity_type :: "fee_schedule \<Rightarrow> string \<Rightarrow> exn + rat" where
  "get_fee_for_liquidity_type s l =
     (if l = ''maker'' then Inr (maker_rebate s)
      else if l = ''taker'' then Inr (taker_fee s)
      else Inl (ValueError [Txt ''Invalid liquidity type: '', Txt l,
                            Txt (''. Must be '' @ quoted ''maker'' @ '' or '' @ quoted ''taker'')]))"

definition calculate_fee :: "(string, fee_schedule) dict \<Rightarrow> rat \<Rightarrow> string \<Rightarrow> string \<Rightarrow> exn + rat" where
  "calculate_fee fees q rl l =
     (case map_of fees rl of
        None \<Rightarrow> Inl (KeyError [Txt ''Unknown role: '', Txt rl, Txt ''. Available roles: '', repr_list (dict_keys fees)])
      | Some s \<Rightarrow>
          (case get_fee_for_liquidity_type s l of Inl e \<Rightarrow> Inl e | Inr rate \<Rightarrow> Inr (q * rate)))"

definition determine_liquidity_type :: "string \<Rightarrow> string \<Rightarrow> string" where
  "determine_liquidity_type aggressor sd = (if aggressor = sd then ''taker'' else ''maker'')"

definition get_fee_schedule :: "(string, fee_schedule) dict \<Rightarrow> string \<Rightarrow> exn + fee_schedule" where
  "get_fee_schedule fees rl =
     (case map_of fees rl of
        None \<Rightarrow> Inl (KeyError [Txt ''Unknown role: '', Txt rl, Txt ''. Available roles: '', repr_list (dict_keys fees)])
      | Some s \<Rightarrow> Inr s)"

section \<open>Trade processing\<close>

record execution_report =
  er_trade :: trade
  er_buyer_order_id :: string
  er_seller_order_id :: string
  er_client_order_id :: "string option"
  er_liquidity_type :: string
  er_fees :: rat

text \<open>The service's state: the positions and the messages put into the websocket queue.\<close>

record processing =
  pr_positions :: positions
  pr_queue :: "(string \<times> execution_report) list"

record order_response =
  or_order_id :: string
  or_status :: string
  or_filled_quantity :: int
  or_average_price :: "rat option"
  or_fees :: rat
  or_liquidity_type :: "string option"

definition create_execution_report_data :: "trade \<Rightarrow> order \<Rightarrow> string \<Rightarrow> rat \<Rightarrow> execution_report" where
  "create_execution_report_data t o1 l fee =
     \<lparr>er_trade = t, er_buyer_order_id = buyer_order_id t, er_seller_order_id = seller_order_id t,
      er_client_order_id =
        (if order_id o1 \<in> {buyer_order_id t, seller_order_id t} then client_order_id o1 else None),
      er_liquidity_type = l, er_fees = fee\<rparr>"

definition process_single_fill ::
    "(string, fee_schedule) dict \<Rightarrow> trade \<Rightarrow> order \<Rightarrow> team_info \<Rightarrow> processing \<Rightarrow>
     (exn + rat \<times> string) \<times> processing" where
  "process_single_fill fees t o1 team st =
     (let l = determine_liquidity_type (aggressor_side t) (side_value (side o1)) in
      case calculate_fee fees (of_int (py_int (t_quantity t))) (role team) l of
        Inl e \<Rightarrow> (Inl e, st)
      | Inr fee \<Rightarrow>
          (Inr (fee, l),
           st\<lparr>pr_queue := pr_queue st @ [(team_id team, create_execution_report_data t o1 l fee)]\<rparr>))"

fun process_fills ::
    "(string, fee_schedule) dict \<Rightarrow> trade list \<Rightarrow> order \<Rightarrow> team_info \<Rightarrow> rat \<times> string list \<Rightarrow> processing \<Rightarrow>
     (exn + rat \<times> string list) \<times> processing" where
  "process_fills fees [] o1 team (acc, ls) st = (Inr (acc, ls), st)"
| "process_fills fees (t # ts) o1 team (acc, ls) st =
     (case process_single_fill fees t o1 team st of
        (Inl e, st') \<Rightarrow> (Inl e, st')
      | (Inr (fee, l), st') \<Rightarrow> process_fills fees ts o1 team (acc + fee, ls @ [l]) st')"

definition calculate_position_delta :: "rat \<Rightarrow> string \<Rightarrow> rat" where
  "calculate_position_delta q sd = (if sd = ''buy'' then q else - q)"

definition calculate_average_price :: "trade list \<Rightarrow> exn + rat" where
  "calculate_average_price ts =
     (let value = sum_list (map (\<lambda>t. t_price t * t_quantity t) ts); q = total_traded ts
      in if q = 0 then Inl ZeroDivisionError else Inr (value / q))"

definition determine_overall_liquidity_type :: "string list \<Rightarrow> string option" where
  "determine_overall_liquidity_type ls =
     (case remdups ls of [] \<Rightarrow> None | [l] \<Rightarrow> Some l | _ \<Rightarrow> Some ''mixed'')"

definition get_counterparty_info :: "trade \<Rightarrow> order \<Rightarrow> string \<times> rat" where
  "get_counterparty_info t o1 =
     (if order_id o1 = buyer_order_id t then (seller_id t, -1) else (buyer_id t, 1))"

definition update_counterparty_position :: "order \<Rightarrow> string \<Rightarrow> trade \<Rightarrow> positions \<Rightarrow> positions" where
  "update_counterparty_position o1 aggressor t ps =
     (let (cp, d) = get_counterparty_info t o1
      in if cp = aggressor then ps
         else update_position cp (instrument_id o1) (d * of_int (py_int (t_quantity t))) ps)"

definition process_trade_result ::
    "(string, fee_schedule) dict \<Rightarrow> order_result \<Rightarrow> order \<Rightarrow> team_info \<Rightarrow> processing \<Rightarrow>
     (exn + order_response) \<times> processing" where
  "process_trade_result fees r o1 team st =
     (let q = py_int (total_traded (fills r)) in
      if q > 0 then
        (case process_fills fees (fills r) o1 team (0, []) st of
           (Inl e, st1) \<Rightarrow> (Inl e, st1)
         | (Inr (acc, ls), st1) \<Rightarrow>
             (let ps = update_position (team_id team) (instrument_id o1)
                         (calculate_position_delta (of_int q) (side_value (side o1))) (pr_positions st1);
                  ps' = fold (update_counterparty_position o1 (team_id team)) (fills r) ps;
                  st2 = st1\<lparr>pr_positions := ps'\<rparr>
              in case calculate_average_price (fills r) of
                   Inl e \<Rightarrow> (Inl e, st2)
                 | Inr avg \<Rightarrow>
                     (Inr \<lparr>or_order_id = order_id o1, or_status = status r, or_filled_quantity = q,
                           or_average_price = Some avg, or_fees = acc,
                           or_liquidity_type = determine_overall_liquidity_type ls\<rparr>, st2)))
      else
        (Inr \<lparr>or_order_id = order_id o1, or_status = status r, or_filled_quantity = q,
              or_average_price = None, or_fees = 0, or_liquidity_type = None\<rparr>, st))"

end
