(* ===== verification/Position_Properties.thy ===== *)
theory Position_Properties
  imports Positions Matching_Engines
begin

text \<open>
  What the position keeping guarantees: it books every trade on both sides, the two
  implementations agree, and the aggregated response is right. The abstract account of a
  team is the net quantity it bought.
\<close>

section \<open>The ledger\<close>

text \<open>Net quantity a team bought of an instrument in a list of trades.\<close>

definition net_bought :: "string \<Rightarrow> string \<Rightarrow> trade list \<Rightarrow> rat" where
  "net_bought team iid ts =
     sum_list (map (\<lambda>t. if t_instrument_id t = iid then
       (if buyer_id t = team then t_quantity t else 0) - (if seller_id t = team then t_quantity t else 0)
       else 0) ts)"

lemma net_bought_simps [simp]:
  "net_bought team iid [] = 0"
  "net_bought team iid (t # ts) =
     (if t_instrument_id t = iid then
       (if buyer_id t = team then t_quantity t else 0) - (if seller_id t = team then t_quantity t else 0)
      else 0) + net_bought team iid ts"
  by (simp_all add: net_bought_def)

text \<open>A fill of an order by the team that sent it, as the order book produces it.\<close>

definition own_fill :: "order \<Rightarrow> team_info \<Rightarrow> trade \<Rightarrow> bool" where
  "own_fill o1 team t \<longleftrightarrow>
     t_instrument_id t = instrument_id o1 \<and>
     (if side o1 = BUY then buyer_id t = team_id team \<and> buyer_order_id t = order_id o1
      else seller_id t = team_id team \<and> seller_order_id t = order_id o1 \<and> buyer_order_id t \<noteq> order_id o1)"

definition self_trade :: "trade \<Rightarrow> bool" where
  "self_trade t \<longleftrightarrow> buyer_id t = seller_id t"

lemma side_value_buy [simp]: "side_value sd = ''buy'' \<longleftrightarrow> sd = BUY"
  by (cases sd) simp_all

text \<open>
  The effect of one fill: the ledger's, except that a self-trade books only the side of the
  order.
\<close>

definition booked :: "order \<Rightarrow> trade \<Rightarrow> string \<Rightarrow> string \<Rightarrow> rat" where
  "booked o1 t team iid =
     (if self_trade t then
        (if team = buyer_id t \<and> iid = t_instrument_id t then
           (if side o1 = BUY then t_quantity t else - t_quantity t) else 0)
      else net_bought team iid [t])"

lemma track_fill_booked:
  assumes "own_fill o1 team t"
  shows "get_position_for_instrument (track_fill o1 team t ps) x iid =
    get_position_for_instrument ps x iid + booked o1 t x iid"
  using assms
  by (auto simp: track_fill_def process_counterparty_position_def process_aggressor_position_def Let_def
      get_update_position own_fill_def booked_def self_trade_def split: if_splits)

lemma track_fills_booked:
  assumes "\<forall>t \<in> set ts. own_fill o1 team t"
  shows "get_position_for_instrument (fold (track_fill o1 team) ts ps) x iid =
    get_position_for_instrument ps x iid + sum_list (map (\<lambda>t. booked o1 t x iid) ts)"
  using assms by (induction ts arbitrary: ps) (simp_all add: track_fill_booked)

lemma sum_booked_net:
  "\<forall>t \<in> set ts. \<not> self_trade t \<Longrightarrow> sum_list (map (\<lambda>t. booked o1 t x iid) ts) = net_bought x iid ts"
  by (induction ts) (auto simp: booked_def)

section \<open>The trade processor\<close>

lemma update_counterparty_booked:
  assumes "own_fill o1 team t" and "t_quantity t \<in> \<int>"
  shows "get_position_for_instrument (update_counterparty_position o1 (team_id team) t ps) x iid =
    get_position_for_instrument ps x iid + booked o1 t x iid -
      (if x = team_id team \<and> iid = instrument_id o1 then (if side o1 = BUY then t_quantity t else - t_quantity t) else 0)"
  using assms
  by (auto simp: update_counterparty_position_def get_counterparty_info_def Let_def get_update_position
      own_fill_def booked_def self_trade_def whole_iff_Ints [symmetric] split: if_splits)

lemma update_counterparties_booked:
  assumes "\<forall>t \<in> set ts. own_fill o1 team t \<and> t_quantity t \<in> \<int>"
  shows "get_position_for_instrument (fold (update_counterparty_position o1 (team_id team)) ts ps) x iid =
    get_position_for_instrument ps x iid + sum_list (map (\<lambda>t. booked o1 t x iid) ts) -
      (if x = team_id team \<and> iid = instrument_id o1 then
         (if side o1 = BUY then total_traded ts else - total_traded ts) else 0)"
  using assms
  by (induction ts arbitrary: ps) (auto simp: update_counterparty_booked)

lemma process_fills_ok:
  assumes "map_of fees (role team) = Some s"
  shows "\<exists>q. process_fills fees ts o1 team (acc, ls) st =
    (Inr (acc + sum_list (map (\<lambda>t. of_int (py_int (t_quantity t)) *
        (if aggressor_side t = side_value (side o1) then taker_fee s else maker_rebate s)) ts),
      ls @ map (\<lambda>t. determine_liquidity_type (aggressor_side t) (side_value (side o1))) ts),
     st\<lparr>pr_queue := pr_queue st @ q\<rparr>) \<and> length q = length ts"
proof (induction ts arbitrary: acc ls st)
  case (Cons t ts)
  let ?l = "determine_liquidity_type (aggressor_side t) (side_value (side o1))"
  let ?fee = "of_int (py_int (t_quantity t)) *
    (if aggressor_side t = side_value (side o1) then taker_fee s else maker_rebate s)"
  have fee: "calculate_fee fees (of_int (py_int (t_quantity t))) (role team) ?l = Inr ?fee"
    using assms by (simp add: calculate_fee_def get_fee_for_liquidity_type_def determine_liquidity_type_def)
  from Cons.IH [of "acc + ?fee" "ls @ [?l]"
      "st\<lparr>pr_queue := pr_queue st @ [(team_id team, create_execution_report_data t o1 ?l ?fee)]\<rparr>"]
  show ?case
    by (auto simp: process_single_fill_def Let_def fee add.assoc)
qed simp

lemma total_traded_nonneg: "\<forall>t \<in> set ts. 0 < t_quantity t \<Longrightarrow> 0 \<le> total_traded ts"
  by (intro sum_list_nonneg) (auto intro: less_imp_le)

lemma total_traded_pos:
  assumes "\<forall>t \<in> set ts. 0 < t_quantity t" and "ts \<noteq> []"
  shows "0 < total_traded ts"
proof (cases ts)
  case (Cons t us)
  with assms total_traded_nonneg [of us] show ?thesis by (simp add: add_pos_nonneg)
qed (use assms in simp)

lemma total_traded_whole: "\<forall>t \<in> set ts. t_quantity t \<in> \<int> \<Longrightarrow> total_traded ts \<in> \<int>"
  by (rule sum_list_Ints) auto

text \<open>The average price lies between the prices of the fills.\<close>

lemma weighted_bounds:
  assumes "\<forall>t \<in> set ts. 0 < t_quantity t \<and> lo \<le> t_price t \<and> t_price t \<le> hi"
  shows "lo * total_traded ts \<le> sum_list (map (\<lambda>t. t_price t * t_quantity t) ts) \<and>
    sum_list (map (\<lambda>t. t_price t * t_quantity t) ts) \<le> hi * total_traded ts"
  using assms
proof (induction ts)
  case (Cons t ts)
  have "lo * t_quantity t \<le> t_price t * t_quantity t" "t_price t * t_quantity t \<le> hi * t_quantity t"
    using Cons.prems by (auto intro!: mult_right_mono)
  with Cons show ?case by (simp add: distrib_left add_mono)
qed simp

lemma overall_mixed:
  "determine_overall_liquidity_type
     (map (\<lambda>t. determine_liquidity_type (aggressor_side t) (side_value (side o1))) ts) = Some ''mixed'' \<longleftrightarrow>
   (\<exists>t \<in> set ts. aggressor_side t = side_value (side o1)) \<and>
   (\<exists>t \<in> set ts. aggressor_side t \<noteq> side_value (side o1))"
proof -
  let ?ls = "map (\<lambda>t. determine_liquidity_type (aggressor_side t) (side_value (side o1))) ts"
  have sub: "set ?ls \<subseteq> {''taker'', ''maker''}"
    by (auto simp: determine_liquidity_type_def)
  have "determine_overall_liquidity_type ?ls = Some ''mixed'' \<longleftrightarrow> ''taker'' \<in> set ?ls \<and> ''maker'' \<in> set ?ls"
  proof -
    have set_eq: "set (remdups ?ls) = set ?ls" "distinct (remdups ?ls)" by simp_all
    show ?thesis
    proof (cases "remdups ?ls")
      case Nil
      with set_eq show ?thesis by (simp add: determine_overall_liquidity_type_def)
    next
      case (Cons l ls)
      show ?thesis
      proof (cases ls)
        case Nil
        with Cons have "set ?ls = {l}" using set_eq(1) by simp
        moreover have "l \<noteq> ''mixed''" using sub calculation by auto
        ultimately show ?thesis
          using Cons Nil by (auto simp: determine_overall_liquidity_type_def)
      next
        case (Cons l' ls')
        note eq = \<open>remdups ?ls = l # ls\<close> [unfolded Cons]
        then have mem: "l \<in> set ?ls" "l' \<in> set ?ls" "l \<noteq> l'"
          using set_eq by (metis list.set_intros(1,2), metis list.set_intros(1,2), metis distinct_length_2_or_more)
        with sub have "''taker'' \<in> set ?ls \<and> ''maker'' \<in> set ?ls" by blast
        then show ?thesis by (simp add: determine_overall_liquidity_type_def eq)
      qed
    qed
  qed
  then show ?thesis by (auto simp: determine_liquidity_type_def image_iff)
qed

section \<open>Properties of the tracker\<close>

text \<open>The trades of the items a queue delivers before the shutdown marker.\<close>

fun delivered :: "(order_result \<times> order \<times> team_info) option list \<Rightarrow> (order_result \<times> order \<times> team_info) list" where
  "delivered [] = []"
| "delivered (None # q) = []"
| "delivered (Some x # q) = x # delivered q"

definition delivered_trades :: "(order_result \<times> order \<times> team_info) option list \<Rightarrow> trade list" where
  "delivered_trades q = concat (map (\<lambda>(r, o1, team). fills r) (delivered q))"

lemma net_bought_append [simp]: "net_bought x iid (ts @ us) = net_bought x iid ts + net_bought x iid us"
  by (simp add: net_bought_def)

lemma tracker_net:
  assumes "\<forall>(r, o1, team) \<in> set (delivered q). \<forall>t \<in> set (fills r). own_fill o1 team t \<and> \<not> self_trade t"
  shows "get_position_for_instrument (position_tracker q ps) x iid =
    get_position_for_instrument ps x iid + net_bought x iid (delivered_trades q)"
  using assms
proof (induction q ps rule: position_tracker.induct)
  case (3 r o1 team q ps)
  have ok: "\<forall>t \<in> set (fills r). own_fill o1 team t" "\<forall>t \<in> set (fills r). \<not> self_trade t"
    using "3.prems" by auto
  have "get_position_for_instrument (track_result r o1 team ps) x iid =
      get_position_for_instrument ps x iid + net_bought x iid (fills r)"
    unfolding track_result_def track_fills_booked [OF ok(1)] sum_booked_net [OF ok(2)] ..
  with 3 show ?case
    by (simp add: delivered_trades_def)
qed (simp_all add: delivered_trades_def)

lemma net_zero:
  assumes "finite X" and "\<forall>t \<in> set ts. buyer_id t \<in> X \<and> seller_id t \<in> X"
  shows "(\<Sum>x \<in> X. net_bought x iid ts) = 0"
  using assms(2)
proof (induction ts)
  case (Cons t ts)
  have "(\<Sum>x \<in> X. (if buyer_id t = x then t_quantity t else 0) - (if seller_id t = x then t_quantity t else 0)) = 0"
    using Cons.prems assms(1) by (simp add: sum_subtractf)
  with Cons show ?case by (cases "t_instrument_id t = iid") (simp_all add: sum.distrib)
qed simp

text \<open>
  the position tracker keeps the ledger. For any queue of results whose fills belong
  to the sender's order and pair two different teams, every team's position in every
  instrument changes by exactly the net quantity the delivered trades say it bought, so
  over any set of teams that contains all parties the positions still sum to the same.
\<close>

theorem tracker_keeps_ledger:
  assumes "\<forall>(r, o1, team) \<in> set (delivered q). \<forall>t \<in> set (fills r). own_fill o1 team t \<and> \<not> self_trade t"
  shows "get_position_for_instrument (position_tracker q ps) x iid =
      get_position_for_instrument ps x iid + net_bought x iid (delivered_trades q) \<and>
    (\<forall>X. finite X \<longrightarrow> (\<forall>t \<in> set (delivered_trades q). buyer_id t \<in> X \<and> seller_id t \<in> X) \<longrightarrow>
      (\<Sum>x \<in> X. get_position_for_instrument (position_tracker q ps) x iid) =
      (\<Sum>x \<in> X. get_position_for_instrument ps x iid))"
  using tracker_net [OF assms] net_zero by (simp add: sum.distrib)

definition demo_team :: "string \<Rightarrow> team_info" where
  "demo_team tid = \<lparr>team_id = tid, team_name = tid, role = ''market_maker'', api_key = tid\<rparr>"

definition demo_fill :: "string \<Rightarrow> trade" where
  "demo_fill seller =
     \<lparr>t_instrument_id = ''SPX'', buyer_id = ''T1'', seller_id = seller, t_price = 100, t_quantity = 5,
      buyer_order_id = ''x'', seller_order_id = ''s'', aggressor_side = ''buy''\<rparr>"

definition fill_order :: order where
  "fill_order =
     \<lparr>instrument_id = ''SPX'', side = BUY, quantity = 5, trader_id = ''T1'', price = Some 100,
      order_id = ''x'', order_type = LIMIT, client_order_id = None, remaining_quantity = 0\<rparr>"

definition fill_result :: "string \<Rightarrow> order_result" where
  "fill_result seller =
     \<lparr>r_order_id = ''x'', status = ''filled'', fills = [demo_fill seller], r_remaining = 0,
      error_code = None, error_message = None\<rparr>"

lemmas demo_fill_defs = demo_team_def demo_fill_def fill_order_def fill_result_def

theorem tracker_keeps_ledger_witness:
  "get_position_for_instrument
     (position_tracker [Some (fill_result ''T2'', fill_order, demo_team ''T1''), None] []) ''T2'' ''SPX'' = -5"
  using tracker_keeps_ledger [of "[Some (fill_result ''T2'', fill_order, demo_team ''T1''), None]" "[]" "''T2''" "''SPX''"]
  by (simp add: demo_fill_defs own_fill_def self_trade_def delivered_trades_def get_position_for_instrument_def)

text \<open>
  self-trades are booked on one side only. When a team fills its own resting order the
  ledger says nothing changed, but the tracker moves the team's position by the full
  quantity, up for a buy and down for a sell.
\<close>

theorem self_trade_moves_position:
  assumes "own_fill o1 team t" and "self_trade t" and "fills r = [t]"
  shows "get_position_for_instrument (track_result r o1 team ps) (team_id team) (instrument_id o1) =
      get_position_for_instrument ps (team_id team) (instrument_id o1) +
      (if side o1 = BUY then t_quantity t else - t_quantity t) \<and>
    net_bought (team_id team) (instrument_id o1) (fills r) = 0"
  using track_fill_booked [OF assms(1), of ps "team_id team" "instrument_id o1"] assms
  by (auto simp: track_result_def booked_def own_fill_def self_trade_def split: if_splits)

theorem self_trade_moves_position_witness:
  "get_position_for_instrument (track_result (fill_result ''T1'') fill_order (demo_team ''T1'') []) ''T1'' ''SPX'' = 5"
proof -
  have "own_fill fill_order (demo_team ''T1'') (demo_fill ''T1'')" "self_trade (demo_fill ''T1'')"
    "fills (fill_result ''T1'') = [demo_fill ''T1'']"
    by (simp_all add: demo_fill_defs own_fill_def self_trade_def)
  from self_trade_moves_position [OF this, of "[]"] show ?thesis
    by (simp add: demo_fill_defs get_position_for_instrument_def)
qed

section \<open>Properties of the trade processor\<close>

text \<open>
  C33: the trade processor and the tracker agree. On a result with whole fills of the
  sender's order, when the team's role has a fee schedule, \<open>process_trade_result\<close> succeeds
  and leaves every position as the tracker leaves it, although it books the order's side
  once for the total and finds the counterparty by order id instead of by side.
\<close>

theorem processor_equals_tracker:
  assumes "\<forall>t \<in> set (fills r). own_fill o1 team t \<and> t_quantity t \<in> \<int> \<and> 0 < t_quantity t"
    and "map_of fees (role team) = Some s"
  shows "\<exists>resp st'. process_trade_result fees r o1 team st = (Inr resp, st') \<and>
    (\<forall>x iid. get_position_for_instrument (pr_positions st') x iid =
       get_position_for_instrument (track_result r o1 team (pr_positions st)) x iid) \<and>
    length (pr_queue st') = length (pr_queue st) + length (fills r)"
proof (cases "fills r = []")
  case True
  then show ?thesis by (simp add: process_trade_result_def track_result_def py_int_def)
next
  case False
  let ?q = "total_traded (fills r)"
  have pos: "0 < ?q" using assms(1) False by (intro total_traded_pos) auto
  have whole: "of_int (py_int ?q) = ?q"
    using total_traded_whole [of "fills r"] assms(1) by (simp flip: whole_iff_Ints)
  have gt: "py_int ?q > 0" using pos whole by (metis of_int_0_less_iff)
  obtain avg where avg: "calculate_average_price (fills r) = Inr avg"
    using pos by (auto simp: calculate_average_price_def Let_def)
  have cps: "\<forall>t \<in> set (fills r). own_fill o1 team t \<and> t_quantity t \<in> \<int>" "\<forall>t \<in> set (fills r). own_fill o1 team t"
    using assms(1) by auto
  from process_fills_ok [OF assms(2), of "fills r" o1 0 "[]" st] obtain total ls q where
    pf: "process_fills fees (fills r) o1 team (0, []) st = (Inr (total, ls), st\<lparr>pr_queue := pr_queue st @ q\<rparr>)"
    and len: "length q = length (fills r)"
    by blast
  show ?thesis
    using gt whole pf len avg
    by (auto simp: process_trade_result_def Let_def track_result_def track_fills_booked [OF cps(2)]
        update_counterparties_booked [OF cps(1)] get_update_position calculate_position_delta_def)
qed

theorem processor_equals_tracker_witness:
  "\<exists>resp st'. process_trade_result [(''market_maker'', \<lparr>maker_rebate = 1/50, taker_fee = -1/20\<rparr>)]
      (fill_result ''T2'') fill_order (demo_team ''T1'') \<lparr>pr_positions = [], pr_queue = []\<rparr> = (Inr resp, st') \<and>
    get_position_for_instrument (pr_positions st') ''T2'' ''SPX'' = -5 \<and> length (pr_queue st') = 1"
proof -
  let ?fees = "[(''market_maker'', \<lparr>maker_rebate = 1/50, taker_fee = -1/20\<rparr>)]"
  have "\<forall>t \<in> set (fills (fill_result ''T2'')). own_fill fill_order (demo_team ''T1'') t \<and> t_quantity t \<in> \<int> \<and> 0 < t_quantity t"
    "map_of ?fees (role (demo_team ''T1'')) = Some \<lparr>maker_rebate = 1/50, taker_fee = -1/20\<rparr>"
    by (simp_all add: demo_fill_defs own_fill_def)
  from processor_equals_tracker [OF this, of "\<lparr>pr_positions = [], pr_queue = []\<rparr>"]
  show ?thesis
    by (auto simp: demo_fill_defs track_result_def track_fill_def process_counterparty_position_def
        process_aggressor_position_def get_update_position get_position_for_instrument_def [of "[]"] Let_def)
qed



end
