(* ===== verification/Py_Values.thy ===== *)
theory Py_Values
  imports Trading_Prelude "HOL-Library.Sublist"
begin

text \<open>
  The dynamically typed values that come out of YAML files and \<open>Dict[str, Any]\<close>
  parameters, with the Python operations the code applies to them. An operation on a value
  of the wrong type raises what Python raises; the text of those exceptions names the types
  and is kept only as far as the operation. Dictionary keys are strings; the floats nan and
  -inf and YAML's dates are left out.
\<close>

datatype pyval =
    PNone
  | PBool bool
  | PNum rat
  | PInf
  | PStr string
  | PList "pyval list"
  | PDict "(string \<times> pyval) list"

text \<open>Truth value testing, as in \<open>if x\<close>.\<close>

fun truthy :: "pyval \<Rightarrow> bool" where
  "truthy PNone \<longleftrightarrow> False"
| "truthy (PBool b) \<longleftrightarrow> b"
| "truthy (PNum q) \<longleftrightarrow> q \<noteq> 0"
| "truthy PInf \<longleftrightarrow> True"
| "truthy (PStr s) \<longleftrightarrow> s \<noteq> ''''"
| "truthy (PList xs) \<longleftrightarrow> xs \<noteq> []"
| "truthy (PDict d) \<longleftrightarrow> d \<noteq> []"

text \<open>Numbers, extended by the float infinity; a bool is an int.\<close>

datatype extnum = Fin rat | Infinity

fun as_number :: "pyval \<Rightarrow> extnum option" where
  "as_number (PNum q) = Some (Fin q)"
| "as_number PInf = Some Infinity"
| "as_number (PBool b) = Some (Fin (if b then 1 else 0))"
| "as_number _ = None"

fun le_ext :: "extnum \<Rightarrow> extnum \<Rightarrow> bool" where
  "le_ext (Fin a) (Fin b) \<longleftrightarrow> a \<le> b"
| "le_ext _ Infinity \<longleftrightarrow> True"
| "le_ext Infinity (Fin _) \<longleftrightarrow> False"

text \<open>\<open>q <= v\<close> and \<open>v <= q\<close> for a number \<open>q\<close>.\<close>

definition num_le :: "rat \<Rightarrow> pyval \<Rightarrow> exn + bool" where
  "num_le q v =
     (case as_number v of
        None \<Rightarrow> Inl (TypeError (lit ''comparison not supported between instances''))
      | Some e \<Rightarrow> Inr (le_ext (Fin q) e))"

definition le_num :: "pyval \<Rightarrow> rat \<Rightarrow> exn + bool" where
  "le_num v q =
     (case as_number v of
        None \<Rightarrow> Inl (TypeError (lit ''comparison not supported between instances''))
      | Some e \<Rightarrow> Inr (le_ext e (Fin q)))"

definition num_less :: "rat \<Rightarrow> pyval \<Rightarrow> exn + bool" where
  "num_less q v = map_sum id Not (le_num v q)"

text \<open>\<open>lo <= q <= hi\<close>: the second comparison is evaluated only when the first holds.\<close>

definition between :: "pyval \<Rightarrow> rat \<Rightarrow> pyval \<Rightarrow> exn + bool" where
  "between lo q hi =
     (case le_num lo q of Inl e \<Rightarrow> Inl e | Inr False \<Rightarrow> Inr False | Inr True \<Rightarrow> num_le q hi)"

text \<open>\<open>-v <= q\<close>.\<close>

definition neg_le_num :: "pyval \<Rightarrow> rat \<Rightarrow> exn + bool" where
  "neg_le_num v q =
     (case as_number v of
        None \<Rightarrow> Inl (TypeError (lit ''bad operand type for unary -''))
      | Some (Fin a) \<Rightarrow> Inr (- a \<le> q)
      | Some Infinity \<Rightarrow> Inr True)"

text \<open>\<open>s in v\<close> for a string \<open>s\<close>: a member, a substring or a key.\<close>

definition py_in :: "string \<Rightarrow> pyval \<Rightarrow> exn + bool" where
  "py_in s v =
     (case v of
        PList xs \<Rightarrow> Inr (PStr s \<in> set xs)
      | PStr t \<Rightarrow> Inr (sublist s t)
      | PDict d \<Rightarrow> Inr (s \<in> set (map fst d))
      | _ \<Rightarrow> Inl (TypeError (lit ''argument is not iterable'')))"

text \<open>\<open>v.get(k, d)\<close>, \<open>v[k]\<close>, \<open>v.items()\<close> and iteration.\<close>

definition py_get :: "pyval \<Rightarrow> string \<Rightarrow> pyval \<Rightarrow> exn + pyval" where
  "py_get v k d =
     (case v of
        PDict m \<Rightarrow> Inr (case map_of m k of None \<Rightarrow> d | Some x \<Rightarrow> x)
      | _ \<Rightarrow> Inl (AttributeError (lit ''object has no attribute get'')))"

definition py_index :: "pyval \<Rightarrow> string \<Rightarrow> exn + pyval" where
  "py_index v k =
     (case v of
        PDict m \<Rightarrow> (case map_of m k of None \<Rightarrow> Inl (KeyError (lit k)) | Some x \<Rightarrow> Inr x)
      | PList _ \<Rightarrow> Inl (TypeError (lit ''indices must be integers or slices''))
      | PStr _ \<Rightarrow> Inl (TypeError (lit ''indices must be integers''))
      | _ \<Rightarrow> Inl (TypeError (lit ''object is not subscriptable'')))"

definition py_items :: "pyval \<Rightarrow> exn + (string \<times> pyval) list" where
  "py_items v =
     (case v of
        PDict m \<Rightarrow> Inr m
      | _ \<Rightarrow> Inl (AttributeError (lit ''object has no attribute items'')))"

definition py_iter :: "pyval \<Rightarrow> exn + pyval list" where
  "py_iter v =
     (case v of
        PList xs \<Rightarrow> Inr xs
      | PStr s \<Rightarrow> Inr (map (\<lambda>c. PStr [c]) s)
      | PDict m \<Rightarrow> Inr (map (PStr \<circ> fst) m)
      | _ \<Rightarrow> Inl (TypeError (lit ''object is not iterable'')))"

text \<open>How a value prints inside an f-string, and inside a printed list or dict.\<close>

fun py_repr :: "pyval \<Rightarrow> msg" and repr_items :: "pyval list \<Rightarrow> msg"
    and repr_entries :: "(string \<times> pyval) list \<Rightarrow> msg" where
  "py_repr PNone = lit ''None''"
| "py_repr (PBool b) = lit (if b then ''True'' else ''False'')"
| "py_repr (PNum q) = [Num q]"
| "py_repr PInf = lit ''inf''"
| "py_repr (PStr s) = lit (quoted s)"
| "py_repr (PList xs) = lit ''['' @ repr_items xs @ lit '']''"
| "py_repr (PDict d) = lit ''{'' @ repr_entries d @ lit ''}''"
| "repr_items [] = []"
| "repr_items [x] = py_repr x"
| "repr_items (x # y # xs) = py_repr x @ lit '', '' @ repr_items (y # xs)"
| "repr_entries [] = []"
| "repr_entries [(k, x)] = lit (quoted k) @ lit '': '' @ py_repr x"
| "repr_entries ((k, x) # e # es) = lit (quoted k) @ lit '': '' @ py_repr x @ lit '', '' @ repr_entries (e # es)"

definition py_str :: "pyval \<Rightarrow> msg" where
  "py_str v = (case v of PStr s \<Rightarrow> lit s | _ \<Rightarrow> py_repr v)"

section \<open>Evaluation that stops at the first exception\<close>

text \<open>Sequencing: an exception of the first computation is the exception of the whole.\<close>

fun and_then :: "exn + 'a \<Rightarrow> ('a \<Rightarrow> exn + 'b) \<Rightarrow> exn + 'b" where
  "and_then (Inr x) k = k x"
| "and_then (Inl e) k = Inl e"

lemma and_then_Inr: "and_then m f = Inr y \<longleftrightarrow> (\<exists>x. m = Inr x \<and> f x = Inr y)"
  by (cases m) simp_all

lemma and_then_cong [fundef_cong]:
  "r = r' \<Longrightarrow> (\<And>v. r' = Inr v \<Longrightarrow> k v = k' v) \<Longrightarrow> and_then r k = and_then r' k'"
  by (cases r') simp_all

fun map_exn :: "('a \<Rightarrow> exn + 'b) \<Rightarrow> 'a list \<Rightarrow> exn + 'b list" where
  "map_exn f [] = Inr []"
| "map_exn f (x # xs) = and_then (f x) (\<lambda>y. and_then (map_exn f xs) (\<lambda>ys. Inr (y # ys)))"

lemma map_exn_cong [fundef_cong]:
  "xs = ys \<Longrightarrow> (\<And>x. x \<in> set ys \<Longrightarrow> f x = g x) \<Longrightarrow> map_exn f xs = map_exn g ys"
proof (induction ys arbitrary: xs)
  case (Cons y ys)
  then have "map_exn f ys = map_exn g ys" by simp
  with Cons.prems show ?case by simp
qed simp

lemma map_exn_Inr: "map_exn f xs = Inr ys \<longleftrightarrow> list_all2 (\<lambda>x y. f x = Inr y) xs ys"
  by (induction xs arbitrary: ys) (auto simp: and_then_Inr list_all2_Cons1)

text \<open>The first failing element decides the exception.\<close>

lemma map_exn_Inl:
  "map_exn f xs = Inl e \<longleftrightarrow>
   (\<exists>pre x post. xs = pre @ x # post \<and> (\<forall>z \<in> set pre. \<exists>y. f z = Inr y) \<and> f x = Inl e)"
proof (induction xs)
  case (Cons a xs)
  show ?case
  proof (cases "f a")
    case (Inl e')
    have "(\<exists>pre x post. a # xs = pre @ x # post \<and> (\<forall>z \<in> set pre. \<exists>y. f z = Inr y) \<and> f x = Inl e) \<longleftrightarrow> e' = e"
    proof
      assume "\<exists>pre x post. a # xs = pre @ x # post \<and> (\<forall>z \<in> set pre. \<exists>y. f z = Inr y) \<and> f x = Inl e"
      then obtain pre x post where d: "a # xs = pre @ x # post" "\<forall>z \<in> set pre. \<exists>y. f z = Inr y" "f x = Inl e"
        by blast
      with Inl have "pre = []" by (cases pre) auto
      with d Inl show "e' = e" by simp
    next
      assume "e' = e"
      with Inl show "\<exists>pre x post. a # xs = pre @ x # post \<and> (\<forall>z \<in> set pre. \<exists>y. f z = Inr y) \<and> f x = Inl e"
        by (intro exI [of _ "[]"]) auto
    qed
    with Inl show ?thesis by simp
  next
    case (Inr b)
    have "(\<exists>pre x post. a # xs = pre @ x # post \<and> (\<forall>z \<in> set pre. \<exists>y. f z = Inr y) \<and> f x = Inl e) \<longleftrightarrow>
        (\<exists>pre x post. xs = pre @ x # post \<and> (\<forall>z \<in> set pre. \<exists>y. f z = Inr y) \<and> f x = Inl e)"
    proof
      assume "\<exists>pre x post. a # xs = pre @ x # post \<and> (\<forall>z \<in> set pre. \<exists>y. f z = Inr y) \<and> f x = Inl e"
      then obtain pre x post where d: "a # xs = pre @ x # post" "\<forall>z \<in> set pre. \<exists>y. f z = Inr y" "f x = Inl e"
        by blast
      with Inr obtain pre' where "pre = a # pre'" by (cases pre) auto
      with d show "\<exists>pre x post. xs = pre @ x # post \<and> (\<forall>z \<in> set pre. \<exists>y. f z = Inr y) \<and> f x = Inl e"
        by auto
    next
      assume "\<exists>pre x post. xs = pre @ x # post \<and> (\<forall>z \<in> set pre. \<exists>y. f z = Inr y) \<and> f x = Inl e"
      then obtain pre x post where "xs = pre @ x # post" "\<forall>z \<in> set pre. \<exists>y. f z = Inr y" "f x = Inl e"
        by blast
      with Inr show "\<exists>pre x post. a # xs = pre @ x # post \<and> (\<forall>z \<in> set pre. \<exists>y. f z = Inr y) \<and> f x = Inl e"
        by (intro exI [of _ "a # pre"]) auto
    qed
    with Inr Cons.IH show ?thesis
      by (cases "map_exn f xs") auto
  qed
qed simp

end
