(* ===== verification/Order_Validation.thy ===== *)
theory Order_Validation
  imports Core_Models Py_Values
begin

text \<open>
  \<open>exchange/validation/order_validator.py\<close> and \<open>interfaces.py\<close>: the constraints an order
  must satisfy, the validator that applies the constraints of the trader's role in order,
  and the loader of constraints from configuration data.
\<close>

section \<open>Data\<close>

datatype constraint_type =
    POSITION_LIMIT | PORTFOLIO_LIMIT | ORDER_SIZE | ORDER_RATE | ORDER_TYPE_ALLOWED
  | INSTRUMENT_ALLOWED | PRICE_RANGE

fun constraint_value :: "constraint_type \<Rightarrow> string" where
  "constraint_value POSITION_LIMIT = ''position_limit''"
| "constraint_value PORTFOLIO_LIMIT = ''portfolio_limit''"
| "constraint_value ORDER_SIZE = ''order_size''"
| "constraint_value ORDER_RATE = ''order_rate''"
| "constraint_value ORDER_TYPE_ALLOWED = ''order_type_allowed''"
| "constraint_value INSTRUMENT_ALLOWED = ''instrument_allowed''"
| "constraint_value PRICE_RANGE = ''price_range''"

definition all_constraint_types :: "constraint_type list" where
  "all_constraint_types =
     [POSITION_LIMIT, PORTFOLIO_LIMIT, ORDER_SIZE, ORDER_RATE, ORDER_TYPE_ALLOWED,
      INSTRUMENT_ALLOWED, PRICE_RANGE]"

text \<open>\<open>ConstraintType(v)\<close>.\<close>

definition parse_constraint_type :: "pyval \<Rightarrow> exn + constraint_type" where
  "parse_constraint_type v =
     (case find (\<lambda>t. PStr (constraint_value t) = v) all_constraint_types of
        None \<Rightarrow> Inl (ValueError (py_repr v @ lit '' is not a valid ConstraintType''))
      | Some t \<Rightarrow> Inr t)"

type_synonym params = "(string, pyval) dict"

record constraint_config =
  constraint_type :: constraint_type
  parameters :: params
  cc_error_code :: string
  cc_error_message :: msg

record validation_result =
  is_valid :: bool
  error_detail :: "msg option"

record validation_context =
  vc_order :: order
  vc_trader_id :: string
  vc_trader_role :: string
  current_positions :: "(string, rat) dict"
  orders_this_second :: int

definition param :: "params \<Rightarrow> string \<Rightarrow> pyval \<Rightarrow> pyval" where
  "param ps k d = (case map_of ps k of None \<Rightarrow> d | Some v \<Rightarrow> v)"

definition accept_result :: validation_result where
  "accept_result = \<lparr>is_valid = True, error_detail = None\<rparr>"

definition refuse :: "msg \<Rightarrow> validation_result" where
  "refuse m = \<lparr>is_valid = False, error_detail = Some m\<rparr>"

text \<open>The verdict of a comparison that may raise.\<close>

definition verdict :: "exn + bool \<Rightarrow> msg \<Rightarrow> exn + validation_result" where
  "verdict c m = and_then c (\<lambda>ok. Inr (if ok then accept_result else refuse m))"

section \<open>The constraints\<close>

definition held :: "validation_context \<Rightarrow> rat" where
  "held c = (case map_of (current_positions c) (instrument_id (vc_order c)) of None \<Rightarrow> 0 | Some q \<Rightarrow> q)"

definition order_delta :: "order \<Rightarrow> rat" where
  "order_delta o1 = (if is_buy o1 then quantity o1 else - quantity o1)"

definition check_position_limit :: "validation_context \<Rightarrow> params \<Rightarrow> exn + validation_result" where
  "check_position_limit c ps =
     (let mx = param ps ''max_position'' PInf;
          symmetric = param ps ''symmetric'' (PBool False);
          new = held c + order_delta (vc_order c)
      in if truthy symmetric then
           verdict
             (case neg_le_num mx new of
                Inl e \<Rightarrow> Inl e | Inr False \<Rightarrow> Inr False | Inr True \<Rightarrow> num_le new mx)
             ([Txt ''Position '', Num new, Txt ('' outside '' @ [CHR 0xB1])] @ py_str mx)
         else
           verdict (num_le \<bar>new\<bar> mx) ([Txt ''Position '', Num \<bar>new\<bar>, Txt '' exceeds ''] @ py_str mx))"

definition portfolio_after :: "validation_context \<Rightarrow> rat" where
  "portfolio_after c =
     sum_list (map abs (dict_values (current_positions c))) - \<bar>held c\<bar> +
     \<bar>held c + order_delta (vc_order c)\<bar>"

definition check_portfolio_limit :: "validation_context \<Rightarrow> params \<Rightarrow> exn + validation_result" where
  "check_portfolio_limit c ps =
     (let mx = param ps ''max_total_position'' PInf in
      verdict (num_le (portfolio_after c) mx)
        ([Txt ''Total position '', Num (portfolio_after c), Txt '' would exceed ''] @ py_str mx))"

definition check_order_size :: "validation_context \<Rightarrow> params \<Rightarrow> exn + validation_result" where
  "check_order_size c ps =
     (let lo = param ps ''min_size'' (PNum 0); hi = param ps ''max_size'' PInf;
          q = quantity (vc_order c)
      in verdict (between lo q hi)
           ([Txt ''Order size '', Num q, Txt '' not in [''] @ py_str lo @ lit '', '' @ py_str hi @ lit '']''))"

definition check_order_rate :: "validation_context \<Rightarrow> params \<Rightarrow> exn + validation_result" where
  "check_order_rate c ps =
     (let mx = param ps ''max_orders_per_second'' PInf in
      verdict (num_less (of_int (orders_this_second c)) mx)
        [Txt ''Already submitted '', Num (of_int (orders_this_second c)), Txt '' orders this second''])"

definition check_order_type :: "validation_context \<Rightarrow> params \<Rightarrow> exn + validation_result" where
  "check_order_type c ps =
     (let allowed = param ps ''allowed_types'' (PList []);
          ty = order_type_value (order_type (vc_order c))
      in verdict (py_in ty allowed)
           ([Txt ''Order type '', Txt ty, Txt '' not in ''] @ py_str allowed))"

definition check_instrument_allowed :: "validation_context \<Rightarrow> params \<Rightarrow> exn + validation_result" where
  "check_instrument_allowed c ps =
     (let allowed = param ps ''allowed_instruments'' (PList []);
          iid = instrument_id (vc_order c)
      in verdict (py_in iid allowed)
           ([Txt ''Instrument '', Txt iid, Txt '' not in allowed list: ''] @ py_str allowed))"

definition check_price_range :: "validation_context \<Rightarrow> params \<Rightarrow> exn + validation_result" where
  "check_price_range c ps =
     (if is_market_order (vc_order c) then Inr accept_result
      else
        let lo = param ps ''min_price'' (PNum 0); hi = param ps ''max_price'' PInf in
        case price (vc_order c) of
          None \<Rightarrow> Inl (TypeError (lit ''comparison not supported between instances''))
        | Some p \<Rightarrow>
            verdict (between lo p hi)
              ([Txt ''Price '', Num p, Txt '' not in [''] @ py_str lo @ lit '', '' @ py_str hi @ lit '']''))"

section \<open>The validator\<close>

type_synonym check = "validation_context \<Rightarrow> params \<Rightarrow> exn + validation_result"
type_synonym registry = "constraint_type \<Rightarrow> check option"

fun default_registry :: registry where
  "default_registry POSITION_LIMIT = Some check_position_limit"
| "default_registry PORTFOLIO_LIMIT = Some check_portfolio_limit"
| "default_registry ORDER_SIZE = Some check_order_size"
| "default_registry ORDER_RATE = Some check_order_rate"
| "default_registry ORDER_TYPE_ALLOWED = Some check_order_type"
| "default_registry INSTRUMENT_ALLOWED = Some check_instrument_allowed"
| "default_registry PRICE_RANGE = Some check_price_range"

definition rejection :: "order \<Rightarrow> constraint_config \<Rightarrow> msg option \<Rightarrow> order_result" where
  "rejection o1 cfg detail =
     \<lparr>r_order_id = order_id o1, status = ''rejected'', fills = [], r_remaining = 0,
      error_code = Some (cc_error_code cfg),
      error_message = Some (cc_error_message cfg @
        (case detail of None \<Rightarrow> [] | Some m \<Rightarrow> lit '': '' @ m))\<rparr>"

definition acceptance :: "order \<Rightarrow> order_result" where
  "acceptance o1 =
     \<lparr>r_order_id = order_id o1, status = ''accepted'', fills = [], r_remaining = quantity o1,
      error_code = None, error_message = None\<rparr>"

fun apply_constraints :: "registry \<Rightarrow> validation_context \<Rightarrow> constraint_config list \<Rightarrow> exn + order_result" where
  "apply_constraints reg c [] = Inr (acceptance (vc_order c))"
| "apply_constraints reg c (cfg # cfgs) =
     (case reg (constraint_type cfg) of
        None \<Rightarrow> apply_constraints reg c cfgs
      | Some chk \<Rightarrow>
          (case chk c (parameters cfg) of
             Inl e \<Rightarrow> Inl e
           | Inr r \<Rightarrow>
               if \<not> is_valid r then Inr (rejection (vc_order c) cfg (error_detail r))
               else apply_constraints reg c cfgs))"

type_synonym role_cache = "(string, constraint_config list) dict"

definition get_constraints_for_role :: "role_cache \<Rightarrow> string \<Rightarrow> constraint_config list" where
  "get_constraints_for_role cache rl = (case map_of cache rl of None \<Rightarrow> [] | Some cs \<Rightarrow> cs)"

definition load_constraints :: "string \<Rightarrow> constraint_config list \<Rightarrow> role_cache \<Rightarrow> role_cache" where
  "load_constraints rl cs cache = AList.update rl cs cache"

definition validate_order :: "registry \<Rightarrow> role_cache \<Rightarrow> validation_context \<Rightarrow> exn + order_result" where
  "validate_order reg cache c =
     apply_constraints reg c (get_constraints_for_role cache (vc_trader_role c))"

section \<open>Loading constraints\<close>

definition create_constraint ::
    "pyval \<Rightarrow> string \<Rightarrow> string \<Rightarrow> string \<Rightarrow> params \<Rightarrow> exn + constraint_config" where
  "create_constraint ty rl error_suffix message ps =
     and_then (parse_constraint_type ty) (\<lambda>t.
       Inr \<lparr>constraint_type = t, parameters = ps,
            cc_error_code = upper rl @ ''_'' @ error_suffix, cc_error_message = lit message\<rparr>)"

definition get_universal_constraints :: "constraint_config list" where
  "get_universal_constraints = []"

text \<open>
  An error message is only ever printed, so it is kept as it prints. An error code is a
  string in every configuration; the result record has no room for other values, and the
  model reads them as the empty string.
\<close>

definition as_text :: "pyval \<Rightarrow> string" where
  "as_text v = (case v of PStr s \<Rightarrow> s | _ \<Rightarrow> '''')"

definition constraint_from_dict :: "string \<Rightarrow> pyval \<Rightarrow> exn + constraint_config" where
  "constraint_from_dict rl cd =
     and_then (py_index cd ''type'') (\<lambda>tv.
     and_then (parse_constraint_type tv) (\<lambda>t.
     and_then (py_items cd) (\<lambda>items.
     and_then (py_get cd ''error_code'' (PStr (upper rl @ ''_CONSTRAINT''))) (\<lambda>code.
     and_then (py_get cd ''error_message'' (PStr ''Constraint violated'')) (\<lambda>message.
       Inr \<lparr>constraint_type = t,
            parameters = filter (\<lambda>(k, v). k \<notin> {''type'', ''error_code'', ''error_message''}) items,
            cc_error_code = as_text code, cc_error_message = py_str message\<rparr>)))))"

definition role_constraints_from_dict :: "string \<times> pyval \<Rightarrow> exn + string \<times> constraint_config list" where
  "role_constraints_from_dict e =
     (case e of (rl, rd) \<Rightarrow>
        and_then (py_get rd ''constraints'' (PList [])) (\<lambda>cv.
        and_then (py_iter cv) (\<lambda>cds.
        and_then (map_exn (constraint_from_dict rl) cds) (\<lambda>cs.
          Inr (rl, cs @ get_universal_constraints)))))"

definition load_constraints_from_dict :: "pyval \<Rightarrow> exn + role_cache" where
  "load_constraints_from_dict config =
     and_then (py_get config ''roles'' (PDict [])) (\<lambda>rv.
     and_then (py_items rv) (\<lambda>roles.
     and_then (map_exn role_constraints_from_dict roles) (\<lambda>entries.
       Inr (fold (\<lambda>(rl, cs) d. AList.update rl cs d) entries []))))"

end
