(* ===== verification/Validation_Properties.thy ===== *)
theory Validation_Properties
  imports Order_Validation
begin

text \<open>
  What the constraints decide, what the validator makes of their verdicts, and the round
  trip of the constraint configuration.
\<close>

section \<open>The constraint interface\<close>

text \<open>
  \<open>Constraint.check\<close>: on parameters of the right types and an order as the constructor
  builds it, a constraint raises nothing, and accepts exactly when the condition it stands
  for holds; a refusal carries a reason.
\<close>

locale constraint =
  fixes chk :: check and typed :: "params \<Rightarrow> bool" and holds :: "validation_context \<Rightarrow> params \<Rightarrow> bool"
  assumes decides: "order_ok (vc_order c) \<Longrightarrow> typed ps \<Longrightarrow>
      \<exists>r. chk c ps = Inr r \<and> (is_valid r \<longleftrightarrow> holds c ps) \<and> (error_detail r = None \<longleftrightarrow> is_valid r)"
begin

lemma accepts: "order_ok (vc_order c) \<Longrightarrow> typed ps \<Longrightarrow> holds c ps \<Longrightarrow>
    \<exists>r. chk c ps = Inr r \<and> is_valid r"
  using decides by blast

lemma refuses: "order_ok (vc_order c) \<Longrightarrow> typed ps \<Longrightarrow> \<not> holds c ps \<Longrightarrow>
    \<exists>r m. chk c ps = Inr r \<and> \<not> is_valid r \<and> error_detail r = Some m"
  using decides by fastforce

end

text \<open>The parameters' types and the conditions, constraint by constraint.\<close>

definition numeric :: "pyval \<Rightarrow> bool" where
  "numeric v \<longleftrightarrow> as_number v \<noteq> None"

definition bound_of :: "pyval \<Rightarrow> extnum" where
  "bound_of v = (case as_number v of Some e \<Rightarrow> e | None \<Rightarrow> Infinity)"

definition container :: "pyval \<Rightarrow> bool" where
  "container v \<longleftrightarrow> (\<exists>xs. v = PList xs)"

fun member :: "string \<Rightarrow> pyval \<Rightarrow> bool" where
  "member s (PList xs) \<longleftrightarrow> PStr s \<in> set xs"
| "member s _ \<longleftrightarrow> False"

definition less_ext :: "extnum \<Rightarrow> extnum \<Rightarrow> bool" where
  "less_ext a b \<longleftrightarrow> \<not> le_ext b a"

fun typed_params :: "constraint_type \<Rightarrow> params \<Rightarrow> bool" where
  "typed_params POSITION_LIMIT ps \<longleftrightarrow> numeric (param ps ''max_position'' PInf)"
| "typed_params PORTFOLIO_LIMIT ps \<longleftrightarrow> numeric (param ps ''max_total_position'' PInf)"
| "typed_params ORDER_SIZE ps \<longleftrightarrow> numeric (param ps ''min_size'' (PNum 0)) \<and> numeric (param ps ''max_size'' PInf)"
| "typed_params ORDER_RATE ps \<longleftrightarrow> numeric (param ps ''max_orders_per_second'' PInf)"
| "typed_params ORDER_TYPE_ALLOWED ps \<longleftrightarrow> container (param ps ''allowed_types'' (PList []))"
| "typed_params INSTRUMENT_ALLOWED ps \<longleftrightarrow> container (param ps ''allowed_instruments'' (PList []))"
| "typed_params PRICE_RANGE ps \<longleftrightarrow> numeric (param ps ''min_price'' (PNum 0)) \<and> numeric (param ps ''max_price'' PInf)"

fun satisfied :: "constraint_type \<Rightarrow> validation_context \<Rightarrow> params \<Rightarrow> bool" where
  "satisfied POSITION_LIMIT c ps \<longleftrightarrow>
     le_ext (Fin \<bar>held c + order_delta (vc_order c)\<bar>) (bound_of (param ps ''max_position'' PInf))"
| "satisfied PORTFOLIO_LIMIT c ps \<longleftrightarrow>
     le_ext (Fin (portfolio_after c)) (bound_of (param ps ''max_total_position'' PInf))"
| "satisfied ORDER_SIZE c ps \<longleftrightarrow>
     le_ext (bound_of (param ps ''min_size'' (PNum 0))) (Fin (quantity (vc_order c))) \<and>
     le_ext (Fin (quantity (vc_order c))) (bound_of (param ps ''max_size'' PInf))"
| "satisfied ORDER_RATE c ps \<longleftrightarrow>
     less_ext (Fin (of_int (orders_this_second c))) (bound_of (param ps ''max_orders_per_second'' PInf))"
| "satisfied ORDER_TYPE_ALLOWED c ps \<longleftrightarrow>
     member (order_type_value (order_type (vc_order c))) (param ps ''allowed_types'' (PList []))"
| "satisfied INSTRUMENT_ALLOWED c ps \<longleftrightarrow>
     member (instrument_id (vc_order c)) (param ps ''allowed_instruments'' (PList []))"
| "satisfied PRICE_RANGE c ps \<longleftrightarrow>
     (case price (vc_order c) of
        None \<Rightarrow> True
      | Some p \<Rightarrow>
          le_ext (bound_of (param ps ''min_price'' (PNum 0))) (Fin p) \<and>
          le_ext (Fin p) (bound_of (param ps ''max_price'' PInf)))"

lemma num_le_typed: "numeric v \<Longrightarrow> num_le q v = Inr (le_ext (Fin q) (bound_of v))"
  by (auto simp: numeric_def num_le_def bound_of_def)

lemma le_num_typed: "numeric v \<Longrightarrow> le_num v q = Inr (le_ext (bound_of v) (Fin q))"
  by (auto simp: numeric_def le_num_def bound_of_def)

lemma between_typed:
  "numeric lo \<Longrightarrow> numeric hi \<Longrightarrow>
   between lo q hi = Inr (le_ext (bound_of lo) (Fin q) \<and> le_ext (Fin q) (bound_of hi))"
  by (simp add: between_def num_le_typed le_num_typed split: bool.splits)

text \<open>The two ways to write the position limit are the same condition.\<close>

lemma symmetric_limit:
  assumes "numeric v"
  shows "(case neg_le_num v q of Inl e \<Rightarrow> Inl e | Inr False \<Rightarrow> Inr False | Inr True \<Rightarrow> num_le q v) =
    (Inr (le_ext (Fin \<bar>q\<bar>) (bound_of v)) :: exn + bool)"
  using assms
  by (auto simp: numeric_def neg_le_num_def num_le_def bound_of_def abs_le_iff
      split: extnum.splits bool.splits)

lemma py_in_container: "container v \<Longrightarrow> py_in s v = Inr (member s v)"
  by (auto simp: container_def py_in_def)

lemma verdict_Inr: "\<exists>r. verdict (Inr b) m = Inr r \<and> (is_valid r \<longleftrightarrow> b) \<and> (error_detail r = None \<longleftrightarrow> is_valid r)"
  by (simp add: verdict_def accept_result_def refuse_def)

lemmas typed_simps = num_le_typed le_num_typed between_typed symmetric_limit py_in_container

interpretation position_limit: constraint check_position_limit
  "typed_params POSITION_LIMIT" "satisfied POSITION_LIMIT"
  by unfold_locales (simp add: check_position_limit_def Let_def typed_simps verdict_Inr)

interpretation portfolio_limit: constraint check_portfolio_limit
  "typed_params PORTFOLIO_LIMIT" "satisfied PORTFOLIO_LIMIT"
  by unfold_locales (simp add: check_portfolio_limit_def Let_def typed_simps verdict_Inr)

interpretation order_size: constraint check_order_size
  "typed_params ORDER_SIZE" "satisfied ORDER_SIZE"
  by unfold_locales (simp add: check_order_size_def Let_def typed_simps verdict_Inr)

interpretation order_rate: constraint check_order_rate
  "typed_params ORDER_RATE" "satisfied ORDER_RATE"
  by unfold_locales (simp add: check_order_rate_def Let_def num_less_def typed_simps less_ext_def verdict_Inr)

interpretation order_type_allowed: constraint check_order_type
  "typed_params ORDER_TYPE_ALLOWED" "satisfied ORDER_TYPE_ALLOWED"
  by unfold_locales (simp add: check_order_type_def Let_def typed_simps verdict_Inr)

interpretation instrument_allowed: constraint check_instrument_allowed
  "typed_params INSTRUMENT_ALLOWED" "satisfied INSTRUMENT_ALLOWED"
  by unfold_locales (simp add: check_instrument_allowed_def Let_def typed_simps verdict_Inr)

interpretation price_range: constraint check_price_range
  "typed_params PRICE_RANGE" "satisfied PRICE_RANGE"
proof
  fix c :: validation_context and ps :: params
  assume "order_ok (vc_order c)" and "typed_params PRICE_RANGE ps"
  then show "\<exists>r. check_price_range c ps = Inr r \<and> (is_valid r \<longleftrightarrow> satisfied PRICE_RANGE c ps) \<and>
      (error_detail r = None \<longleftrightarrow> is_valid r)"
    by (cases "price (vc_order c)")
      (simp_all add: check_price_range_def Let_def typed_simps verdict_Inr is_market_order_def order_ok_def
        accept_result_def)
qed

lemma default_decides:
  assumes "order_ok (vc_order c)" and "typed_params t ps"
  shows "\<exists>chk r. default_registry t = Some chk \<and> chk c ps = Inr r \<and>
    (is_valid r \<longleftrightarrow> satisfied t c ps) \<and> (error_detail r = None \<longleftrightarrow> is_valid r)"
  using assms position_limit.decides portfolio_limit.decides order_size.decides order_rate.decides
    order_type_allowed.decides instrument_allowed.decides price_range.decides
  by (cases t) (simp_all del: satisfied.simps typed_params.simps)

section \<open>The validator\<close>

lemma apply_constraints_ok:
  assumes "order_ok (vc_order c)" and "\<forall>cfg \<in> set cfgs. typed_params (constraint_type cfg) (parameters cfg)"
  shows "case find (\<lambda>cfg. \<not> satisfied (constraint_type cfg) c (parameters cfg)) cfgs of
      None \<Rightarrow> apply_constraints default_registry c cfgs = Inr (acceptance (vc_order c))
    | Some cfg \<Rightarrow> \<exists>m. apply_constraints default_registry c cfgs = Inr (rejection (vc_order c) cfg (Some m))"
  using assms(2)
proof (induction cfgs)
  case (Cons cfg cfgs)
  then have "typed_params (constraint_type cfg) (parameters cfg)" by simp
  from default_decides [OF assms(1) this] obtain chk r where
    "default_registry (constraint_type cfg) = Some chk" "chk c (parameters cfg) = Inr r"
    "is_valid r \<longleftrightarrow> satisfied (constraint_type cfg) c (parameters cfg)" "error_detail r = None \<longleftrightarrow> is_valid r"
    by (elim exE conjE)
  note r = this
  show ?case
  proof (cases "is_valid r")
    case True
    then have eq: "apply_constraints default_registry c (cfg # cfgs) = apply_constraints default_registry c cfgs"
      using r by simp
    show ?thesis unfolding eq using True r Cons by simp
  next
    case False
    with r show ?thesis by auto
  qed
qed simp

text \<open>
  C31: the validator is exact. With parameters of the right types it raises nothing; it
  accepts an order exactly when every constraint of the trader's role is satisfied, a role
  without constraints included, and otherwise rejects with the error code of the first
  violated constraint in configuration order and a message that starts with its text.
\<close>

theorem validate_order_exact:
  assumes "order_ok (vc_order c)"
    and "\<forall>cfg \<in> set (get_constraints_for_role cache (vc_trader_role c)). typed_params (constraint_type cfg) (parameters cfg)"
  shows "\<exists>r. validate_order default_registry cache c = Inr r \<and> r_order_id r = order_id (vc_order c) \<and>
    (case find (\<lambda>cfg. \<not> satisfied (constraint_type cfg) c (parameters cfg))
        (get_constraints_for_role cache (vc_trader_role c)) of
       None \<Rightarrow> status r = ''accepted'' \<and> error_code r = None
     | Some cfg \<Rightarrow> status r = ''rejected'' \<and> error_code r = Some (cc_error_code cfg) \<and>
         (\<exists>m. error_message r = Some (cc_error_message cfg @ m)))"
  using apply_constraints_ok [OF assms]
  by (auto simp: validate_order_def acceptance_def rejection_def split: option.splits)

definition sample_order :: "rat \<Rightarrow> order" where
  "sample_order q =
     \<lparr>instrument_id = ''SPX'', side = BUY, quantity = q, trader_id = ''T1'', price = Some 100,
      order_id = ''x'', order_type = LIMIT, client_order_id = None, remaining_quantity = q\<rparr>"

definition limit_50 :: constraint_config where
  "limit_50 =
     \<lparr>constraint_type = POSITION_LIMIT, parameters = [(''max_position'', PNum 50), (''symmetric'', PBool True)],
      cc_error_code = ''MM_POS_LIMIT'', cc_error_message = lit ''Position exceeds 50''\<rparr>"

definition sample_context :: "rat \<Rightarrow> validation_context" where
  "sample_context q =
     \<lparr>vc_order = sample_order q, vc_trader_id = ''T1'', vc_trader_role = ''market_maker'',
      current_positions = [(''SPX'', 45)], orders_this_second = 0\<rparr>"

lemma sample_order_ok: "0 < q \<Longrightarrow> q \<in> \<int> \<Longrightarrow> order_ok (vc_order (sample_context q))"
  by (simp add: sample_context_def sample_order_def order_ok_def)

theorem validate_order_exact_witness:
  "(\<exists>r. validate_order default_registry [(''market_maker'', [limit_50])] (sample_context 10) = Inr r \<and>
     error_code r = Some ''MM_POS_LIMIT'') \<and>
   (\<exists>r. validate_order default_registry [(''market_maker'', [limit_50])] (sample_context 5) = Inr r \<and>
     status r = ''accepted'')"
proof -
  have typed: "\<forall>cfg \<in> set (get_constraints_for_role [(''market_maker'', [limit_50])] (vc_trader_role (sample_context q))).
      typed_params (constraint_type cfg) (parameters cfg)" for q
    by (simp add: get_constraints_for_role_def sample_context_def limit_50_def numeric_def param_def)
  have ok: "order_ok (vc_order (sample_context 10))" "order_ok (vc_order (sample_context 5))"
    by (simp_all add: sample_order_ok)
  have "find (\<lambda>cfg. \<not> satisfied (constraint_type cfg) (sample_context 10) (parameters cfg))
      (get_constraints_for_role [(''market_maker'', [limit_50])] (vc_trader_role (sample_context 10))) = Some limit_50"
    "find (\<lambda>cfg. \<not> satisfied (constraint_type cfg) (sample_context 5) (parameters cfg))
      (get_constraints_for_role [(''market_maker'', [limit_50])] (vc_trader_role (sample_context 5))) = None"
    by (simp_all add: get_constraints_for_role_def sample_context_def limit_50_def bound_of_def param_def
        held_def order_delta_def sample_order_def is_buy_def)
  moreover have "cc_error_code limit_50 = ''MM_POS_LIMIT''"
    by (simp add: limit_50_def)
  ultimately show ?thesis
    using validate_order_exact [OF ok(1) typed] validate_order_exact [OF ok(2) typed] by auto
qed

text \<open>
  C32: the position limit is safe, with the flag \<open>symmetric\<close> set or not. If an order passes a
  limit of \<open>m\<close> and the trader was within it, then after any part of the order has filled
  the position is still within \<open>m\<close> on both sides.
\<close>

theorem position_limit_safe:
  assumes "order_ok (vc_order c)" and "map_of ps ''max_position'' = Some (PNum m)"
    and "check_position_limit c ps = Inr r" and "is_valid r"
    and "\<bar>held c\<bar> \<le> m" and "0 \<le> q" and "q \<le> quantity (vc_order c)"
  shows "\<bar>held c + (if is_buy (vc_order c) then q else - q)\<bar> \<le> m"
proof -
  have "typed_params POSITION_LIMIT ps"
    using assms(2) by (simp add: numeric_def param_def)
  from position_limit.decides [OF assms(1) this] assms(3,4)
  have "satisfied POSITION_LIMIT c ps" by auto
  then have "\<bar>held c + order_delta (vc_order c)\<bar> \<le> m"
    using assms(2) by (simp add: bound_of_def param_def)
  with assms(5-7) show ?thesis
    by (auto simp: order_delta_def abs_le_iff split: if_splits)
qed

theorem position_limit_safe_witness:
  "\<exists>r. check_position_limit (sample_context 5) (parameters limit_50) = Inr r \<and> is_valid r \<and>
    \<bar>held (sample_context 5) + 3\<bar> \<le> 50"
proof -
  let ?c = "sample_context 5"
  have r: "check_position_limit ?c (parameters limit_50) = Inr accept_result"
    by (simp add: check_position_limit_def Let_def limit_50_def param_def sample_context_def held_def
        order_delta_def sample_order_def is_buy_def neg_le_num_def num_le_def verdict_def)
  have "order_ok (vc_order ?c)" by (simp add: sample_order_ok)
  moreover have "map_of (parameters limit_50) ''max_position'' = Some (PNum 50)"
    by (simp add: limit_50_def)
  moreover have "\<bar>held ?c\<bar> \<le> 50" "is_buy (vc_order ?c)" "quantity (vc_order ?c) = 5"
    by (simp_all add: held_def sample_context_def sample_order_def is_buy_def)
  ultimately show ?thesis
    using position_limit_safe [OF _ _ r, of 50 3] r by (simp add: accept_result_def)
qed

section \<open>The configuration round trip\<close>

definition constraint_dict :: "constraint_config \<Rightarrow> pyval" where
  "constraint_dict cfg =
     PDict ([(''type'', PStr (constraint_value (constraint_type cfg))), (''error_code'', PStr (cc_error_code cfg)),
             (''error_message'', PStr (case cc_error_message cfg of [Txt s] \<Rightarrow> s | _ \<Rightarrow> ''''))] @ parameters cfg)"

definition constraints_dict :: "role_cache \<Rightarrow> pyval" where
  "constraints_dict cache =
     PDict [(''roles'',
       PDict (map (\<lambda>(rl, cs). (rl, PDict [(''constraints'', PList (map constraint_dict cs))])) cache))]"

text \<open>Configurations whose parameters avoid the three reserved keys and whose message is one text.\<close>

definition plain_config :: "constraint_config \<Rightarrow> bool" where
  "plain_config cfg \<longleftrightarrow>
     (\<forall>k \<in> set (dict_keys (parameters cfg)). k \<notin> {''type'', ''error_code'', ''error_message''}) \<and>
     (\<exists>s. cc_error_message cfg = [Txt s])"

lemma parse_constraint_value: "parse_constraint_type (PStr (constraint_value t)) = Inr t"
  by (cases t) (simp_all add: parse_constraint_type_def all_constraint_types_def)

lemma constraint_from_to_dict: "plain_config cfg \<Longrightarrow> constraint_from_dict rl (constraint_dict cfg) = Inr cfg"
proof -
  assume plain: "plain_config cfg"
  then have "filter (\<lambda>(k, v). k \<noteq> ''type'' \<and> k \<noteq> ''error_code'' \<and> k \<noteq> ''error_message'') (parameters cfg) = parameters cfg"
    by (auto simp: plain_config_def filter_id_conv)
  with plain show ?thesis
    by (cases cfg) (auto simp: constraint_from_dict_def constraint_dict_def py_index_def py_items_def py_get_def
      parse_constraint_value plain_config_def as_text_def py_str_def)
qed

lemma map_exn_all:
  "\<forall>x \<in> set xs. f (g x) = Inr (h x) \<Longrightarrow> map_exn f (map g xs) = Inr (map h xs)"
  by (induction xs) auto

lemma fold_update_distinct:
  "distinct (dict_keys (acc @ es)) \<Longrightarrow> fold (\<lambda>(k, v) d. AList.update k v d) es acc = acc @ es"
proof (induction es arbitrary: acc)
  case (Cons e es)
  obtain k v where e: "e = (k, v)" by force
  have "k \<notin> set (dict_keys acc)" using Cons.prems by (auto simp: e)
  then have "AList.update k v acc = acc @ [(k, v)]"
    by (induction acc) auto
  with Cons.IH [of "acc @ [(k, v)]"] Cons.prems show ?case by (simp add: e)
qed simp

text \<open>
  loading what was written. A table of role constraints, written as the dictionary the
  configuration file has, is loaded back exactly: roles, constraint types, parameters, error
  codes and messages, all in order.
\<close>

theorem constraints_roundtrip:
  assumes "distinct (dict_keys cache)" and "\<forall>(rl, cs) \<in> set cache. \<forall>cfg \<in> set cs. plain_config cfg"
  shows "load_constraints_from_dict (constraints_dict cache) = Inr cache"
proof -
  have entry: "role_constraints_from_dict (rl, PDict [(''constraints'', PList (map constraint_dict cs))]) = Inr (rl, cs)"
    if "(rl, cs) \<in> set cache" for rl cs
  proof -
    have "map_exn (constraint_from_dict rl) (map constraint_dict cs) = Inr (map (\<lambda>x. x) cs)"
      using that assms(2) by (intro map_exn_all) (auto simp: constraint_from_to_dict)
    then show ?thesis
      by (simp add: role_constraints_from_dict_def py_get_def py_iter_def get_universal_constraints_def)
  qed
  have "map_exn role_constraints_from_dict
      (map (\<lambda>(rl, cs). (rl, PDict [(''constraints'', PList (map constraint_dict cs))])) cache) = Inr (map (\<lambda>x. x) cache)"
    using entry by (intro map_exn_all) auto
  with fold_update_distinct [of "[]" cache] assms(1) show ?thesis
    by (simp add: load_constraints_from_dict_def constraints_dict_def py_get_def py_items_def)
qed

theorem constraints_roundtrip_witness:
  "load_constraints_from_dict (constraints_dict [(''market_maker'', [limit_50]), (''retail'', [])]) =
     Inr [(''market_maker'', [limit_50]), (''retail'', [])]"
  by (rule constraints_roundtrip) (simp_all add: plain_config_def limit_50_def)

end
