(* ===== verification/Api_Models.thy ===== *)
theory Api_Models
  imports Py_Values
begin

text \<open>
  The response envelope of the REST API (\<open>infrastructure/api/models.py\<close>) and the error
  codes and messages of \<open>constants/errors.py\<close>. The timestamps of responses are read by
  nothing and left out.
\<close>

record api_error =
  ae_code :: string
  ae_message :: msg
  ae_details :: "(string, pyval) dict option"

record api_response =
  ar_success :: bool
  ar_request_id :: string
  ar_order_id :: "string option"
  ar_data :: "(string, pyval) dict option"
  ar_error :: "api_error option"

definition CANCEL_FAILED :: string where "CANCEL_FAILED = ''CANCEL_FAILED''"
definition INTERNAL_ERROR :: string where "INTERNAL_ERROR = ''INTERNAL_ERROR''"
definition INVALID_ORDER_TYPE :: string where "INVALID_ORDER_TYPE = ''INVALID_ORDER_TYPE''"
definition MISSING_PRICE :: string where "MISSING_PRICE = ''MISSING_PRICE''"
definition INVALID_SIDE :: string where "INVALID_SIDE = ''INVALID_SIDE''"
definition ORDER_NOT_FOUND :: string where "ORDER_NOT_FOUND = ''Order not found''"

lemmas error_codes = CANCEL_FAILED_def INTERNAL_ERROR_def INVALID_ORDER_TYPE_def
  MISSING_PRICE_def INVALID_SIDE_def ORDER_NOT_FOUND_def

definition format_cancel_failed :: "string \<Rightarrow> msg" where
  "format_cancel_failed reason = [Txt ''Cancel failed: '', Txt reason]"

text \<open>A failed response with an error and nothing else.\<close>

definition error_response :: "string \<Rightarrow> string \<Rightarrow> msg \<Rightarrow> (string, pyval) dict option \<Rightarrow> api_response" where
  "error_response rid code message details =
     \<lparr>ar_success = False, ar_request_id = rid, ar_order_id = None, ar_data = None,
      ar_error = Some \<lparr>ae_code = code, ae_message = message, ae_details = details\<rparr>\<rparr>"

definition success_response :: "string \<Rightarrow> string option \<Rightarrow> (string, pyval) dict option \<Rightarrow> api_response" where
  "success_response rid oid data =
     \<lparr>ar_success = True, ar_request_id = rid, ar_order_id = oid, ar_data = data, ar_error = None\<rparr>"

lemma response_selectors [simp]:
  "ar_success (error_response rid code message details) = False"
  "ar_request_id (error_response rid code message details) = rid"
  "ar_order_id (error_response rid code message details) = None"
  "ar_error (error_response rid code message details) =
     Some \<lparr>ae_code = code, ae_message = message, ae_details = details\<rparr>"
  "ar_success (success_response rid oid data) = True"
  "ar_request_id (success_response rid oid data) = rid"
  "ar_order_id (success_response rid oid data) = oid"
  "ar_error (success_response rid oid data) = None"
  by (simp_all add: error_response_def success_response_def)

end
