(* ===== verification/Coordinator.thy ===== *)
theory Coordinator
  imports Api_Models
begin

text \<open>
  The order response coordinator (\<open>exchange/response/coordinator.py\<close>, \<open>models.py\<close> and the
  two result classes of \<open>interfaces.py\<close>): API threads register a request and wait for it,
  pipeline threads notify its completion, a background thread cleans up.

  A request object is shared between the table and the threads that wait on it, so objects
  live in a store of their own (\<open>objects\<close>, addressed by the request id, which names one
  object for ever) and the table \<open>_pending_requests\<close> is the list of ids it holds, in
  insertion order. A \<open>threading.Event\<close> is its flag. Every operation takes its clock readings
  as arguments, in seconds; where a loop reads the clock once per request, the reading is a
  function of the request id.
\<close>

section \<open>Data\<close>

datatype response_status = PENDING | VALIDATING | MATCHING | SETTLING | COMPLETED | TIMEOUT | ERROR

definition is_terminal :: "response_status \<Rightarrow> bool" where
  "is_terminal st \<longleftrightarrow> st \<in> {COMPLETED, TIMEOUT, ERROR}"

definition is_active :: "response_status \<Rightarrow> bool" where
  "is_active st \<longleftrightarrow> st \<in> {PENDING, VALIDATING, MATCHING, SETTLING}"

record coordination_config =
  default_timeout_seconds :: rat
  max_pending_requests :: int
  cleanup_interval_seconds :: rat
  enable_metrics :: bool
  enable_detailed_logging :: bool
  request_id_prefix :: string

definition default_config :: coordination_config where
  "default_config =
     \<lparr>default_timeout_seconds = 5, max_pending_requests = 1000, cleanup_interval_seconds = 30,
      enable_metrics = True, enable_detailed_logging = False, request_id_prefix = ''req''\<rparr>"

record pending_request =
  pq_request_id :: string
  pq_team_id :: string
  pq_status :: response_status
  completion_event :: bool
  registered_at :: rat
  timeout_at :: rat
  pq_order_id :: "string option"
  current_stage :: pyval
  error_details :: "string option"
  processing_metrics :: "(string, pyval) dict"

definition is_expired :: "pending_request \<Rightarrow> rat \<Rightarrow> bool" where
  "is_expired p now \<longleftrightarrow> timeout_at p \<le> now"

definition add_processing_metric :: "string \<Rightarrow> pyval \<Rightarrow> pending_request \<Rightarrow> pending_request" where
  "add_processing_metric stage d p =
     p\<lparr>processing_metrics := AList.update stage d (processing_metrics p)\<rparr>"

definition get_total_processing_time_ms :: "pending_request \<Rightarrow> rat \<Rightarrow> rat" where
  "get_total_processing_time_ms p now = (now - registered_at p) * 1000"

record response_registration =
  rr_request_id :: string
  rr_team_id :: string
  rr_timeout_at :: rat
  rr_status :: response_status

record response_result =
  rs_request_id :: string
  rs_success :: bool
  rs_api_response :: api_response
  rs_processing_time_ms :: rat
  rs_final_status :: response_status
  rs_order_id :: "string option"

record coordinator =
  config :: coordination_config
  objects :: "string \<Rightarrow> pending_request option"
  pending :: "string list"
  results :: "string \<Rightarrow> response_result option"
  request_counter :: nat
  is_shutdown :: bool
  cleanup_event :: bool

definition new_coordinator :: "coordination_config option \<Rightarrow> coordinator" where
  "new_coordinator cfg =
     \<lparr>config = (case cfg of None \<Rightarrow> default_config | Some c \<Rightarrow> c), objects = Map.empty,
      pending = [], results = Map.empty, request_counter = 0, is_shutdown = False,
      cleanup_event = False\<rparr>"

text \<open>\<open>_pending_requests.get(request_id)\<close>, which is also \<open>get_request_status\<close>.\<close>

definition get_request_status :: "coordinator \<Rightarrow> string \<Rightarrow> pending_request option" where
  "get_request_status s rid = (if rid \<in> set (pending s) then objects s rid else None)"

definition put_object :: "string \<Rightarrow> pending_request \<Rightarrow> coordinator \<Rightarrow> coordinator" where
  "put_object rid p s = s\<lparr>objects := (objects s)(rid \<mapsto> p)\<rparr>"

section \<open>Registration\<close>

definition make_request_id :: "string \<Rightarrow> nat \<Rightarrow> nat \<Rightarrow> string" where
  "make_request_id pre time_ns n =
     pre @ ''_'' @ decimal time_ns @ ''_'' @ zero_pad 6 (decimal n)"

definition timeout_or_default :: "coordination_config \<Rightarrow> rat option \<Rightarrow> rat" where
  "timeout_or_default cfg timeout =
     (case timeout of
        None \<Rightarrow> default_timeout_seconds cfg
      | Some t \<Rightarrow> if t = 0 then default_timeout_seconds cfg else t)"

text \<open>\<open>time_ns\<close>, \<open>now1\<close> (for the deadline) and \<open>now2\<close> (for \<open>registered_at\<close>) are the three readings.\<close>

definition register_request ::
    "string \<Rightarrow> rat option \<Rightarrow> nat \<Rightarrow> rat \<Rightarrow> rat \<Rightarrow> coordinator \<Rightarrow> (exn + response_registration) \<times> coordinator" where
  "register_request team timeout time_ns now1 now2 s =
     (if is_shutdown s then (Inl (RuntimeError (lit ''Coordinator is shutting down'')), s)
      else if max_pending_requests (config s) \<le> int (length (pending s)) then
        (Inl (RuntimeError [Txt ''Service overloaded: '', Num (of_nat (length (pending s))), Txt ''/'',
                            Num (of_int (max_pending_requests (config s))), Txt '' pending requests'']), s)
      else
        let n = request_counter s + 1;
            rid = make_request_id (request_id_prefix (config s)) time_ns n;
            deadline = now1 + timeout_or_default (config s) timeout;
            p = \<lparr>pq_request_id = rid, pq_team_id = team, pq_status = PENDING, completion_event = False,
                 registered_at = now2, timeout_at = deadline, pq_order_id = None,
                 current_stage = PStr ''registration'', error_details = None, processing_metrics = []\<rparr>;
            keys = (if rid \<in> set (pending s) then pending s else pending s @ [rid])
        in (Inr \<lparr>rr_request_id = rid, rr_team_id = team, rr_timeout_at = deadline, rr_status = PENDING\<rparr>,
            (put_object rid p s)\<lparr>pending := keys, request_counter := n\<rparr>))"

section \<open>Waiting\<close>

text \<open>
  \<open>wait_for_completion\<close> blocks, so it is split at the points where other threads run:
  \<open>wait_begin\<close> up to the wait on the event (it yields the timeout of that wait),
  \<open>wait_signalled\<close> from a wait that saw the event set, and, when the wait ends without
  the event, \<open>timeout_result\<close> followed by the locked \<open>wait_timed_out\<close>.
\<close>

definition wait_begin :: "string \<Rightarrow> rat option \<Rightarrow> rat \<Rightarrow> coordinator \<Rightarrow> exn + rat" where
  "wait_begin rid timeout now s =
     (case get_request_status s rid of
        None \<Rightarrow> Inl (ValueError [Txt ''Request '', Txt rid, Txt '' not found''])
      | Some p \<Rightarrow> Inr (case timeout of Some t \<Rightarrow> t | None \<Rightarrow> max (1/10) (timeout_at p - now)))"

definition wait_signalled :: "string \<Rightarrow> coordinator \<Rightarrow> (exn + response_result) \<times> coordinator" where
  "wait_signalled rid s =
     (case results s rid of
        Some r \<Rightarrow>
          if rid \<in> set (pending s) then
            (Inr r, s\<lparr>pending := remove1 rid (pending s), results := (results s)(rid := None)\<rparr>)
          else (Inl (KeyError (lit rid)), s)
      | None \<Rightarrow> (Inl (RuntimeError [Txt ''No result found for completed request '', Txt rid]), s))"

definition timeout_result :: "string \<Rightarrow> rat \<Rightarrow> rat \<Rightarrow> pending_request \<Rightarrow> response_result" where
  "timeout_result rid timeout elapsed_ms p =
     \<lparr>rs_request_id = rid, rs_success = False,
      rs_api_response =
        error_response rid ''PROCESSING_TIMEOUT'' (lit ''Order processing exceeded time limit'')
          (Some [(''timeout_ms'', PNum (of_int (py_int (timeout * 1000)))),
                 (''elapsed_ms'', PNum (of_int (py_int elapsed_ms))),
                 (''stage'', current_stage p)]),
      rs_processing_time_ms = elapsed_ms, rs_final_status = TIMEOUT, rs_order_id = None\<rparr>"

definition set_status :: "response_status \<Rightarrow> string \<Rightarrow> coordinator \<Rightarrow> coordinator" where
  "set_status st rid s =
     (case objects s rid of None \<Rightarrow> s | Some p \<Rightarrow> put_object rid (p\<lparr>pq_status := st\<rparr>) s)"

definition wait_timed_out :: "string \<Rightarrow> coordinator \<Rightarrow> coordinator" where
  "wait_timed_out rid s =
     (if rid \<in> set (pending s) then (set_status TIMEOUT rid s)\<lparr>pending := remove1 rid (pending s)\<rparr>
      else s)"

section \<open>Notification and status\<close>

definition completion_result :: "string \<Rightarrow> api_response \<Rightarrow> string option \<Rightarrow> rat \<Rightarrow> response_result" where
  "completion_result rid resp oid ms =
     \<lparr>rs_request_id = rid, rs_success = ar_success resp, rs_api_response = resp,
      rs_processing_time_ms = ms, rs_final_status = (if ar_success resp then COMPLETED else ERROR),
      rs_order_id = oid\<rparr>"

text \<open>Status, result and event are set together under the lock.\<close>

definition settle :: "string \<Rightarrow> pending_request \<Rightarrow> response_result \<Rightarrow> coordinator \<Rightarrow> coordinator" where
  "settle rid p r s =
     (put_object rid (p\<lparr>pq_status := rs_final_status r, completion_event := True\<rparr>) s)
       \<lparr>results := (results s)(rid \<mapsto> r)\<rparr>"

definition notify_completion ::
    "string \<Rightarrow> api_response \<Rightarrow> string option \<Rightarrow> rat \<Rightarrow> coordinator \<Rightarrow> bool \<times> coordinator" where
  "notify_completion rid resp oid now s =
     (case get_request_status s rid of
        None \<Rightarrow> (False, s)
      | Some p \<Rightarrow>
          if is_terminal (pq_status p) then (True, s)
          else (True, settle rid (p\<lparr>pq_order_id := oid\<rparr>)
                        (completion_result rid resp oid ((now - registered_at p) * 1000)) s))"

definition record_metric :: "string \<times> pyval \<Rightarrow> pending_request \<Rightarrow> pending_request" where
  "record_metric kv p =
     (case kv of (k, v) \<Rightarrow>
        if Sublist.suffix ''_ms'' k \<or> Sublist.suffix ''_time'' k then add_processing_metric k v p else p)"

definition apply_stage_details :: "(string, pyval) dict option \<Rightarrow> pending_request \<Rightarrow> pending_request" where
  "apply_stage_details details p =
     (case details of
        None \<Rightarrow> p
      | Some d \<Rightarrow>
          if d = [] then p
          else fold record_metric d
                 (p\<lparr>current_stage := (case map_of d ''stage'' of None \<Rightarrow> current_stage p | Some v \<Rightarrow> v)\<rparr>))"

definition update_status ::
    "string \<Rightarrow> response_status \<Rightarrow> (string, pyval) dict option \<Rightarrow> coordinator \<Rightarrow> bool \<times> coordinator" where
  "update_status rid st details s =
     (case get_request_status s rid of
        None \<Rightarrow> (False, s)
      | Some p \<Rightarrow>
          if is_terminal (pq_status p) then (False, s)
          else (True, put_object rid (apply_stage_details details (p\<lparr>pq_status := st\<rparr>)) s))"

section \<open>Cleanup\<close>

definition create_timeout_response :: "pending_request \<Rightarrow> rat \<Rightarrow> response_result" where
  "create_timeout_response p now =
     \<lparr>rs_request_id = pq_request_id p, rs_success = False,
      rs_api_response =
        error_response (pq_request_id p) ''PROCESSING_TIMEOUT'' (lit ''Order processing exceeded time limit'')
          (Some [(''timeout_ms'', PNum (of_int (py_int ((timeout_at p - registered_at p) * 1000)))),
                 (''stage'', current_stage p), (''team_id'', PStr (pq_team_id p))]),
      rs_processing_time_ms = (now - registered_at p) * 1000, rs_final_status = TIMEOUT,
      rs_order_id = None\<rparr>"

definition handle_expired_request :: "string \<Rightarrow> pending_request \<Rightarrow> rat \<Rightarrow> coordinator \<Rightarrow> coordinator" where
  "handle_expired_request rid p now s =
     (if pq_status p \<noteq> TIMEOUT then settle rid p (create_timeout_response p now) s else s)"

definition should_clean_completed_request :: "coordination_config \<Rightarrow> pending_request \<Rightarrow> rat \<Rightarrow> bool" where
  "should_clean_completed_request cfg p now \<longleftrightarrow>
     is_terminal (pq_status p) \<and> cleanup_interval_seconds cfg < now - registered_at p"

text \<open>
  \<open>now\<close> is the reading before the lock, \<open>seen rid\<close> the one of \<open>is_expired\<close> and
  \<open>stamp rid\<close> the one in the timeout response of \<open>rid\<close>.
\<close>

fun cleanup_scan ::
    "rat \<Rightarrow> (string \<Rightarrow> rat) \<Rightarrow> (string \<Rightarrow> rat) \<Rightarrow> string list \<Rightarrow> coordinator \<Rightarrow> string list \<times> coordinator" where
  "cleanup_scan now seen stamp [] s = ([], s)"
| "cleanup_scan now seen stamp (rid # rids) s =
     (case objects s rid of
        None \<Rightarrow> cleanup_scan now seen stamp rids s
      | Some p \<Rightarrow>
          if is_expired p (seen rid) then
            (case cleanup_scan now seen stamp rids (handle_expired_request rid p (stamp rid) s) of
               (rs, s') \<Rightarrow> (rid # rs, s'))
          else if should_clean_completed_request (config s) p now then
            (case cleanup_scan now seen stamp rids s of (rs, s') \<Rightarrow> (rid # rs, s'))
          else cleanup_scan now seen stamp rids s)"

definition remove_request :: "string \<Rightarrow> coordinator \<Rightarrow> coordinator" where
  "remove_request rid s =
     s\<lparr>pending := remove1 rid (pending s), results := (results s)(rid := None)\<rparr>"

definition cleanup_completed_requests ::
    "rat \<Rightarrow> (string \<Rightarrow> rat) \<Rightarrow> (string \<Rightarrow> rat) \<Rightarrow> coordinator \<Rightarrow> nat \<times> coordinator" where
  "cleanup_completed_requests now seen stamp s =
     (case cleanup_scan now seen stamp (pending s) s of
        (rids, s') \<Rightarrow> (length rids, fold remove_request rids s'))"

text \<open>
  One round of the cleanup thread: it stops when a shutdown is in progress or when its wait
  sees the event, and cleans up when the wait times out. The result says whether it goes on.
\<close>

definition cleanup_round ::
    "rat \<Rightarrow> (string \<Rightarrow> rat) \<Rightarrow> (string \<Rightarrow> rat) \<Rightarrow> coordinator \<Rightarrow> bool \<times> coordinator" where
  "cleanup_round now seen stamp s =
     (if is_shutdown s then (False, s)
      else if cleanup_event s then (False, s)
      else (True, snd (cleanup_completed_requests now seen stamp s)))"

section \<open>Shutdown\<close>

definition shutdown_result :: "pending_request \<Rightarrow> rat \<Rightarrow> response_result" where
  "shutdown_result p now =
     \<lparr>rs_request_id = pq_request_id p, rs_success = False,
      rs_api_response =
        error_response (pq_request_id p) ''SERVICE_SHUTDOWN'' (lit ''Service shutting down'') None,
      rs_processing_time_ms = (now - registered_at p) * 1000, rs_final_status = ERROR,
      rs_order_id = None\<rparr>"

definition shutdown_one :: "(string \<Rightarrow> rat) \<Rightarrow> string \<Rightarrow> coordinator \<Rightarrow> coordinator" where
  "shutdown_one stamp rid s =
     (case objects s rid of
        None \<Rightarrow> s
      | Some p \<Rightarrow>
          if is_terminal (pq_status p) then s else settle rid p (shutdown_result p (stamp rid)) s)"

text \<open>The first locked block, the event, and the second locked block; other threads run between them.\<close>

definition shutdown_signal :: "(string \<Rightarrow> rat) \<Rightarrow> coordinator \<Rightarrow> coordinator" where
  "shutdown_signal stamp s = fold (shutdown_one stamp) (pending s) (s\<lparr>is_shutdown := True\<rparr>)"

definition shutdown_wake_cleanup :: "coordinator \<Rightarrow> coordinator" where
  "shutdown_wake_cleanup s = s\<lparr>cleanup_event := True\<rparr>"

definition shutdown_clear :: "coordinator \<Rightarrow> coordinator" where
  "shutdown_clear s = s\<lparr>pending := [], results := Map.empty\<rparr>"

definition shutdown :: "(string \<Rightarrow> rat) \<Rightarrow> coordinator \<Rightarrow> coordinator" where
  "shutdown stamp s = shutdown_clear (shutdown_wake_cleanup (shutdown_signal stamp s))"

section \<open>Interleavings\<close>

text \<open>
  The threads that wait, by thread number: in the wait with its timeout, past a wait that
  ended without the event (holding the timeout response), or returned.
\<close>

datatype waiter = Waiting string rat | Expired string response_result | Returned "exn + response_result"

datatype coord_event =
    Register string "rat option" nat rat rat
  | WaitBegin nat string "rat option" rat
  | Wake nat
  | GiveUp nat rat
  | Drop nat
  | Notify string api_response "string option" rat
  | Update string response_status "(string, pyval) dict option"
  | Cleanup rat "string \<Rightarrow> rat" "string \<Rightarrow> rat"
  | ShutdownSignal "string \<Rightarrow> rat"
  | ShutdownWake
  | ShutdownClear

type_synonym coord_system = "coordinator \<times> (nat \<Rightarrow> waiter option)"

inductive coord_step :: "coord_system \<Rightarrow> coord_event \<Rightarrow> coord_system \<Rightarrow> bool" where
  Register_step:
    "snd (register_request team timeout ns t1 t2 s) = s' \<Longrightarrow>
     coord_step (s, ws) (Register team timeout ns t1 t2) (s', ws)"
| Wait_step:
    "wait_begin rid timeout now s = Inr t \<Longrightarrow> ws tid = None \<Longrightarrow>
     coord_step (s, ws) (WaitBegin tid rid timeout now) (s, ws(tid \<mapsto> Waiting rid t))"
| Wait_error:
    "wait_begin rid timeout now s = Inl e \<Longrightarrow> ws tid = None \<Longrightarrow>
     coord_step (s, ws) (WaitBegin tid rid timeout now) (s, ws(tid \<mapsto> Returned (Inl e)))"
| Wake_step:
    "ws tid = Some (Waiting rid t) \<Longrightarrow> objects s rid = Some p \<Longrightarrow> completion_event p \<Longrightarrow>
     wait_signalled rid s = (out, s') \<Longrightarrow>
     coord_step (s, ws) (Wake tid) (s', ws(tid \<mapsto> Returned out))"
| GiveUp_step:
    "ws tid = Some (Waiting rid t) \<Longrightarrow> objects s rid = Some p \<Longrightarrow> \<not> completion_event p \<Longrightarrow>
     coord_step (s, ws) (GiveUp tid elapsed) (s, ws(tid \<mapsto> Expired rid (timeout_result rid t elapsed p)))"
| Drop_step:
    "ws tid = Some (Expired rid r) \<Longrightarrow>
     coord_step (s, ws) (Drop tid) (wait_timed_out rid s, ws(tid \<mapsto> Returned (Inr r)))"
| Notify_step:
    "coord_step (s, ws) (Notify rid resp oid now) (snd (notify_completion rid resp oid now s), ws)"
| Update_step:
    "coord_step (s, ws) (Update rid st details) (snd (update_status rid st details s), ws)"
| Cleanup_step:
    "coord_step (s, ws) (Cleanup now seen stamp) (snd (cleanup_completed_requests now seen stamp s), ws)"
| Signal_step: "coord_step (s, ws) (ShutdownSignal stamp) (shutdown_signal stamp s, ws)"
| ShutdownWake_step: "coord_step (s, ws) ShutdownWake (shutdown_wake_cleanup s, ws)"
| Clear_step: "coord_step (s, ws) ShutdownClear (shutdown_clear s, ws)"

inductive_cases coord_stepE: "coord_step (s, ws) ev (s', ws')"

text \<open>
  Every operation but one keeps status, event and result of a request in agreement; the
  exception is \<open>update_status\<close> with a terminal status, which the pipeline never asks for.
\<close>

fun proper_event :: "coord_event \<Rightarrow> bool" where
  "proper_event (Update rid st details) \<longleftrightarrow> is_active st"
| "proper_event _ \<longleftrightarrow> True"

inductive coord_reachable :: "coordination_config \<Rightarrow> coord_system \<Rightarrow> bool" for cfg where
  start: "coord_reachable cfg (new_coordinator (Some cfg), Map.empty)"
| step: "coord_reachable cfg sys \<Longrightarrow> proper_event ev \<Longrightarrow> coord_step sys ev sys' \<Longrightarrow> coord_reachable cfg sys'"

end
