(* ===== verification/Coordinator_Invariant.thy ===== *)
theory Coordinator_Invariant
  imports Coordinator
begin

text \<open>
  The invariant of the coordinator, preserved by every operation: the table holds distinct
  ids of existing objects, never more than the capacity, and of each request in the table
  status, event and stored result agree. The request ids ever issued carry counters up to
  the current one, so a new id is always fresh.
\<close>

definition agrees :: "pending_request \<Rightarrow> response_result option \<Rightarrow> bool" where
  "agrees p r \<longleftrightarrow>
     (is_terminal (pq_status p) \<longleftrightarrow> completion_event p) \<and> (completion_event p \<longleftrightarrow> r \<noteq> None)"

definition issued :: "string \<Rightarrow> nat \<Rightarrow> string \<Rightarrow> bool" where
  "issued pre n rid \<longleftrightarrow> (\<exists>ns k. k \<le> n \<and> rid = make_request_id pre ns k)"

definition coord_ok :: "coordination_config \<Rightarrow> coordinator \<Rightarrow> bool" where
  "coord_ok cfg s \<longleftrightarrow>
     config s = cfg \<and> distinct (pending s) \<and>
     (\<forall>rid \<in> set (pending s). \<exists>p. objects s rid = Some p \<and> pq_request_id p = rid \<and> agrees p (results s rid)) \<and>
     (\<forall>rid \<in> dom (objects s). issued (request_id_prefix cfg) (request_counter s) rid) \<and>
     (\<forall>rid r. results s rid = Some r \<longrightarrow> rid \<in> dom (objects s) \<and> rs_request_id r = rid) \<and>
     int (length (pending s)) \<le> max 0 (max_pending_requests cfg)"

lemma coord_okI [wf_intros]:
  assumes "config s = cfg" and "distinct (pending s)"
    and "\<And>rid. rid \<in> set (pending s) \<Longrightarrow>
      \<exists>p. objects s rid = Some p \<and> pq_request_id p = rid \<and> agrees p (results s rid)"
    and "\<And>rid p. objects s rid = Some p \<Longrightarrow> issued (request_id_prefix cfg) (request_counter s) rid"
    and "\<And>rid r. results s rid = Some r \<Longrightarrow> objects s rid \<noteq> None \<and> rs_request_id r = rid"
    and "int (length (pending s)) \<le> max 0 (max_pending_requests cfg)"
  shows "coord_ok cfg s"
  using assms by (auto simp: coord_ok_def)

lemma coord_okD:
  assumes "coord_ok cfg s"
  shows "config s = cfg" and "distinct (pending s)"
    and "rid \<in> set (pending s) \<Longrightarrow>
      \<exists>p. objects s rid = Some p \<and> pq_request_id p = rid \<and> agrees p (results s rid)"
    and "objects s rid = Some p \<Longrightarrow> issued (request_id_prefix cfg) (request_counter s) rid"
    and "results s rid = Some r \<Longrightarrow> objects s rid \<noteq> None \<and> rs_request_id r = rid"
    and "int (length (pending s)) \<le> max 0 (max_pending_requests cfg)"
  using assms by (auto simp: coord_ok_def)

lemma issued_mono: "issued pre n rid \<Longrightarrow> n \<le> m \<Longrightarrow> issued pre m rid"
  unfolding issued_def using le_trans by blast

lemma issued_Suc: "issued pre n rid \<Longrightarrow> issued pre (Suc n) rid"
  by (erule issued_mono) simp

lemma make_request_id_inject:
  "make_request_id pre ns n = make_request_id pre ns' n' \<longleftrightarrow> ns = ns' \<and> n = n'"
  using decimal_pair_inject [of ns 6 n ns' n'] by (auto simp: make_request_id_def)

text \<open>The next id is fresh, whatever the clock shows.\<close>

lemma next_id_fresh: "\<not> issued pre n (make_request_id pre ns (n + 1))"
  by (auto simp: issued_def make_request_id_inject)

section \<open>Operations on one request\<close>

lemma settle_selectors [simp]:
  "config (settle rid p r s) = config s"
  "pending (settle rid p r s) = pending s"
  "request_counter (settle rid p r s) = request_counter s"
  "is_shutdown (settle rid p r s) = is_shutdown s"
  "objects (settle rid p r s) =
     (objects s)(rid \<mapsto> p\<lparr>pq_status := rs_final_status r, completion_event := True\<rparr>)"
  "results (settle rid p r s) = (results s)(rid \<mapsto> r)"
  by (simp_all add: settle_def put_object_def)

lemma settle_ok:
  assumes "coord_ok cfg s" and "rid \<in> set (pending s)" and "pq_request_id p = rid"
    and "rs_request_id r = rid" and "is_terminal (rs_final_status r)"
  shows "coord_ok cfg (settle rid p r s)"
proof (rule coord_okI)
  fix rid' q
  assume "objects (settle rid p r s) rid' = Some q"
  then have "objects s rid' \<noteq> None"
    using coord_okD(3) [OF assms(1,2)] by (auto split: if_splits)
  then show "issued (request_id_prefix cfg) (request_counter (settle rid p r s)) rid'"
    using coord_okD(4) [OF assms(1)] by auto
qed (use assms coord_okD [OF assms(1)] in \<open>auto simp: agrees_def split: if_splits\<close>)

text \<open>Taking a request out of the table, with or without its result.\<close>

lemma drop_ok:
  assumes "coord_ok cfg s" and "config s' = config s" and "request_counter s' = request_counter s"
    and "pending s' = remove1 rid (pending s)"
    and "\<And>k. k \<noteq> rid \<Longrightarrow> objects s' k = objects s k \<and> results s' k = results s k"
    and "objects s' rid = None \<longleftrightarrow> objects s rid = None"
    and "results s' rid = None \<or> results s' rid = results s rid"
  shows "coord_ok cfg s'"
proof (rule coord_okI)
  fix k q
  assume "objects s' k = Some q"
  then have "objects s k \<noteq> None"
    using assms(5) [of k] assms(6) by (cases "k = rid") auto
  then show "issued (request_id_prefix cfg) (request_counter s') k"
    using coord_okD(4) [OF assms(1)] assms(3) by auto
next
  fix k r
  assume "results s' k = Some r"
  then have "results s k = Some r"
    using assms(5) [of k] assms(7) by (cases "k = rid") auto
  then show "objects s' k \<noteq> None \<and> rs_request_id r = k"
    using coord_okD(5) [OF assms(1)] assms(5) [of k] assms(6) by (cases "k = rid") auto
next
  fix k
  assume "k \<in> set (pending s')"
  then have "k \<noteq> rid" and "k \<in> set (pending s)"
    using coord_okD(2) [OF assms(1)] by (auto simp: assms(4))
  then show "\<exists>p. objects s' k = Some p \<and> pq_request_id p = k \<and> agrees p (results s' k)"
    using coord_okD(3) [OF assms(1)] assms(5) by simp
next
  have "length (pending s') \<le> length (pending s)"
    by (simp add: assms(4) length_remove1)
  then show "int (length (pending s')) \<le> max 0 (max_pending_requests cfg)"
    using coord_okD(6) [OF assms(1)] by linarith
qed (use assms(2,4) coord_okD(1,2) [OF assms(1)] in auto)

lemma remove_request_ok: "coord_ok cfg s \<Longrightarrow> coord_ok cfg (remove_request rid s)"
  by (erule drop_ok [where rid = rid]) (auto simp: remove_request_def)

lemma remove_requests_ok: "coord_ok cfg s \<Longrightarrow> coord_ok cfg (fold remove_request rids s)"
  by (induction rids arbitrary: s) (auto intro: remove_request_ok)

lemma set_status_selectors [simp]:
  "config (set_status st rid s) = config s"
  "pending (set_status st rid s) = pending s"
  "results (set_status st rid s) = results s"
  "request_counter (set_status st rid s) = request_counter s"
  "is_shutdown (set_status st rid s) = is_shutdown s"
  "objects (set_status st rid s) =
     (objects s)(rid := map_option (\<lambda>p. p\<lparr>pq_status := st\<rparr>) (objects s rid))"
  by (auto simp: set_status_def put_object_def split: option.splits)

lemma wait_timed_out_ok: "coord_ok cfg s \<Longrightarrow> coord_ok cfg (wait_timed_out rid s)"
  by (cases "rid \<in> set (pending s)") (auto simp: wait_timed_out_def intro: drop_ok [where rid = rid])

lemma wait_signalled_ok: "coord_ok cfg s \<Longrightarrow> coord_ok cfg (snd (wait_signalled rid s))"
  by (auto simp: wait_signalled_def split: option.splits intro: drop_ok [where rid = rid])

section \<open>Registration, notification, status\<close>

lemma register_request_cases:
  "register_request team timeout ns t1 t2 s = (out, s') \<Longrightarrow>
   (\<exists>m. out = Inl (RuntimeError m)) \<and> s' = s \<and>
     (is_shutdown s \<or> max_pending_requests (config s) \<le> int (length (pending s)))
   \<or> (\<exists>r. out = Inr r) \<and> \<not> is_shutdown s \<and> int (length (pending s)) < max_pending_requests (config s)"
  by (auto simp: register_request_def Let_def split: if_splits)

lemma register_request_ok:
  assumes ok: "coord_ok cfg s"
  shows "coord_ok cfg (snd (register_request team timeout ns t1 t2 s))"
proof -
  let ?rid = "make_request_id (request_id_prefix cfg) ns (request_counter s + 1)"
  have c: "config s = cfg" using coord_okD(1) [OF ok] .
  have fresh: "objects s ?rid = None"
    using coord_okD(4) [OF ok] next_id_fresh by (metis not_Some_eq)
  have new: "?rid \<notin> set (pending s)"
    using coord_okD(3) [OF ok, of ?rid] fresh by auto
  have nores: "results s ?rid = None"
    using coord_okD(5) [OF ok, of ?rid] fresh by (cases "results s ?rid") auto
  have now: "issued (request_id_prefix cfg) (request_counter s + 1) ?rid"
    by (auto simp: issued_def)
  show ?thesis
  proof (cases "is_shutdown s \<or> max_pending_requests cfg \<le> int (length (pending s))")
    case True
    then show ?thesis using ok c by (auto simp: register_request_def)
  next
    case False
    then have *: "\<not> is_shutdown s" "\<not> max_pending_requests cfg \<le> int (length (pending s))" by auto
    show ?thesis
      unfolding register_request_def
      apply (simp only: c * if_False Let_def snd_conv new)
      apply (rule coord_okI)
      using coord_okD [OF ok] * fresh new nores now
      apply (auto simp: put_object_def agrees_def is_terminal_def intro: issued_Suc split: if_splits)
      done
  qed
qed

lemma get_request_status_Some:
  "get_request_status s rid = Some p \<longleftrightarrow> rid \<in> set (pending s) \<and> objects s rid = Some p"
  by (auto simp: get_request_status_def)

lemma notify_completion_ok:
  assumes "coord_ok cfg s"
  shows "coord_ok cfg (snd (notify_completion rid resp oid now s))"
proof (cases "get_request_status s rid")
  case (Some p)
  then have "rid \<in> set (pending s)" and "pq_request_id p = rid"
    using coord_okD(3) [OF assms] by (fastforce simp: get_request_status_Some)+
  with Some assms show ?thesis
    by (auto simp: notify_completion_def completion_result_def is_terminal_def intro!: settle_ok)
qed (simp add: notify_completion_def assms)

lemma record_metric_selectors [simp]:
  "pq_status (record_metric kv p) = pq_status p"
  "pq_request_id (record_metric kv p) = pq_request_id p"
  "completion_event (record_metric kv p) = completion_event p"
  by (simp_all add: record_metric_def add_processing_metric_def split: prod.split)

lemma apply_stage_details_selectors [simp]:
  "pq_status (apply_stage_details d p) = pq_status p"
  "pq_request_id (apply_stage_details d p) = pq_request_id p"
  "completion_event (apply_stage_details d p) = completion_event p"
proof -
  have "pq_status (fold record_metric kvs q) = pq_status q \<and>
    pq_request_id (fold record_metric kvs q) = pq_request_id q \<and>
    completion_event (fold record_metric kvs q) = completion_event q" for kvs q
    by (induction kvs arbitrary: q) simp_all
  then show "pq_status (apply_stage_details d p) = pq_status p"
    and "pq_request_id (apply_stage_details d p) = pq_request_id p"
    and "completion_event (apply_stage_details d p) = completion_event p"
    by (auto simp: apply_stage_details_def split: option.split)
qed

lemma active_not_terminal: "is_active st \<longleftrightarrow> \<not> is_terminal st"
  by (cases st) (simp_all add: is_active_def is_terminal_def)

lemma update_status_ok:
  assumes "coord_ok cfg s" and "is_active st"
  shows "coord_ok cfg (snd (update_status rid st details s))"
proof (cases "get_request_status s rid")
  case (Some p)
  then have p: "rid \<in> set (pending s)" "objects s rid = Some p"
    by (simp_all add: get_request_status_Some)
  then have q: "pq_request_id p = rid" "agrees p (results s rid)"
    using coord_okD(3) [OF assms(1) p(1)] by auto
  have "coord_ok cfg (put_object rid (apply_stage_details details (p\<lparr>pq_status := st\<rparr>)) s)"
    if "\<not> is_terminal (pq_status p)"
    apply (rule coord_okI)
    using coord_okD [OF assms(1)] p q that assms(2)
    apply (auto simp: put_object_def agrees_def active_not_terminal split: if_splits)
    done
  with Some assms(1) show ?thesis by (simp add: update_status_def)
qed (simp add: update_status_def assms(1))

section \<open>Cleanup and shutdown\<close>

lemma handle_expired_ok:
  assumes "coord_ok cfg s" and "rid \<in> set (pending s)" and "objects s rid = Some p"
  shows "coord_ok cfg (handle_expired_request rid p now s)"
  using assms coord_okD(3) [OF assms(1,2)]
  by (auto simp: handle_expired_request_def create_timeout_response_def is_terminal_def intro!: settle_ok)

lemma handle_expired_selectors [simp]:
  "pending (handle_expired_request rid p now s) = pending s"
  "config (handle_expired_request rid p now s) = config s"
  by (simp_all add: handle_expired_request_def)

lemma cleanup_scan_ok:
  "coord_ok cfg s \<Longrightarrow> set rids \<subseteq> set (pending s) \<Longrightarrow>
   coord_ok cfg (snd (cleanup_scan now seen stamp rids s)) \<and>
   pending (snd (cleanup_scan now seen stamp rids s)) = pending s"
proof (induction rids arbitrary: s)
  case (Cons rid rids)
  then obtain p where p: "objects s rid = Some p" and rid: "rid \<in> set (pending s)"
    using coord_okD(3) [OF Cons.prems(1)] by fastforce
  have "coord_ok cfg (handle_expired_request rid p (stamp rid) s)"
    using Cons.prems(1) rid p by (rule handle_expired_ok)
  then show ?case
    using Cons p by (auto simp: case_prod_beta)
qed simp

lemma cleanup_ok:
  "coord_ok cfg s \<Longrightarrow> coord_ok cfg (snd (cleanup_completed_requests now seen stamp s))"
  using cleanup_scan_ok [of cfg s "pending s" now seen stamp]
  by (simp add: cleanup_completed_requests_def case_prod_beta remove_requests_ok)

lemma shutdown_one_ok:
  assumes "coord_ok cfg s" and "rid \<in> set (pending s)"
  shows "coord_ok cfg (shutdown_one stamp rid s) \<and> pending (shutdown_one stamp rid s) = pending s"
  using coord_okD(3) [OF assms] assms
  by (auto simp: shutdown_one_def shutdown_result_def is_terminal_def intro!: settle_ok)

lemma shutdown_fold_ok:
  "coord_ok cfg s \<Longrightarrow> set rids \<subseteq> set (pending s) \<Longrightarrow>
   coord_ok cfg (fold (shutdown_one stamp) rids s) \<and> pending (fold (shutdown_one stamp) rids s) = pending s"
  by (induction rids arbitrary: s) (simp_all add: shutdown_one_ok)

lemma coord_ok_flags [simp]:
  "coord_ok cfg (s\<lparr>is_shutdown := b\<rparr>) = coord_ok cfg s"
  "coord_ok cfg (s\<lparr>cleanup_event := b\<rparr>) = coord_ok cfg s"
  by (simp_all add: coord_ok_def)

lemma shutdown_ok:
  assumes "coord_ok cfg s"
  shows "coord_ok cfg (shutdown_signal stamp s)" and "coord_ok cfg (shutdown_wake_cleanup s)"
    and "coord_ok cfg (shutdown_clear s)"
proof -
  show "coord_ok cfg (shutdown_signal stamp s)"
    using shutdown_fold_ok [of cfg "s\<lparr>is_shutdown := True\<rparr>" "pending s" stamp] assms
    by (simp add: shutdown_signal_def)
  show "coord_ok cfg (shutdown_wake_cleanup s)"
    using assms by (simp add: shutdown_wake_cleanup_def)
  show "coord_ok cfg (shutdown_clear s)"
    using assms by (auto simp: coord_ok_def shutdown_clear_def)
qed

lemma new_coordinator_ok: "coord_ok cfg (new_coordinator (Some cfg))"
  by (simp add: coord_ok_def new_coordinator_def)

section \<open>Reachable systems\<close>

lemma coord_step_ok:
  assumes "coord_step sys ev sys'" and "proper_event ev" and "coord_ok cfg (fst sys)"
  shows "coord_ok cfg (fst sys')"
  using assms
proof (induction rule: coord_step.induct)
  case (Wake_step ws tid rid t s p out s')
  then show ?case using wait_signalled_ok [of cfg s rid] by simp
qed (auto simp: register_request_ok wait_timed_out_ok notify_completion_ok update_status_ok
    cleanup_ok shutdown_ok)

lemma coord_reachable_ok: "coord_reachable cfg sys \<Longrightarrow> coord_ok cfg (fst sys)"
  by (induction rule: coord_reachable.induct) (simp_all add: new_coordinator_ok coord_step_ok)

end
