(* ===== verification/Coordinator_Properties.thy ===== *)
theory Coordinator_Properties
  imports Coordinator_Invariant
begin

text \<open>
  What the coordinator promises to the threads that use it, over every reachable
  interleaving: bounded and agreeing tables, fresh ids, the first notification delivered
  once, what cleanup and shutdown do to requests that are still being waited for.
\<close>

section \<open>A small system\<close>

definition demo_coord :: coordinator where
  "demo_coord = snd (register_request ''T1'' None 7 0 0 (new_coordinator (Some default_config)))"

definition demo_id :: string where
  "demo_id = make_request_id ''req'' 7 1"

lemma demo_coord_eq:
  "demo_coord =
     (put_object demo_id
        \<lparr>pq_request_id = demo_id, pq_team_id = ''T1'', pq_status = PENDING, completion_event = False,
         registered_at = 0, timeout_at = 5, pq_order_id = None, current_stage = PStr ''registration'',
         error_details = None, processing_metrics = []\<rparr> (new_coordinator (Some default_config)))
       \<lparr>pending := [demo_id], request_counter := 1\<rparr>"
  by (simp add: demo_coord_def demo_id_def register_request_def new_coordinator_def default_config_def
      timeout_or_default_def Let_def)

lemma demo_reachable: "coord_reachable default_config (demo_coord, Map.empty)"
  unfolding demo_coord_def
  by (rule coord_reachable.step [OF coord_reachable.start, where ev = "Register ''T1'' None 7 0 0"])
     (auto intro: Register_step)

lemma demo_status:
  "get_request_status demo_coord demo_id =
     Some \<lparr>pq_request_id = demo_id, pq_team_id = ''T1'', pq_status = PENDING, completion_event = False,
           registered_at = 0, timeout_at = 5, pq_order_id = None, current_stage = PStr ''registration'',
           error_details = None, processing_metrics = []\<rparr>"
  by (simp add: get_request_status_def demo_coord_eq put_object_def)

section \<open>The invariant\<close>

lemma reachable_ok: "coord_reachable cfg (s, ws) \<Longrightarrow> coord_ok cfg s"
  using coord_reachable_ok [of cfg "(s, ws)"] by simp

lemma status_agrees:
  assumes "coord_ok cfg s" and "get_request_status s rid = Some p"
  shows "pq_request_id p = rid" and "agrees p (results s rid)"
  using assms coord_okD(3) [OF assms(1), of rid] by (auto simp: get_request_status_Some)

text \<open>
  C7: Whatever the threads do, and in whatever order, the table of pending requests stays
  within the configured capacity and holds each id once; for every request in it, the
  status is terminal exactly when the event is set and exactly when a result is stored, so
  a thread woken while its request is in the table always finds its result; and every
  registration either fails with a RuntimeError that changes nothing or issues an id that
  was never used before.
\<close>

theorem coordinator_safe:
  assumes "coord_reachable cfg (s, ws)"
  shows "int (length (pending s)) \<le> max 0 (max_pending_requests cfg) \<and> distinct (pending s) \<and>
    (\<forall>rid p. get_request_status s rid = Some p \<longrightarrow>
       (is_terminal (pq_status p) \<longleftrightarrow> completion_event p) \<and>
       (completion_event p \<longleftrightarrow> (\<exists>r. fst (wait_signalled rid s) = Inr r))) \<and>
    (\<forall>team timeout ns t1 t2 out s'. register_request team timeout ns t1 t2 s = (out, s') \<longrightarrow>
       (\<exists>m. out = Inl (RuntimeError m) \<and> s' = s) \<or>
       (\<exists>r. out = Inr r \<and> objects s (rr_request_id r) = None \<and>
            pending s' = pending s @ [rr_request_id r]))"
proof (intro conjI allI impI)
  have ok: "coord_ok cfg s" using assms by (rule reachable_ok)
  show "int (length (pending s)) \<le> max 0 (max_pending_requests cfg)" and "distinct (pending s)"
    using coord_okD [OF ok] by auto
  fix rid p
  assume g: "get_request_status s rid = Some p"
  show "is_terminal (pq_status p) \<longleftrightarrow> completion_event p"
    using status_agrees(2) [OF ok g] by (simp add: agrees_def)
  have "rid \<in> set (pending s)" using g by (simp add: get_request_status_Some)
  then show "completion_event p \<longleftrightarrow> (\<exists>r. fst (wait_signalled rid s) = Inr r)"
    using status_agrees(2) [OF ok g] by (auto simp: agrees_def wait_signalled_def split: option.split)
next
  have ok: "coord_ok cfg s" using assms by (rule reachable_ok)
  fix team timeout ns t1 t2 out s'
  assume reg: "register_request team timeout ns t1 t2 s = (out, s')"
  let ?rid = "make_request_id (request_id_prefix (config s)) ns (request_counter s + 1)"
  have fresh: "objects s ?rid = None"
    using coord_okD(4) [OF ok, of ?rid] next_id_fresh [of "request_id_prefix cfg"] coord_okD(1) [OF ok]
    by (metis not_Some_eq)
  then have "?rid \<notin> set (pending s)"
    using coord_okD(3) [OF ok, of ?rid] by auto
  with reg fresh show "(\<exists>m. out = Inl (RuntimeError m) \<and> s' = s) \<or>
      (\<exists>r. out = Inr r \<and> objects s (rr_request_id r) = None \<and> pending s' = pending s @ [rr_request_id r])"
    by (auto simp: register_request_def Let_def split: if_splits)
qed

theorem coordinator_safe_witness:
  "int (length (pending demo_coord)) \<le> 1000 \<and> distinct (pending demo_coord)"
  using coordinator_safe [OF demo_reachable] by (simp add: default_config_def)

section \<open>Notification\<close>

text \<open>
  C18: The first completion notified for an active request is the one its waiter receives,
  with the order id it came with: later notifications succeed without effect, other
  requests are untouched, and the delivery happens once: afterwards the request is unknown
  to waiters (ValueError) and to notifications (False).
\<close>

theorem first_notification_wins:
  assumes "coord_reachable cfg (s, ws)" and "get_request_status s rid = Some p"
    and "is_active (pq_status p)" and "notify_completion rid resp oid now s = (done1, s1)"
    and "wait_signalled rid s1 = (out, s2)"
  shows "done1 \<and>
    (\<forall>resp' oid' now'. notify_completion rid resp' oid' now' s1 = (True, s1)) \<and>
    (\<forall>k. k \<noteq> rid \<longrightarrow> get_request_status s1 k = get_request_status s k \<and> results s1 k = results s k) \<and>
    (\<exists>r. out = Inr r \<and> rs_request_id r = rid \<and> rs_api_response r = resp \<and> rs_order_id r = oid \<and>
         rs_final_status r = (if ar_success resp then COMPLETED else ERROR)) \<and>
    (\<forall>timeout now'. wait_begin rid timeout now' s2 =
       Inl (ValueError [Txt ''Request '', Txt rid, Txt '' not found''])) \<and>
    (\<forall>resp' oid' now'. notify_completion rid resp' oid' now' s2 = (False, s2))"
proof -
  have ok: "coord_ok cfg s" using assms(1) by (rule reachable_ok)
  have p: "rid \<in> set (pending s)" "objects s rid = Some p"
    using assms(2) by (simp_all add: get_request_status_Some)
  have na: "\<not> is_terminal (pq_status p)" using assms(3) by (simp add: active_not_terminal)
  let ?r = "completion_result rid resp oid ((now - registered_at p) * 1000)"
  have s1: "done1" "s1 = settle rid (p\<lparr>pq_order_id := oid\<rparr>) ?r s"
    using assms(4) na by (simp_all add: notify_completion_def assms(2))
  have t: "is_terminal (rs_final_status ?r)" by (simp add: completion_result_def is_terminal_def)
  have s2: "out = Inr ?r" "pending s2 = remove1 rid (pending s)"
    using assms(5) p by (auto simp: wait_signalled_def s1)
  have gone: "get_request_status s2 rid = None"
    using coord_okD(2) [OF ok] by (simp add: get_request_status_def s2)
  show ?thesis
  proof (intro conjI allI impI)
    fix resp' oid' now'
    show "notify_completion rid resp' oid' now' s1 = (True, s1)"
      using p t by (simp add: notify_completion_def get_request_status_def s1)
    show "notify_completion rid resp' oid' now' s2 = (False, s2)"
      by (simp add: notify_completion_def gone)
  next
    fix k
    assume "k \<noteq> rid"
    then show "get_request_status s1 k = get_request_status s k" and "results s1 k = results s k"
      by (simp_all add: s1 get_request_status_def)
  next
    show "\<exists>r. out = Inr r \<and> rs_request_id r = rid \<and> rs_api_response r = resp \<and> rs_order_id r = oid \<and>
         rs_final_status r = (if ar_success resp then COMPLETED else ERROR)"
      by (simp add: s2 completion_result_def)
  next
    fix timeout now'
    show "wait_begin rid timeout now' s2 = Inl (ValueError [Txt ''Request '', Txt rid, Txt '' not found''])"
      by (simp add: wait_begin_def gone)
  qed (simp add: s1)
qed

definition demo_notified :: coordinator where
  "demo_notified = snd (notify_completion demo_id (success_response demo_id (Some ''o1'') None) (Some ''o1'') 1 demo_coord)"

theorem first_notification_wins_witness:
  "\<exists>r. fst (wait_signalled demo_id demo_notified) = Inr r \<and>
       rs_api_response r = success_response demo_id (Some ''o1'') None"
  using first_notification_wins [OF demo_reachable demo_status, of "success_response demo_id (Some ''o1'') None"
      "Some ''o1''" 1 "fst (notify_completion demo_id (success_response demo_id (Some ''o1'') None) (Some ''o1'') 1 demo_coord)"
      demo_notified "fst (wait_signalled demo_id demo_notified)" "snd (wait_signalled demo_id demo_notified)"]
  by (auto simp: is_active_def demo_notified_def)

section \<open>Cleanup\<close>

definition due :: "rat \<Rightarrow> (string \<Rightarrow> rat) \<Rightarrow> coordinator \<Rightarrow> string \<Rightarrow> bool" where
  "due now seen s rid \<longleftrightarrow>
     (case objects s rid of
        None \<Rightarrow> False
      | Some p \<Rightarrow> is_expired p (seen rid) \<or> should_clean_completed_request (config s) p now)"

lemma due_cong: "objects s k = objects t k \<Longrightarrow> config s = config t \<Longrightarrow> due now seen s k = due now seen t k"
  by (simp add: due_def cong: option.case_cong)

lemma handle_expired_frame:
  "k \<noteq> rid \<Longrightarrow> objects (handle_expired_request rid p t s) k = objects s k \<and>
     results (handle_expired_request rid p t s) k = results s k"
  by (simp add: handle_expired_request_def)

lemma cleanup_scan_spec:
  assumes "distinct rids" and "cleanup_scan now seen stamp rids s = (gone, s')"
  shows "gone = filter (due now seen s) rids \<and>
    (\<forall>k. k \<notin> set rids \<or> \<not> due now seen s k \<longrightarrow> objects s' k = objects s k \<and> results s' k = results s k)"
  using assms
proof (induction rids arbitrary: s gone)
  case (Cons rid rids)
  show ?case
  proof (cases "objects s rid")
    case None
    then show ?thesis
      using Cons.IH [of s gone] Cons.prems by (auto simp: due_def)
  next
    case (Some p)
    show ?thesis
    proof (cases "is_expired p (seen rid)")
      case True
      let ?t = "handle_expired_request rid p (stamp rid) s"
      obtain rest where r: "cleanup_scan now seen stamp rids ?t = (rest, s')" "gone = rid # rest"
        using Cons.prems(2) Some True by (auto split: prod.splits)
      have same: "due now seen ?t k = due now seen s k" if "k \<noteq> rid" for k
        using handle_expired_frame [OF that] by (intro due_cong) simp_all
      have "filter (due now seen ?t) rids = filter (due now seen s) rids"
        using Cons.prems(1) by (intro filter_cong refl same) auto
      moreover have "due now seen s rid" using Some True by (simp add: due_def)
      moreover have "objects s' k = objects s k \<and> results s' k = results s k"
        if k: "k \<notin> set (rid # rids) \<or> \<not> due now seen s k" for k
      proof -
        have "k \<noteq> rid" using k \<open>due now seen s rid\<close> by auto
        then show ?thesis
          using Cons.IH [of ?t rest] Cons.prems(1) r(1) k same [of k] handle_expired_frame [of k rid p "stamp rid" s]
          by auto
      qed
      ultimately show ?thesis
        using Cons.IH [of ?t rest] Cons.prems(1) r by simp
    next
      case False
      then show ?thesis
        using Cons.IH [of s] Cons.prems Some
        by (auto simp: due_def split: prod.splits if_splits)
    qed
  qed
qed simp

text \<open>The requests to be removed have their event set when the scan is over.\<close>

lemma cleanup_scan_signals:
  assumes "coord_ok cfg s" and "set rids \<subseteq> set (pending s)" and "distinct rids"
    and "cleanup_scan now seen stamp rids s = (gone, s')" and "k \<in> set gone"
  shows "\<exists>p. objects s' k = Some p \<and> completion_event p"
  using assms
proof (induction rids arbitrary: s gone)
  case (Cons rid rids)
  obtain p where p: "objects s rid = Some p" "agrees p (results s rid)"
    using coord_okD(3) [OF Cons.prems(1), of rid] Cons.prems(2) by auto
  let ?t = "(if is_expired p (seen rid) then handle_expired_request rid p (stamp rid) s else s)"
  have t: "coord_ok cfg ?t" "set rids \<subseteq> set (pending ?t)"
    using Cons.prems(1,2) p by (auto intro: handle_expired_ok)
  obtain rest where r: "cleanup_scan now seen stamp rids ?t = (rest, s')" "set gone \<subseteq> insert rid (set rest)"
    "k = rid \<longrightarrow> k \<notin> set rest \<longrightarrow> is_expired p (seen rid) \<or> should_clean_completed_request (config s) p now"
    using Cons.prems(4,5) p by (auto split: prod.splits if_splits)
  show ?case
  proof (cases "k \<in> set rest")
    case True
    then show ?thesis using Cons.IH [OF t _ r(1)] Cons.prems(3) by simp
  next
    case False
    then have k: "k = rid" using r(2) Cons.prems(5) by auto
    have "objects s' rid = objects ?t rid"
      using cleanup_scan_spec [OF _ r(1)] Cons.prems(3) by auto
    moreover have "\<exists>p. objects ?t rid = Some p \<and> completion_event p"
      using r(3) k False p
      by (auto simp: handle_expired_request_def should_clean_completed_request_def agrees_def is_terminal_def)
    ultimately show ?thesis by (simp add: k)
  qed
qed simp

lemma remove_requests:
  "distinct (pending s) \<Longrightarrow>
   pending (fold remove_request rids s) = filter (\<lambda>k. k \<notin> set rids) (pending s) \<and>
   objects (fold remove_request rids s) = objects s \<and>
   results (fold remove_request rids s) = (\<lambda>k. if k \<in> set rids then None else results s k)"
proof (induction rids arbitrary: s)
  case (Cons rid rids)
  have "pending (remove_request rid s) = filter (\<lambda>k. k \<noteq> rid) (pending s)"
    using Cons.prems by (simp add: remove_request_def distinct_remove1_removeAll removeAll_filter_not_eq eq_commute)
  then show ?case
    using Cons.IH [of "remove_request rid s"] Cons.prems
    by (auto simp: remove_request_def intro!: filter_cong)
qed auto

text \<open>
  C27: A cleanup removes exactly the requests that are past their deadline or settled for
  longer than the cleanup interval, counts them, and leaves every other request and its
  result as they were. Of a removed request nothing is kept: its event is set but its
  result is gone, so a thread still waiting on it is woken into a RuntimeError and never
  sees the timeout response the cleanup prepared for it, nor a completion it had not yet
  collected.
\<close>

theorem cleanup_exact:
  assumes "coord_reachable cfg (s, ws)" and "cleanup_completed_requests now seen stamp s = (n, s')"
  shows "pending s' = filter (\<lambda>rid. \<not> due now seen s rid) (pending s) \<and>
    n = length (filter (due now seen s) (pending s)) \<and>
    (\<forall>rid \<in> set (pending s'). objects s' rid = objects s rid \<and> results s' rid = results s rid) \<and>
    (\<forall>rid \<in> set (pending s). due now seen s rid \<longrightarrow>
       (\<exists>p. objects s' rid = Some p \<and> completion_event p) \<and>
       wait_signalled rid s' =
         (Inl (RuntimeError [Txt ''No result found for completed request '', Txt rid]), s'))"
proof -
  have ok: "coord_ok cfg s" using assms(1) by (rule reachable_ok)
  have d: "distinct (pending s)" using coord_okD(2) [OF ok] .
  obtain gone t where scan: "cleanup_scan now seen stamp (pending s) s = (gone, t)" by fastforce
  have spec: "gone = filter (due now seen s) (pending s)"
    "\<And>k. k \<notin> set (pending s) \<or> \<not> due now seen s k \<Longrightarrow> objects t k = objects s k \<and> results t k = results s k"
    using cleanup_scan_spec [OF d scan] by auto
  have pt: "pending t = pending s"
    using cleanup_scan_ok [OF ok order_refl, of now seen stamp] scan by simp
  have s': "s' = fold remove_request gone t" "n = length gone"
    using assms(2) scan by (simp_all add: cleanup_completed_requests_def)
  have rm: "pending s' = filter (\<lambda>k. k \<notin> set gone) (pending s)" "objects s' = objects t"
    "results s' = (\<lambda>k. if k \<in> set gone then None else results t k)"
    using remove_requests [of t gone] d by (simp_all add: s' pt)
  have sig: "\<exists>p. objects t k = Some p \<and> completion_event p" if "k \<in> set gone" for k
    using cleanup_scan_signals [OF ok order_refl d scan that] .
  have "filter (\<lambda>k. k \<notin> set gone) (pending s) = filter (\<lambda>rid. \<not> due now seen s rid) (pending s)"
    by (rule filter_cong) (auto simp: spec(1))
  then show ?thesis
    using spec sig by (auto simp: rm s'(2) wait_signalled_def)
qed

theorem cleanup_exact_witness:
  "pending (snd (cleanup_completed_requests 9 (\<lambda>_. 9) (\<lambda>_. 9) demo_coord)) = [] \<and>
   fst (cleanup_completed_requests 9 (\<lambda>_. 9) (\<lambda>_. 9) demo_coord) = 1"
  using cleanup_exact [OF demo_reachable, of 9 "\<lambda>_. 9" "\<lambda>_. 9"
      "fst (cleanup_completed_requests 9 (\<lambda>_. 9) (\<lambda>_. 9) demo_coord)"
      "snd (cleanup_completed_requests 9 (\<lambda>_. 9) (\<lambda>_. 9) demo_coord)"]
  by (simp add: demo_coord_eq due_def put_object_def is_expired_def)

section \<open>Shutdown\<close>

lemma shutdown_one_frame:
  "k \<noteq> rid \<Longrightarrow> objects (shutdown_one stamp rid s) k = objects s k \<and>
     results (shutdown_one stamp rid s) k = results s k"
  by (auto simp: shutdown_one_def split: option.split)

lemma shutdown_fold_frame:
  "k \<notin> set rids \<Longrightarrow> objects (fold (shutdown_one stamp) rids s) k = objects s k \<and>
     results (fold (shutdown_one stamp) rids s) k = results s k"
  by (induction rids arbitrary: s) (simp_all add: shutdown_one_frame)

lemma shutdown_fold_at:
  assumes "distinct rids" and "rid \<in> set rids" and "objects s rid = Some p"
  shows "results (fold (shutdown_one stamp) rids s) rid =
      (if is_terminal (pq_status p) then results s rid else Some (shutdown_result p (stamp rid)))"
  using assms
proof (induction rids arbitrary: s)
  case (Cons k rids)
  show ?case
  proof (cases "k = rid")
    case True
    then have "results (fold (shutdown_one stamp) (k # rids) s) rid = results (shutdown_one stamp rid s) rid"
      using shutdown_fold_frame [of rid rids stamp "shutdown_one stamp rid s"] Cons.prems(1) by simp
    moreover have "results (shutdown_one stamp rid s) rid =
        (if is_terminal (pq_status p) then results s rid else Some (shutdown_result p (stamp rid)))"
      using Cons.prems(3) by (simp add: shutdown_one_def)
    ultimately show ?thesis by simp
  next
    case False
    then show ?thesis
      using Cons.IH [of "shutdown_one stamp k s"] Cons.prems shutdown_one_frame [of rid k stamp s] by simp
  qed
qed simp

lemma shutdown_fold_flags [simp]:
  "is_shutdown (fold (shutdown_one stamp) rids s) = is_shutdown s"
  by (induction rids arbitrary: s) (auto simp: shutdown_one_def split: option.split)

text \<open>
  A shutdown runs in two locked blocks. After the first one no request can be
  registered any more and every active request has a SERVICE_SHUTDOWN response that its
  waiter receives if it runs now, a settled one keeps its result; after the second block
  every waiter that has not run yet, whatever it was to receive, gets a RuntimeError
  instead.
\<close>

theorem shutdown_two_blocks:
  assumes "coord_reachable cfg (s, ws)" and "get_request_status s rid = Some p"
    and "shutdown_signal stamp s = s1"
  shows "(\<forall>team timeout ns t1 t2. register_request team timeout ns t1 t2 s1 =
      (Inl (RuntimeError (lit ''Coordinator is shutting down'')), s1)) \<and>
    fst (wait_signalled rid s1) =
      (if is_terminal (pq_status p) then fst (wait_signalled rid s) else Inr (shutdown_result p (stamp rid))) \<and>
    ar_error (rs_api_response (shutdown_result p (stamp rid))) =
      Some \<lparr>ae_code = ''SERVICE_SHUTDOWN'', ae_message = lit ''Service shutting down'', ae_details = None\<rparr> \<and>
    (\<exists>q. objects (shutdown_clear (shutdown_wake_cleanup s1)) rid = Some q \<and> completion_event q) \<and>
    fst (wait_signalled rid (shutdown_clear (shutdown_wake_cleanup s1))) =
      Inl (RuntimeError [Txt ''No result found for completed request '', Txt rid])"
proof -
  have ok: "coord_ok cfg s" using assms(1) by (rule reachable_ok)
  have p: "rid \<in> set (pending s)" "objects s rid = Some p"
    using assms(2) by (simp_all add: get_request_status_Some)
  have s1: "s1 = fold (shutdown_one stamp) (pending s) (s\<lparr>is_shutdown := True\<rparr>)"
    using assms(3) by (simp add: shutdown_signal_def)
  have pend: "pending s1 = pending s"
    using shutdown_fold_ok [of cfg "s\<lparr>is_shutdown := True\<rparr>" "pending s" stamp] ok by (simp add: s1)
  have ok1: "coord_ok cfg s1" using shutdown_ok(1) [OF ok, of stamp] assms(3) by simp
  have res: "results s1 rid =
      (if is_terminal (pq_status p) then results s rid else Some (shutdown_result p (stamp rid)))"
    using shutdown_fold_at [OF coord_okD(2) [OF ok] p(1), of "s\<lparr>is_shutdown := True\<rparr>" p stamp] p
    by (simp add: s1)
  have some: "results s1 rid \<noteq> None"
    using res status_agrees(2) [OF ok assms(2)] by (auto simp: agrees_def)
  obtain q where q: "objects s1 rid = Some q" "completion_event q"
    using coord_okD(3) [OF ok1, of rid] p(1) some by (auto simp: pend agrees_def)
  have "is_shutdown s1" by (simp add: s1)
  then show ?thesis
    using res q p(1)
    by (auto simp: register_request_def wait_signalled_def pend shutdown_clear_def shutdown_wake_cleanup_def
        shutdown_result_def split: option.splits)
qed

theorem shutdown_two_blocks_witness:
  "fst (wait_signalled demo_id (shutdown (\<lambda>_. 2) demo_coord)) =
     Inl (RuntimeError [Txt ''No result found for completed request '', Txt demo_id])"
  using shutdown_two_blocks [OF demo_reachable demo_status refl, of "\<lambda>_. 2"] by (simp add: shutdown_def)

section \<open>Late completions\<close>

inductive coord_runs :: "coord_system \<Rightarrow> coord_event list \<Rightarrow> coord_system \<Rightarrow> bool" where
  runs_nil: "coord_runs sys [] sys"
| runs_cons: "coord_step sys ev sys' \<Longrightarrow> coord_runs sys' evs sys'' \<Longrightarrow> coord_runs sys (ev # evs) sys''"

text \<open>A result whose request has left the table.\<close>

definition orphan :: "string \<Rightarrow> response_result \<Rightarrow> coordinator \<Rightarrow> bool" where
  "orphan rid c s \<longleftrightarrow> results s rid = Some c \<and> rid \<notin> set (pending s)"

lemma orphan_register:
  assumes "coord_ok cfg s" and "orphan rid c s"
  shows "orphan rid c (snd (register_request team timeout ns t1 t2 s))"
proof -
  have "issued (request_id_prefix (config s)) (request_counter s) rid"
    using coord_okD(4,5) [OF assms(1), of rid] assms(2) coord_okD(1) [OF assms(1)]
    by (fastforce simp: orphan_def)
  then have "rid \<noteq> make_request_id (request_id_prefix (config s)) ns (request_counter s + 1)"
    using next_id_fresh by metis
  then show ?thesis
    using assms(2) by (auto simp: register_request_def orphan_def put_object_def Let_def)
qed

lemma orphan_wait:
  "orphan rid c s \<Longrightarrow> orphan rid c (snd (wait_signalled k s))"
  "orphan rid c s \<Longrightarrow> orphan rid c (wait_timed_out k s)"
  by (auto simp: orphan_def wait_signalled_def wait_timed_out_def dest: notin_set_remove1 split: option.split)

lemma orphan_notify:
  "orphan rid c s \<Longrightarrow> orphan rid c (snd (notify_completion k resp oid now s))"
  "orphan rid c s \<Longrightarrow> orphan rid c (snd (update_status k st details s))"
  by (auto simp: orphan_def notify_completion_def update_status_def get_request_status_def put_object_def
      split: option.split)

lemma orphan_cleanup:
  assumes "coord_ok cfg s" and "orphan rid c s"
  shows "orphan rid c (snd (cleanup_completed_requests now seen stamp s))"
proof -
  have d: "distinct (pending s)" using coord_okD(2) [OF assms(1)] .
  obtain gone t where scan: "cleanup_scan now seen stamp (pending s) s = (gone, t)" by fastforce
  have "pending t = pending s"
    using cleanup_scan_ok [OF assms(1) order_refl, of now seen stamp] scan by simp
  moreover have "results t rid = results s rid" and "rid \<notin> set gone"
    using cleanup_scan_spec [OF d scan] assms(2) by (auto simp: orphan_def)
  ultimately show ?thesis
    using remove_requests [of t gone] d assms(2)
    by (simp add: cleanup_completed_requests_def scan orphan_def)
qed

lemma orphan_shutdown:
  assumes "coord_ok cfg s" and "orphan rid c s"
  shows "orphan rid c (shutdown_signal stamp s)"
  using shutdown_fold_ok [of cfg "s\<lparr>is_shutdown := True\<rparr>" "pending s" stamp] assms
    shutdown_fold_frame [of rid "pending s" stamp "s\<lparr>is_shutdown := True\<rparr>"]
  by (simp add: shutdown_signal_def orphan_def)

lemma orphan_step:
  assumes "coord_step sys ev sys'" and "ev \<noteq> ShutdownClear" and "coord_ok cfg (fst sys)" and "orphan rid c (fst sys)"
  shows "orphan rid c (fst sys')"
  using assms
proof (induction rule: coord_step.induct)
  case (Wake_step ws tid k t s p out s')
  then show ?case using orphan_wait(1) [of rid c s k] by simp
next
  case (ShutdownWake_step s ws)
  then show ?case by (simp add: orphan_def shutdown_wake_cleanup_def)
qed (auto simp: orphan_register orphan_wait orphan_notify orphan_cleanup orphan_shutdown)

lemma orphan_runs:
  assumes "coord_runs sys evs sys'" and "coord_ok cfg (fst sys)" and "\<forall>ev \<in> set evs. proper_event ev"
    and "ShutdownClear \<notin> set evs" and "orphan rid c (fst sys)"
  shows "orphan rid c (fst sys')"
  using assms by (induction rule: coord_runs.induct) (auto intro: coord_step_ok orphan_step)

text \<open>
  A completion that arrives between the moment a waiter's timed wait ends and the
  moment it takes the lock is accepted and lost: the waiter returns its timeout response,
  and the stored result stays in the coordinator through everything that can happen short
  of the end of a shutdown, because only requests in the table are ever cleaned up.
\<close>

theorem late_completion_leaks:
  assumes "coord_reachable cfg (s, ws)" and "ws tid = Some (Expired rid r)" and "results s rid = Some c"
    and "coord_step (s, ws) (Drop tid) (s1, ws1)"
    and "coord_runs (s1, ws1) evs (s2, ws2)" and "\<forall>ev \<in> set evs. proper_event ev"
    and "ShutdownClear \<notin> set evs"
  shows "ws1 tid = Some (Returned (Inr r)) \<and> results s2 rid = Some c \<and> rid \<notin> set (pending s2)"
proof -
  have ok: "coord_ok cfg s" using assms(1) by (rule reachable_ok)
  have "s1 = wait_timed_out rid s \<and> ws1 tid = Some (Returned (Inr r))"
    using assms(4,2) by (auto elim: coord_stepE)
  then have s1: "s1 = wait_timed_out rid s" "ws1 tid = Some (Returned (Inr r))" by simp_all
  have "orphan rid c s1"
    using assms(3) coord_okD(2) [OF ok] by (auto simp: s1 orphan_def wait_timed_out_def)
  moreover have "coord_ok cfg (fst (s1, ws1))"
    using wait_timed_out_ok [OF ok, of rid] s1(1) by simp
  ultimately have "orphan rid c (fst (s2, ws2))"
    using orphan_runs [OF assms(5) _ assms(6,7)] by simp
  then show ?thesis using s1 by (simp add: orphan_def)
qed

definition demo_late :: coord_system where
  "demo_late = (demo_notified, [1 \<mapsto> Expired demo_id (timeout_result demo_id 5 5000 (the (get_request_status demo_coord demo_id)))])"

lemma demo_late_reachable: "coord_reachable default_config demo_late"
proof -
  let ?p = "the (get_request_status demo_coord demo_id)"
  have 1: "coord_step (demo_coord, Map.empty) (WaitBegin 1 demo_id (Some 5) 0) (demo_coord, [1 \<mapsto> Waiting demo_id 5])"
    by (rule Wait_step) (simp_all add: wait_begin_def demo_status)
  have 2: "coord_step (demo_coord, [1 \<mapsto> Waiting demo_id 5]) (GiveUp 1 5000)
      (demo_coord, [1 \<mapsto> Waiting demo_id 5, 1 \<mapsto> Expired demo_id (timeout_result demo_id 5 5000 ?p)])"
    by (rule GiveUp_step) (use demo_status in \<open>simp_all add: get_request_status_def split: if_splits\<close>)
  have 3: "coord_step (demo_coord, [1 \<mapsto> Expired demo_id (timeout_result demo_id 5 5000 ?p)])
      (Notify demo_id (success_response demo_id (Some ''o1'') None) (Some ''o1'') 1) demo_late"
    unfolding demo_late_def demo_notified_def by (rule Notify_step)
  have proper: "proper_event (WaitBegin 1 demo_id (Some 5) 0)" "proper_event (GiveUp 1 5000)"
    "proper_event (Notify demo_id (success_response demo_id (Some ''o1'') None) (Some ''o1'') 1)"
    by simp_all
  note r1 = coord_reachable.step [OF demo_reachable proper(1) 1]
  note r2 = coord_reachable.step [OF r1 proper(2) 2, unfolded fun_upd_upd]
  show ?thesis using coord_reachable.step [OF r2 proper(3) 3] .
qed

theorem late_completion_leaks_witness:
  "\<exists>c. results (wait_timed_out demo_id demo_notified) demo_id = Some c"
proof -
  obtain c where c: "results demo_notified demo_id = Some c"
    by (auto simp: demo_notified_def notify_completion_def demo_status is_terminal_def)
  show ?thesis
    using late_completion_leaks [OF demo_late_reachable [unfolded demo_late_def] _ c Drop_step runs_nil, of 1]
    by auto
qed

section \<open>Terminal status updates\<close>

text \<open>
  Setting a terminal status through update_status settles nothing: the event stays
  clear and no result is stored, yet every later completion is reported as delivered and
  dropped, so the waiting thread can only time out.
\<close>

theorem terminal_update_drops_response:
  assumes "coord_reachable cfg (s, ws)" and "get_request_status s rid = Some p"
    and "is_active (pq_status p)" and "is_terminal st"
  shows "fst (update_status rid st details s) \<and>
    (\<forall>resp oid now. notify_completion rid resp oid now (snd (update_status rid st details s)) =
       (True, snd (update_status rid st details s))) \<and>
    (\<exists>q. get_request_status (snd (update_status rid st details s)) rid = Some q \<and>
       pq_status q = st \<and> \<not> completion_event q) \<and>
    results (snd (update_status rid st details s)) rid = None"
proof -
  have ok: "coord_ok cfg s" using assms(1) by (rule reachable_ok)
  have "agrees p (results s rid)" using status_agrees(2) [OF ok assms(2)] .
  then have "\<not> completion_event p" "results s rid = None" "\<not> is_terminal (pq_status p)"
    using assms(3) by (auto simp: agrees_def active_not_terminal)
  then show ?thesis
    using assms(2,4)
    by (auto simp: update_status_def notify_completion_def get_request_status_def put_object_def split: if_splits)
qed

theorem terminal_update_drops_response_witness:
  "fst (notify_completion demo_id (success_response demo_id None None) None 1
     (snd (update_status demo_id COMPLETED None demo_coord)))"
  using terminal_update_drops_response [OF demo_reachable demo_status, of COMPLETED None]
  by (simp add: is_active_def is_terminal_def)

section \<open>Progress\<close>

lemma objects_kept:
  assumes "coord_step sys ev sys'" and "proper_event ev" and "coord_ok cfg (fst sys)"
    and "objects (fst sys) rid \<noteq> None"
  shows "objects (fst sys') rid \<noteq> None"
proof -
  have fold_shutdown: "objects (fold (shutdown_one stamp) rids s) rid \<noteq> None" if "objects s rid \<noteq> None" for stamp rids s
    using that by (induction rids arbitrary: s) (auto simp: shutdown_one_def split: option.split)
  have scan: "objects (snd (cleanup_scan now seen stamp rids s)) rid \<noteq> None" if "objects s rid \<noteq> None" for now seen stamp rids s
    using that
    by (induction now seen stamp rids s rule: cleanup_scan.induct)
       (auto simp: handle_expired_request_def case_prod_beta split: option.splits)
  have rem: "objects (fold remove_request rids s) = objects s" for rids s
    by (induction rids arbitrary: s) (simp_all add: remove_request_def)
  show ?thesis
    using assms
  proof (induction rule: coord_step.induct)
    case (Register_step team timeout ns t1 t2 s s' ws)
    then show ?case by (auto simp: register_request_def Let_def put_object_def)
  next
    case (Wake_step ws tid k t s p out s')
    then show ?case by (auto simp: wait_signalled_def split: option.splits if_splits)
  next
    case (Cleanup_step s ws now seen stamp)
    then show ?case
      using scan [of s now seen stamp "pending s"] by (simp add: cleanup_completed_requests_def case_prod_beta rem)
  next
    case (Signal_step s ws stamp)
    then show ?case using fold_shutdown [of "s\<lparr>is_shutdown := True\<rparr>"] by (simp add: shutdown_signal_def)
  qed (auto simp: wait_timed_out_def notify_completion_def update_status_def put_object_def
      shutdown_wake_cleanup_def shutdown_clear_def split: option.splits)
qed

lemma waiters_have_objects:
  "coord_reachable cfg sys \<Longrightarrow> snd sys tid = Some (Waiting rid t) \<Longrightarrow> objects (fst sys) rid \<noteq> None"
proof (induction arbitrary: rid t rule: coord_reachable.induct)
  case (step sys ev sys')
  have kept: "objects (fst sys) k \<noteq> None \<Longrightarrow> objects (fst sys') k \<noteq> None" for k
    using objects_kept [OF step.hyps(3,2)] coord_reachable_ok [OF step.hyps(1)] by blast
  show ?case
  proof (cases "snd sys tid = Some (Waiting rid t)")
    case True
    then show ?thesis using step.IH kept by blast
  next
    case False
    with step.hyps(3) step.prems show ?thesis
      by (cases rule: coord_step.cases)
         (auto simp: wait_begin_def get_request_status_Some split: option.splits if_splits)
  qed
qed (simp add: new_coordinator_def)



end
