(* ===== verification/Ws_Messages.thy ===== *)
theory Ws_Messages
  imports Core_Models
begin

text \<open>
  \<open>infrastructure/messaging/websocket_messages.py\<close>: the message types and the builders of
  the data part of every message. The data are Python dicts with string keys and values of
  several types; every text is an f-string value (\<open>msg\<close>), every timestamp is the one
  constant \<open>VNow\<close>, because all callers let the builder read the clock, and every trade id,
  a random uuid, is \<open>VUuid\<close>.
\<close>

datatype ws_value =
    VNone
  | VStr msg
  | VNum rat
  | VNow
  | VUuid
  | VPositions "(string, rat) dict"
  | VTrade trade

type_synonym ws_data = "(string, ws_value) dict"

abbreviation vstr :: "string \<Rightarrow> ws_value" where
  "vstr s \<equiv> VStr (lit s)"

definition vopt :: "('a \<Rightarrow> ws_value) \<Rightarrow> 'a option \<Rightarrow> ws_value" where
  "vopt f x = (case x of None \<Rightarrow> VNone | Some y \<Rightarrow> f y)"

text \<open>Truth value testing; a text is empty when all its pieces are.\<close>

fun ws_truthy :: "ws_value \<Rightarrow> bool" where
  "ws_truthy VNone \<longleftrightarrow> False"
| "ws_truthy (VStr m) \<longleftrightarrow> (\<exists>p \<in> set m. p \<noteq> Txt '''')"
| "ws_truthy (VNum q) \<longleftrightarrow> q \<noteq> 0"
| "ws_truthy VNow \<longleftrightarrow> True"
| "ws_truthy VUuid \<longleftrightarrow> True"
| "ws_truthy (VPositions d) \<longleftrightarrow> d \<noteq> []"
| "ws_truthy (VTrade t) \<longleftrightarrow> True"

datatype message_type =
    NEW_ORDER_ACK | NEW_ORDER_REJECT | EXECUTION_REPORT | CANCEL_ACK | CANCEL_REJECT
  | QUOTE_ACK | QUOTE_REJECT | POSITION_SNAPSHOT | MARKET_DATA | SIGNAL | EVENT
  | CONNECTION_STATUS

fun message_value :: "message_type \<Rightarrow> string" where
  "message_value NEW_ORDER_ACK = ''new_order_ack''"
| "message_value NEW_ORDER_REJECT = ''new_order_reject''"
| "message_value EXECUTION_REPORT = ''execution_report''"
| "message_value CANCEL_ACK = ''cancel_ack''"
| "message_value CANCEL_REJECT = ''cancel_reject''"
| "message_value QUOTE_ACK = ''quote_ack''"
| "message_value QUOTE_REJECT = ''quote_reject''"
| "message_value POSITION_SNAPSHOT = ''position_snapshot''"
| "message_value MARKET_DATA = ''market_data''"
| "message_value SIGNAL = ''signal''"
| "message_value EVENT = ''event''"
| "message_value CONNECTION_STATUS = ''connection_status''"

lemma message_value_inject [simp]: "message_value a = message_value b \<longleftrightarrow> a = b"
  by (cases a; cases b) simp_all

definition if_given :: "bool \<Rightarrow> string \<Rightarrow> ws_value \<Rightarrow> ws_data" where
  "if_given c k v = (if c then [(k, v)] else [])"

definition build_new_order_ack ::
    "ws_value \<Rightarrow> ws_value \<Rightarrow> ws_value \<Rightarrow> ws_value \<Rightarrow> ws_value \<Rightarrow> ws_value \<Rightarrow> ws_value \<Rightarrow> ws_data" where
  "build_new_order_ack oid cid iid sd q ty pr =
     [(''order_id'', oid), (''instrument_id'', iid), (''side'', sd), (''quantity'', q),
      (''order_type'', ty), (''status'', vstr ''new''), (''timestamp'', VNow)]
     @ if_given (ws_truthy cid) ''client_order_id'' cid @ if_given (pr \<noteq> VNone) ''price'' pr"

definition build_new_order_reject :: "ws_value \<Rightarrow> ws_value \<Rightarrow> ws_value \<Rightarrow> ws_value \<Rightarrow> ws_data" where
  "build_new_order_reject oid cid reason code =
     [(''order_id'', oid), (''status'', vstr ''rejected''), (''reason'', reason), (''timestamp'', VNow)]
     @ if_given (ws_truthy cid) ''client_order_id'' cid @ if_given (ws_truthy code) ''error_code'' code"

definition build_execution_report ::
    "ws_value \<Rightarrow> ws_value \<Rightarrow> ws_value \<Rightarrow> ws_value \<Rightarrow> ws_value \<Rightarrow> ws_value \<Rightarrow> ws_value \<Rightarrow> ws_value \<Rightarrow>
     ws_value \<Rightarrow> liquidity_type \<Rightarrow> ws_value \<Rightarrow> ws_data" where
  "build_execution_report oid cid tid iid sd q pr rem st l fees =
     [(''order_id'', oid), (''trade_id'', tid), (''instrument_id'', iid), (''side'', sd),
      (''executed_quantity'', q), (''executed_price'', pr), (''remaining_quantity'', rem),
      (''order_status'', st), (''liquidity_type'', vstr (liquidity_value l)), (''fees'', fees),
      (''timestamp'', VNow)]
     @ if_given (ws_truthy cid) ''client_order_id'' cid"

definition build_cancel_ack :: "ws_value \<Rightarrow> ws_value \<Rightarrow> ws_value \<Rightarrow> ws_value \<Rightarrow> ws_data" where
  "build_cancel_ack oid cid q reason =
     [(''order_id'', oid), (''status'', vstr ''cancelled''), (''cancelled_quantity'', q),
      (''reason'', reason), (''timestamp'', VNow)]
     @ if_given (ws_truthy cid) ''client_order_id'' cid"

definition build_cancel_reject :: "ws_value \<Rightarrow> ws_value \<Rightarrow> ws_value \<Rightarrow> ws_data" where
  "build_cancel_reject oid cid reason =
     [(''order_id'', oid), (''status'', vstr ''cancel_rejected''), (''reason'', reason), (''timestamp'', VNow)]
     @ if_given (ws_truthy cid) ''client_order_id'' cid"

definition build_quote_ack :: "ws_value \<Rightarrow> ws_value \<Rightarrow> ws_value \<Rightarrow> ws_value \<Rightarrow> ws_data" where
  "build_quote_ack iid bid ask size1 =
     [(''instrument_id'', iid), (''bid_price'', bid), (''ask_price'', ask), (''size'', size1),
      (''status'', vstr ''active''), (''timestamp'', VNow)]"

definition build_quote_reject :: "ws_value \<Rightarrow> ws_value \<Rightarrow> ws_data" where
  "build_quote_reject iid reason =
     [(''instrument_id'', iid), (''reason'', reason), (''timestamp'', VNow)]"

definition build_position_snapshot :: "ws_value \<Rightarrow> ws_data" where
  "build_position_snapshot ps = [(''positions'', ps), (''timestamp'', VNow)]"

definition build_market_data ::
    "ws_value \<Rightarrow> ws_value \<Rightarrow> ws_value \<Rightarrow> ws_value \<Rightarrow> ws_value \<Rightarrow> ws_value \<Rightarrow> ws_data" where
  "build_market_data iid bid ask last1 bid_size ask_size =
     [(''instrument_id'', iid), (''timestamp'', VNow)]
     @ if_given (bid \<noteq> VNone) ''bid'' bid @ if_given (ask \<noteq> VNone) ''ask'' ask
     @ if_given (last1 \<noteq> VNone) ''last'' last1
     @ if_given (bid_size \<noteq> VNone) ''bid_size'' bid_size @ if_given (ask_size \<noteq> VNone) ''ask_size'' ask_size"

definition build_connection_status :: "ws_value \<Rightarrow> ws_value \<Rightarrow> ws_data" where
  "build_connection_status st message =
     [(''status'', st), (''message'', message), (''timestamp'', VNow)]"

text \<open>\<open>Trade.to_dict\<close>; it keeps everything the trade's model has.\<close>

definition trade_to_dict :: "trade \<Rightarrow> ws_data" where
  "trade_to_dict t =
     [(''trade_id'', VUuid), (''instrument_id'', vstr (t_instrument_id t)), (''buyer_id'', vstr (buyer_id t)),
      (''seller_id'', vstr (seller_id t)), (''price'', VNum (t_price t)), (''quantity'', VNum (t_quantity t)),
      (''aggressor_side'', vstr (aggressor_side t)), (''timestamp'', VNow),
      (''buyer_order_id'', vstr (buyer_order_id t)), (''seller_order_id'', vstr (seller_order_id t)),
      (''value'', VNum (trade_value t))]"

lemma trade_to_dict_inject: "trade_to_dict t = trade_to_dict t' \<longleftrightarrow> t = t'"
  by (cases t; cases t') (auto simp: trade_to_dict_def)

end
