(* ===== verification/Ws_Manager.thy ===== *)
theory Ws_Manager
  imports Ws_Messages Positions
begin

text \<open>
  \<open>infrastructure/messaging/websocket_manager.py\<close> and the websocket thread of
  \<open>infrastructure/communication/threads.py\<close>. Sockets are numbers; what the manager sent on
  a socket is its \<open>outbox\<close>. The environment decides whether \<open>accept()\<close> succeeds (a
  parameter) and whether the send of message number \<open>seq\<close> on socket \<open>ws\<close> does (\<open>ok ws seq\<close>).

  The \<open>asyncio.Lock\<close> is not reentrant. An operation that needs it while it is held does not
  return: its outcome is \<open>Blocked\<close>, and the lock stays held.
\<close>

datatype 'a outcome = Finished 'a | Raised exn | Blocked

record ws_message =
  m_seq :: int
  m_type :: string
  m_data :: ws_data

record ws_manager =
  active_connections :: "(string, nat) dict"
  sequence_numbers :: "(string, int) dict"
  ws_team_info :: "(string, team_info) dict"
  lock_held :: bool
  outbox :: "nat \<Rightarrow> ws_message list"
  closed_sockets :: "nat set"

definition new_manager :: ws_manager where
  "new_manager =
     \<lparr>active_connections = [], sequence_numbers = [], ws_team_info = [], lock_held = False,
      outbox = (\<lambda>_. []), closed_sockets = {}\<rparr>"

definition ws_connect :: "nat \<Rightarrow> team_info \<Rightarrow> bool \<Rightarrow> ws_manager \<Rightarrow> bool outcome \<times> ws_manager" where
  "ws_connect ws team accepts m =
     (if lock_held m then (Blocked, m)
      else
        let tid = team_id team;
            m1 = (case map_of (active_connections m) tid of
                    None \<Rightarrow> m
                  | Some old \<Rightarrow> m\<lparr>closed_sockets := insert old (closed_sockets m)\<rparr>)
        in if accepts then
             (Finished True,
              m1\<lparr>active_connections := AList.update tid ws (active_connections m1),
                 sequence_numbers := AList.update tid 0 (sequence_numbers m1),
                 ws_team_info := AList.update tid team (ws_team_info m1)\<rparr>)
           else (Finished False, m1))"

definition ws_disconnect :: "string \<Rightarrow> ws_manager \<Rightarrow> unit outcome \<times> ws_manager" where
  "ws_disconnect tid m =
     (if lock_held m then (Blocked, m)
      else (Finished (),
            m\<lparr>active_connections := AList.delete tid (active_connections m),
              sequence_numbers := AList.delete tid (sequence_numbers m),
              ws_team_info := AList.delete tid (ws_team_info m)\<rparr>))"

text \<open>
  A failing send calls \<open>disconnect\<close> inside the \<open>async with self._lock\<close> block, so with the
  lock held.
\<close>

definition send_to_team ::
    "(nat \<Rightarrow> int \<Rightarrow> bool) \<Rightarrow> string \<Rightarrow> message_type \<Rightarrow> ws_data \<Rightarrow> ws_manager \<Rightarrow> unit outcome \<times> ws_manager" where
  "send_to_team ok tid mt d m =
     (if lock_held m then (Blocked, m)
      else case map_of (active_connections m) tid of
        None \<Rightarrow> (Finished (), m)
      | Some ws \<Rightarrow>
          (case map_of (sequence_numbers m) tid of
             None \<Rightarrow> (Raised (KeyError (lit tid)), m)
           | Some n \<Rightarrow>
               let seq = n + 1;
                   m1 = m\<lparr>sequence_numbers := AList.update tid seq (sequence_numbers m)\<rparr>
               in if ok ws seq then
                    (Finished (),
                     m1\<lparr>outbox := (outbox m1)(ws := outbox m1 ws @
                       [\<lparr>m_seq = seq, m_type = message_value mt, m_data = d\<rparr>])\<rparr>)
                  else ws_disconnect tid (m1\<lparr>lock_held := True\<rparr>)))"

text \<open>Two calls in sequence.\<close>

definition and_next ::
    "unit outcome \<times> ws_manager \<Rightarrow> (ws_manager \<Rightarrow> unit outcome \<times> ws_manager) \<Rightarrow> unit outcome \<times> ws_manager" where
  "and_next r k = (case r of (Finished _, m) \<Rightarrow> k m | (out, m) \<Rightarrow> (out, m))"

fun send_each ::
    "(nat \<Rightarrow> int \<Rightarrow> bool) \<Rightarrow> string list \<Rightarrow> message_type \<Rightarrow> ws_data \<Rightarrow> ws_manager \<Rightarrow> unit outcome \<times> ws_manager" where
  "send_each ok [] mt d m = (Finished (), m)"
| "send_each ok (tid # tids) mt d m = and_next (send_to_team ok tid mt d m) (send_each ok tids mt d)"

section \<open>The broadcast methods\<close>

definition broadcast_new_order_ack where
  "broadcast_new_order_ack ok tid oid cid iid sd q ty pr m =
     send_to_team ok tid NEW_ORDER_ACK (build_new_order_ack oid cid iid sd q ty pr) m"

definition broadcast_new_order_reject where
  "broadcast_new_order_reject ok tid oid cid reason code m =
     send_to_team ok tid NEW_ORDER_REJECT (build_new_order_reject oid cid reason code) m"

definition broadcast_execution_report where
  "broadcast_execution_report ok tid oid cid trid iid sd q pr rem st l fees m =
     send_to_team ok tid EXECUTION_REPORT (build_execution_report oid cid trid iid sd q pr rem st l fees) m"

definition broadcast_cancel_ack where
  "broadcast_cancel_ack ok tid oid cid q reason m =
     send_to_team ok tid CANCEL_ACK (build_cancel_ack oid cid q reason) m"

definition broadcast_cancel_reject where
  "broadcast_cancel_reject ok tid oid cid reason m =
     send_to_team ok tid CANCEL_REJECT (build_cancel_reject oid cid reason) m"

definition send_position_snapshot where
  "send_position_snapshot ok tid ps m =
     send_to_team ok tid POSITION_SNAPSHOT (build_position_snapshot ps) m"

definition send_connection_status where
  "send_connection_status ok tid st message m =
     send_to_team ok tid CONNECTION_STATUS (build_connection_status st message) m"

definition broadcast_quote_ack where
  "broadcast_quote_ack ok tid iid bid ask size1 m =
     send_to_team ok tid QUOTE_ACK (build_quote_ack iid bid ask size1) m"

definition broadcast_quote_reject where
  "broadcast_quote_reject ok tid iid reason m =
     send_to_team ok tid QUOTE_REJECT (build_quote_reject iid reason) m"

definition broadcast_market_data where
  "broadcast_market_data ok iid bid ask last1 bid_size ask_size m =
     send_each ok (dict_keys (active_connections m)) MARKET_DATA
       (build_market_data iid bid ask last1 bid_size ask_size) m"

text \<open>\<open>{k: v, **data}\<close>.\<close>

definition with_entries :: "string \<times> ws_value \<Rightarrow> ws_data \<Rightarrow> ws_data" where
  "with_entries kv d = fold (\<lambda>(k, v) r. AList.update k v r) d [kv]"

text \<open>The role test is evaluated when the loop reaches the team.\<close>

fun signal_each ::
    "(nat \<Rightarrow> int \<Rightarrow> bool) \<Rightarrow> string list \<Rightarrow> string set \<Rightarrow> ws_data \<Rightarrow> ws_manager \<Rightarrow> unit outcome \<times> ws_manager" where
  "signal_each ok [] roles d m = (Finished (), m)"
| "signal_each ok (tid # tids) roles d m =
     (case map_of (ws_team_info m) tid of
        None \<Rightarrow> signal_each ok tids roles d m
      | Some info \<Rightarrow>
          if role info \<in> roles then
            and_next (send_to_team ok tid SIGNAL d m) (signal_each ok tids roles d)
          else signal_each ok tids roles d m)"

definition broadcast_signal where
  "broadcast_signal ok signal_type d roles m =
     signal_each ok (dict_keys (active_connections m)) roles
       (with_entries (''signal_type'', signal_type) d) m"

definition broadcast_event where
  "broadcast_event ok event_type d m =
     send_each ok (dict_keys (active_connections m)) EVENT (with_entries (''event_type'', event_type) d) m"

definition broadcast_trade_execution ::
    "(nat \<Rightarrow> int \<Rightarrow> bool) \<Rightarrow> trade \<Rightarrow> ws_value \<Rightarrow> ws_value \<Rightarrow> ws_value \<Rightarrow> ws_value \<Rightarrow> ws_value \<Rightarrow>
     ws_value \<Rightarrow> ws_value \<Rightarrow> ws_value \<Rightarrow> ws_value \<Rightarrow> ws_value \<Rightarrow> ws_manager \<Rightarrow> unit outcome \<times> ws_manager" where
  "broadcast_trade_execution ok t boid soid bcid scid brem srem bst sst bfees sfees m =
     (let (bl, sl) = (if aggressor_side t = ''buy'' then (TAKER, MAKER) else (MAKER, TAKER)) in
      and_next
        (broadcast_execution_report ok (buyer_id t) boid bcid VUuid (vstr (t_instrument_id t)) (vstr ''buy'')
           (VNum (t_quantity t)) (VNum (t_price t)) brem bst bl bfees m)
        (broadcast_execution_report ok (seller_id t) soid scid VUuid (vstr (t_instrument_id t)) (vstr ''sell'')
           (VNum (t_quantity t)) (VNum (t_price t)) srem sst sl sfees))"

definition get_connection_count :: "ws_manager \<Rightarrow> nat" where
  "get_connection_count m = length (active_connections m)"

definition is_connected :: "string \<Rightarrow> ws_manager \<Rightarrow> bool" where
  "is_connected tid m \<longleftrightarrow> tid \<in> set (dict_keys (active_connections m))"

section \<open>Routing\<close>

text \<open>
  \<open>f(**data)\<close>: the parameters of \<open>f\<close> that are not bound yet, each with its default if it
  has one. A key that is no parameter and a parameter that gets no value are TypeErrors.
\<close>

type_synonym signature = "(string \<times> ws_value option) list"

definition bind_kwargs :: "signature \<Rightarrow> ws_data \<Rightarrow> exn + ws_value list" where
  "bind_kwargs sg d =
     (case find (\<lambda>k. k \<notin> set (map fst sg)) (dict_keys d) of
        Some k \<Rightarrow> Inl (TypeError [Txt ''got an unexpected keyword argument '', Txt k])
      | None \<Rightarrow>
          (case find (\<lambda>(k, dflt). map_of d k = None \<and> dflt = None) sg of
             Some (k, _) \<Rightarrow> Inl (TypeError [Txt ''missing required argument '', Txt k])
           | None \<Rightarrow> Inr (map (\<lambda>(k, dflt). case map_of d k of Some v \<Rightarrow> v | None \<Rightarrow> the dflt) sg)))"

definition required :: "string \<Rightarrow> string \<times> ws_value option" where
  "required k = (k, None)"

definition new_order_ack_params :: signature where
  "new_order_ack_params = map required
     [''order_id'', ''client_order_id'', ''instrument_id'', ''side'', ''quantity'', ''order_type'', ''price'']"

definition new_order_reject_params :: signature where
  "new_order_reject_params =
     map required [''order_id'', ''client_order_id'', ''reason''] @ [(''error_code'', Some VNone)]"

definition trade_execution_params :: signature where
  "trade_execution_params = map required
     [''trade'', ''buyer_order_id'', ''seller_order_id'', ''buyer_client_order_id'',
      ''seller_client_order_id'', ''buyer_remaining'', ''seller_remaining'', ''buyer_status'',
      ''seller_status'', ''buyer_fees'', ''seller_fees'']"

definition cancel_ack_params :: signature where
  "cancel_ack_params =
     map required [''order_id'', ''client_order_id'', ''cancelled_quantity''] @
     [(''reason'', Some (vstr ''user_requested''))]"

definition cancel_reject_params :: signature where
  "cancel_reject_params = map required [''order_id'', ''client_order_id'', ''reason'']"

definition call_with ::
    "signature \<Rightarrow> (ws_value list \<Rightarrow> ws_manager \<Rightarrow> unit outcome \<times> ws_manager) \<Rightarrow> ws_data \<Rightarrow>
     ws_manager \<Rightarrow> unit outcome \<times> ws_manager" where
  "call_with sg f d m = (case bind_kwargs sg d of Inl e \<Rightarrow> (Raised e, m) | Inr a \<Rightarrow> f a m)"

definition route_websocket_message ::
    "(nat \<Rightarrow> int \<Rightarrow> bool) \<Rightarrow> string \<Rightarrow> string \<Rightarrow> ws_data \<Rightarrow> ws_manager \<Rightarrow> unit outcome \<times> ws_manager" where
  "route_websocket_message ok ty tid d m =
     (if ty = ''new_order_ack'' then
        call_with new_order_ack_params
          (\<lambda>a. broadcast_new_order_ack ok tid (a ! 0) (a ! 1) (a ! 2) (a ! 3) (a ! 4) (a ! 5) (a ! 6)) d m
      else if ty = ''new_order_reject'' then
        call_with new_order_reject_params
          (\<lambda>a. broadcast_new_order_reject ok tid (a ! 0) (a ! 1) (a ! 2) (a ! 3)) d m
      else if ty = ''execution_report'' then
        call_with trade_execution_params
          (\<lambda>a m. case a ! 0 of
             VTrade t \<Rightarrow>
               broadcast_trade_execution ok t (a ! 1) (a ! 2) (a ! 3) (a ! 4) (a ! 5) (a ! 6) (a ! 7)
                 (a ! 8) (a ! 9) (a ! 10) m
           | _ \<Rightarrow> (Raised (AttributeError (lit ''object has no attribute aggressor_side'')), m)) d m
      else if ty = ''position_snapshot'' then
        (case map_of d ''positions'' of
           None \<Rightarrow> (Raised (KeyError (lit ''positions'')), m)
         | Some ps \<Rightarrow> send_position_snapshot ok tid ps m)
      else if ty = ''order_cancelled'' then
        call_with cancel_ack_params
          (\<lambda>a. broadcast_cancel_ack ok tid (a ! 0) (a ! 1) (a ! 2) (a ! 3)) d m
      else if ty = ''order_cancel_reject'' then
        call_with cancel_reject_params (\<lambda>a. broadcast_cancel_reject ok tid (a ! 0) (a ! 1) (a ! 2)) d m
      else (Finished (), m))"

text \<open>
  The thread: it stops at the shutdown marker, prints exceptions and goes on, and stays in a
  call that blocks. The result says whether it is stuck.
\<close>

type_synonym ws_item = "string \<times> string \<times> ws_data"

fun websocket_async_loop ::
    "(nat \<Rightarrow> int \<Rightarrow> bool) \<Rightarrow> ws_item option list \<Rightarrow> ws_manager \<Rightarrow> bool \<times> ws_manager" where
  "websocket_async_loop ok [] m = (False, m)"
| "websocket_async_loop ok (None # q) m = (False, m)"
| "websocket_async_loop ok (Some (ty, tid, d) # q) m =
     (if is_connected tid m then
        (case route_websocket_message ok ty tid d m of
           (Blocked, m') \<Rightarrow> (True, m')
         | (_, m') \<Rightarrow> websocket_async_loop ok q m')
      else websocket_async_loop ok q m)"

end
