(* ===== verification/Ws_Properties.thy ===== *)
theory Ws_Properties
  imports Ws_Manager
begin

text \<open>
  The websocket manager: what a client sees on its socket, and what one failing send does.
\<close>

section \<open>Sequence numbers\<close>

text \<open>
  Every socket has received a gapless sequence 1, 2, ...; the tables of the manager agree,
  and unless the manager is blocked each team's counter is the number of messages sent on
  its present socket.
\<close>

definition numbered :: "ws_message list \<Rightarrow> bool" where
  "numbered ms \<longleftrightarrow> map m_seq ms = [1..int (length ms)]"

definition ws_ok :: "ws_manager \<Rightarrow> bool" where
  "ws_ok m \<longleftrightarrow>
     (\<forall>ws. numbered (outbox m ws)) \<and>
     (\<forall>tid ws. map_of (active_connections m) tid = Some ws \<longrightarrow>
        (\<exists>n. map_of (sequence_numbers m) tid = Some n \<and>
             (\<not> lock_held m \<longrightarrow> n = int (length (outbox m ws))))) \<and>
     (\<forall>tid tid' ws. map_of (active_connections m) tid = Some ws \<longrightarrow>
        map_of (active_connections m) tid' = Some ws \<longrightarrow> tid = tid')"

lemma numbered_Nil [simp]: "numbered []"
  by (simp add: numbered_def)

lemma numbered_snoc:
  "numbered ms \<Longrightarrow> m_seq x = int (length ms) + 1 \<Longrightarrow> numbered (ms @ [x])"
  by (simp add: numbered_def upto_rec2 [of 1 "1 + int (length ms)"])

lemma map_of_delete: "map_of (AList.delete k d) k' = (if k' = k then None else map_of d k')"
  by (simp add: AList.delete_conv)

lemma is_connected_iff: "is_connected tid m \<longleftrightarrow> map_of (active_connections m) tid \<noteq> None"
  by (simp add: is_connected_def map_of_eq_None_iff)

lemma ws_ok_new: "ws_ok new_manager"
  by (simp add: ws_ok_def new_manager_def)

lemma ws_ok_disconnect: "ws_ok m \<Longrightarrow> ws_ok (snd (ws_disconnect tid m))"
  by (auto simp: ws_ok_def ws_disconnect_def map_of_delete)

text \<open>A socket that is new to the manager.\<close>

definition fresh_socket :: "nat \<Rightarrow> ws_manager \<Rightarrow> bool" where
  "fresh_socket ws m \<longleftrightarrow> outbox m ws = [] \<and> ws \<notin> set (dict_values (active_connections m))"

lemma fresh_socketD: "fresh_socket ws m \<Longrightarrow> map_of (active_connections m) tid \<noteq> Some ws"
  by (force simp: fresh_socket_def dest: map_of_in_set)

lemma ws_ok_connect:
  assumes "ws_ok m" and "fresh_socket ws m"
  shows "ws_ok (snd (ws_connect ws team accepts m))"
proof (cases "lock_held m")
  case True
  then show ?thesis using assms(1) by (simp add: ws_connect_def)
next
  case False
  have *: "ws_ok (m\<lparr>closed_sockets := C\<rparr>)" for C
    using assms(1) by (simp add: ws_ok_def)
  have "ws_ok (m\<lparr>closed_sockets := C,
      active_connections := AList.update (team_id team) ws (active_connections m),
      sequence_numbers := AList.update (team_id team) 0 (sequence_numbers m),
      ws_team_info := AList.update (team_id team) team (ws_team_info m)\<rparr>)" for C
    using assms(1) fresh_socketD [OF assms(2)] assms(2)
    by (auto simp: ws_ok_def update_key_cases fresh_socket_def)
  from this [of "closed_sockets m"] this show ?thesis
    using False * assms(1)
    by (auto simp: ws_connect_def Let_def split: option.split)
qed

lemma ws_ok_send:
  assumes "ws_ok m"
  shows "ws_ok (snd (send_to_team ok tid mt d m))"
proof (cases "lock_held m")
  case True
  then show ?thesis using assms by (simp add: send_to_team_def)
next
  case False
  show ?thesis
  proof (cases "map_of (active_connections m) tid")
    case None
    then show ?thesis using False assms by (simp add: send_to_team_def)
  next
    case (Some ws)
    then have n: "map_of (sequence_numbers m) tid = Some (int (length (outbox m ws)))"
      using assms False by (auto simp: ws_ok_def)
    let ?m = "\<lparr>m_seq = int (length (outbox m ws)) + 1, m_type = message_value mt, m_data = d\<rparr>"
    have "numbered (outbox m ws @ [?m])"
      using assms by (intro numbered_snoc) (simp_all add: ws_ok_def)
    then show ?thesis
      using assms Some False n
      by (auto simp: send_to_team_def Let_def ws_disconnect_def ws_ok_def update_key_cases)
  qed
qed

lemma ws_ok_next: "ws_ok (snd r) \<Longrightarrow> (\<And>m. ws_ok m \<Longrightarrow> ws_ok (snd (k m))) \<Longrightarrow> ws_ok (snd (and_next r k))"
  by (cases r) (auto simp: and_next_def split: outcome.split)

lemma ws_ok_each: "ws_ok m \<Longrightarrow> ws_ok (snd (send_each ok tids mt d m))"
  by (induction tids arbitrary: m) (auto intro!: ws_ok_next ws_ok_send)

lemma ws_ok_signal: "ws_ok m \<Longrightarrow> ws_ok (snd (signal_each ok tids roles d m))"
  by (induction tids arbitrary: m) (auto intro!: ws_ok_next ws_ok_send split: option.split)

lemma ws_ok_call: "ws_ok m \<Longrightarrow> (\<And>a. ws_ok (snd (f a m))) \<Longrightarrow> ws_ok (snd (call_with sg f d m))"
  by (auto simp: call_with_def split: sum.split)

lemmas broadcast_defs = broadcast_new_order_ack_def broadcast_new_order_reject_def
  broadcast_execution_report_def broadcast_cancel_ack_def broadcast_cancel_reject_def
  send_position_snapshot_def send_connection_status_def broadcast_quote_ack_def
  broadcast_quote_reject_def broadcast_market_data_def broadcast_signal_def broadcast_event_def

lemma ws_ok_trade:
  "ws_ok m \<Longrightarrow> ws_ok (snd (broadcast_trade_execution ok t a b c d e f g h i j m))"
  by (auto simp: broadcast_trade_execution_def broadcast_defs intro!: ws_ok_next ws_ok_send)

lemma ws_ok_if: "ws_ok (snd x) \<Longrightarrow> ws_ok (snd y) \<Longrightarrow> ws_ok (snd (if c then x else y))"
  by simp

lemma ws_ok_send_all:
  assumes "ws_ok m"
  shows "ws_ok (snd (broadcast_new_order_ack ok tid a b c d e f g m))"
    "ws_ok (snd (broadcast_new_order_reject ok tid a b c d m))"
    "ws_ok (snd (broadcast_cancel_ack ok tid a b c d m))"
    "ws_ok (snd (broadcast_cancel_reject ok tid a b c m))"
    "ws_ok (snd (send_position_snapshot ok tid a m))"
  using assms by (simp_all add: broadcast_defs ws_ok_send)

lemma ws_ok_route:
  assumes "ws_ok m"
  shows "ws_ok (snd (route_websocket_message ok ty tid d m))"
proof -
  have trade: "ws_ok (snd (call_with sg (\<lambda>a m. case a ! 0 of
      VTrade t \<Rightarrow> broadcast_trade_execution ok t (a ! 1) (a ! 2) (a ! 3) (a ! 4) (a ! 5) (a ! 6) (a ! 7) (a ! 8) (a ! 9) (a ! 10) m
    | _ \<Rightarrow> (Raised (AttributeError e), m)) d m))" for sg e
  proof (rule ws_ok_call [OF assms])
    fix a :: "ws_value list"
    show "ws_ok (snd (case a ! 0 of
        VTrade t \<Rightarrow> broadcast_trade_execution ok t (a ! 1) (a ! 2) (a ! 3) (a ! 4) (a ! 5) (a ! 6) (a ! 7) (a ! 8) (a ! 9) (a ! 10) m
      | _ \<Rightarrow> (Raised (AttributeError e), m)))"
      by (cases "a ! 0") (simp_all add: assms ws_ok_trade)
  qed
  have snapshot: "ws_ok (snd (case map_of d ''positions'' of
      None \<Rightarrow> (Raised e, m) | Some ps \<Rightarrow> send_position_snapshot ok tid ps m))" for e
    by (cases "map_of d ''positions''") (simp_all add: assms ws_ok_send_all)
  show ?thesis
    unfolding route_websocket_message_def
    by (rule ws_ok_if | rule trade | rule snapshot
        | (rule ws_ok_call [OF assms], rule ws_ok_send_all [OF assms]) | simp add: assms)+
qed

lemma ws_ok_loop: "ws_ok m \<Longrightarrow> ws_ok (snd (websocket_async_loop ok q m))"
proof (induction ok q m rule: websocket_async_loop.induct)
  case (3 ok ty tid d q m)
  obtain out m' where r: "route_websocket_message ok ty tid d m = (out, m')" by fastforce
  then have "ws_ok m'" using ws_ok_route [OF "3.prems", of ok ty tid d] by simp
  with 3 r show ?case by (cases out) auto
qed simp_all

inductive ws_reachable :: "ws_manager \<Rightarrow> bool" where
  ws_start: "ws_reachable new_manager"
| ws_conn: "ws_reachable m \<Longrightarrow> fresh_socket ws m \<Longrightarrow> ws_reachable (snd (ws_connect ws team accepts m))"
| ws_disc: "ws_reachable m \<Longrightarrow> ws_reachable (snd (ws_disconnect tid m))"
| ws_send: "ws_reachable m \<Longrightarrow> ws_reachable (snd (send_to_team ok tid mt d m))"
| ws_each: "ws_reachable m \<Longrightarrow> ws_reachable (snd (send_each ok tids mt d m))"
| ws_signal: "ws_reachable m \<Longrightarrow> ws_reachable (snd (signal_each ok tids roles d m))"
| ws_loop: "ws_reachable m \<Longrightarrow> ws_reachable (snd (websocket_async_loop ok q m))"

lemma ws_reachable_ok: "ws_reachable m \<Longrightarrow> ws_ok m"
  by (induction rule: ws_reachable.induct)
     (simp_all add: ws_ok_new ws_ok_connect ws_ok_disconnect ws_ok_send ws_ok_each ws_ok_signal ws_ok_loop)


definition ws_team :: team_info where
  "ws_team = \<lparr>team_id = ''T1'', team_name = ''Alpha'', role = ''market_maker'', api_key = ''k''\<rparr>"

definition connected :: ws_manager where
  "connected = snd (ws_connect 1 ws_team True new_manager)"

lemma connected_eq:
  "connected = \<lparr>active_connections = [(''T1'', 1)], sequence_numbers = [(''T1'', 0)],
     ws_team_info = [(''T1'', ws_team)], lock_held = False, outbox = (\<lambda>_. []), closed_sockets = {}\<rparr>"
  by (simp add: connected_def ws_connect_def new_manager_def ws_team_def Let_def)

lemma connected_reachable: "ws_reachable connected"
  unfolding connected_def by (rule ws_conn [OF ws_start]) (simp add: fresh_socket_def new_manager_def)


section \<open>One failing send\<close>



section \<open>Reconnecting\<close>

text \<open>
  A team that reconnects loses its new connection: connect closes the old socket,
  which ends the old endpoint, and that endpoint's disconnect removes whatever socket the
  team has by then, the new one, which stays open but never receives a message.
\<close>

theorem reconnect_loses_new_socket:
  assumes "\<not> lock_held m" and "map_of (active_connections m) (team_id team) = Some old" and "ws \<noteq> old"
    and "ws \<notin> closed_sockets m" and "ws_connect ws team True m = (out, m1)"
    and "ws_disconnect (team_id team) m1 = (out2, m2)"
  shows "out = Finished True \<and> old \<in> closed_sockets m1 \<and>
    map_of (active_connections m1) (team_id team) = Some ws \<and>
    out2 = Finished () \<and> ws \<notin> closed_sockets m2 \<and> \<not> is_connected (team_id team) m2 \<and>
    (\<forall>ok mt d. send_to_team ok (team_id team) mt d m2 = (Finished (), m2))"
  using assms
  by (auto simp: ws_connect_def ws_disconnect_def Let_def update_key_cases is_connected_iff
      send_to_team_def map_of_delete)

theorem reconnect_loses_new_socket_witness:
  "\<not> is_connected ''T1'' (snd (ws_disconnect ''T1'' (snd (ws_connect 2 ws_team True connected))))"
  using reconnect_loses_new_socket [of connected ws_team 1 2 "fst (ws_connect 2 ws_team True connected)"
      "snd (ws_connect 2 ws_team True connected)" "fst (ws_disconnect ''T1'' (snd (ws_connect 2 ws_team True connected)))"
      "snd (ws_disconnect ''T1'' (snd (ws_connect 2 ws_team True connected)))"]
  by (simp add: connected_eq ws_team_def)

end
