(* ===== verification/Services.thy ===== *)
theory Services
  imports Venue Order_Validation Positions Api_Models
begin

text \<open>
  The service layer between the threads and the domain: \<open>services/order_validation.py\<close>
  (rate limiting, the validation context, uniform cancellation errors) and
  \<open>services/order_matching.py\<close> (submission, exceptions as results). The clock readings are
  arguments, in seconds.
\<close>

section \<open>Rate limiting\<close>

record rate_limit_window =
  window_count :: int
  window_start :: rat

type_synonym windows = "(string, rate_limit_window) dict"

definition is_current_window :: "rate_limit_window \<Rightarrow> rat \<Rightarrow> bool" where
  "is_current_window w t \<longleftrightarrow> py_int t = py_int (window_start w)"

definition get_order_count :: "windows \<Rightarrow> string \<Rightarrow> rat \<Rightarrow> int" where
  "get_order_count ws team t =
     (case map_of ws team of
        None \<Rightarrow> 0
      | Some w \<Rightarrow> if is_current_window w t then window_count w else 0)"

definition increment_order_count :: "string \<Rightarrow> rat \<Rightarrow> windows \<Rightarrow> windows" where
  "increment_order_count team t ws =
     (case map_of ws team of
        None \<Rightarrow> AList.update team \<lparr>window_count = 1, window_start = t\<rparr> ws
      | Some w \<Rightarrow>
          if \<not> is_current_window w t then AList.update team \<lparr>window_count = 1, window_start = t\<rparr> ws
          else AList.update team \<lparr>window_count = window_count w + 1, window_start = window_start w\<rparr> ws)"

section \<open>Validation\<close>

definition order_context :: "positions \<Rightarrow> windows \<Rightarrow> rat \<Rightarrow> order \<Rightarrow> team_info \<Rightarrow> validation_context" where
  "order_context ps ws t o1 team =
     \<lparr>vc_order = o1, vc_trader_id = team_id team, vc_trader_role = role team,
      current_positions = get_positions ps (team_id team),
      orders_this_second = get_order_count ws (team_id team) t\<rparr>"

definition validate_new_order ::
    "registry \<Rightarrow> role_cache \<Rightarrow> positions \<Rightarrow> windows \<Rightarrow> rat \<Rightarrow> order \<Rightarrow> team_info \<Rightarrow> exn + order_result" where
  "validate_new_order reg cache ps ws t o1 team =
     validate_order reg cache (order_context ps ws t o1 team)"

definition validate_cancellation :: "string \<Rightarrow> string \<Rightarrow> venue \<Rightarrow> (exn + bool \<times> string option) \<times> venue" where
  "validate_cancellation oid team v =
     (case venue_cancel_order oid team v of
        (Inr True, v') \<Rightarrow> (Inr (True, None), v')
      | (Inr False, v') \<Rightarrow> (Inr (False, Some ORDER_NOT_FOUND), v')
      | (Inl (ValueError _), v') \<Rightarrow> (Inr (False, Some ORDER_NOT_FOUND), v')
      | (Inl e, v') \<Rightarrow> (Inl e, v'))"

section \<open>Matching\<close>

definition submit_order_to_exchange :: "order \<Rightarrow> venue \<Rightarrow> (exn + order_result) \<times> order \<times> venue" where
  "submit_order_to_exchange o1 v = venue_submit_order o1 v"

text \<open>
  \<open>str(e)\<close>. A KeyError prints the \<open>repr\<close> of its argument: single quotes, or double quotes
  when the text has a single quote and no double quote (escapes are not modelled).
\<close>

definition has_char :: "char \<Rightarrow> msg \<Rightarrow> bool" where
  "has_char c m \<longleftrightarrow> (\<exists>p \<in> set m. case p of Txt s \<Rightarrow> c \<in> set s | Num _ \<Rightarrow> False)"

definition repr_msg :: "msg \<Rightarrow> msg" where
  "repr_msg m =
     (let q = (if has_char (CHR 0x27) m \<and> \<not> has_char (CHR 0x22) m then CHR 0x22 else CHR 0x27)
      in lit [q] @ m @ lit [q])"

fun exn_str :: "exn \<Rightarrow> msg" where
  "exn_str (ValueError m) = m"
| "exn_str (KeyError m) = repr_msg m"
| "exn_str (RuntimeError m) = m"
| "exn_str (AssertionError m) = m"
| "exn_str (TypeError m) = m"
| "exn_str (AttributeError m) = m"
| "exn_str (FileNotFoundError m) = m"
| "exn_str (YAMLError m) = m"
| "exn_str IndexError = lit ''list index out of range''"
| "exn_str OverflowError = lit ''cannot convert float infinity to integer''"
| "exn_str ZeroDivisionError = lit ''division by zero''"

definition handle_exchange_error :: "exn \<Rightarrow> order \<Rightarrow> order_result" where
  "handle_exchange_error e o1 =
     (let (code, message) =
        (case e of
           ValueError m \<Rightarrow> (''INVALID_ORDER'', lit ''Invalid order parameters: '' @ exn_str e)
         | KeyError m \<Rightarrow> (''UNKNOWN_INSTRUMENT'', [Txt ''Instrument not found: '', Txt (instrument_id o1)])
         | RuntimeError m \<Rightarrow> (''EXCHANGE_ERROR'', lit ''Exchange error: '' @ exn_str e)
         | _ \<Rightarrow> (''INTERNAL_ERROR'', lit ''Unexpected error: '' @ exn_str e))
      in \<lparr>r_order_id = order_id o1, status = ''error'', fills = [], r_remaining = quantity o1,
          error_code = Some code, error_message = Some message\<rparr>)"

end
