(* ===== verification/Pipeline.thy ===== *)
theory Pipeline
  imports Services Coordinator Ws_Manager
begin

text \<open>
  The threads of the trading pipeline: \<open>exchange/threads_v2.py\<close> (validator, matching) and the
  trade publisher of \<open>infrastructure/communication/threads.py\<close>. Each thread takes one item
  from its queue, works on the services and puts items on the queues of the next threads;
  the position tracker (\<open>Positions\<close>) and the websocket thread (\<open>Ws_Manager\<close>) end the line.
  A step is one item. The coordinator, the position service and the rate limiter guard every
  access with their locks; the venue has no lock although the validator cancels orders on it
  and the matching thread submits them, so taking its operations as atomic is an assumption
  of the model.
\<close>

section \<open>The shared state\<close>

record pipeline =
  p_venue :: venue
  p_windows :: windows
  p_positions :: positions
  p_coordinator :: coordinator
  match_queue :: "(order \<times> team_info) list"
  trade_queue :: "(order_result \<times> order \<times> team_info) list"
  position_queue :: "(order_result \<times> order \<times> team_info) list"
  websocket_queue :: "ws_item list"

definition put_ws :: "string \<Rightarrow> string \<Rightarrow> ws_data \<Rightarrow> pipeline \<Rightarrow> pipeline" where
  "put_ws ty team d s = s\<lparr>websocket_queue := websocket_queue s @ [(ty, team, d)]\<rparr>"

definition notify :: "string \<Rightarrow> api_response \<Rightarrow> string option \<Rightarrow> rat \<Rightarrow> pipeline \<Rightarrow> pipeline" where
  "notify rid resp oid t s =
     s\<lparr>p_coordinator := snd (notify_completion rid resp oid t (p_coordinator s))\<rparr>"

text \<open>The clock readings of one validator step: order count, increment, notification.\<close>

record readings =
  t_count :: rat
  t_increment :: rat
  t_notify :: rat

section \<open>The validator thread\<close>

definition handle_unexpected_status :: "string \<Rightarrow> string \<Rightarrow> rat \<Rightarrow> pipeline \<Rightarrow> pipeline" where
  "handle_unexpected_status st rid t s =
     notify rid (error_response rid INTERNAL_ERROR [Txt ''Unexpected validation status: '', Txt st] None) None t s"

text \<open>Each handler returns the exception it raised, if any, and the state at that point.\<close>

definition handle_new_order_validation ::
    "registry \<Rightarrow> role_cache \<Rightarrow> readings \<Rightarrow> order \<Rightarrow> team_info \<Rightarrow> string \<Rightarrow> pipeline \<Rightarrow> exn option \<times> pipeline" where
  "handle_new_order_validation reg cache ts o1 team rid s =
     (case validate_new_order reg cache (p_positions s) (p_windows s) (t_count ts) o1 team of
        Inl e \<Rightarrow> (Some e, s)
      | Inr r \<Rightarrow>
          if status r = ''accepted'' then
            let s1 = s\<lparr>match_queue := match_queue s @ [(o1, team)],
                       p_windows := increment_order_count (team_id team) (t_increment ts) (p_windows s)\<rparr>
            in (None, notify rid (success_response rid (Some (order_id o1)) None) (Some (order_id o1)) (t_notify ts) s1)
          else if status r = ''rejected'' then
            (case (error_code r, error_message r) of
               (Some code, Some message) \<Rightarrow>
                 let s1 = put_ws (message_value NEW_ORDER_REJECT) (team_id team)
                            [(''order_id'', vstr (order_id o1)),
                             (''client_order_id'', vopt vstr (client_order_id o1)),
                             (''reason'', VStr message), (''error_code'', vstr code)] s
                 in (None, notify rid (error_response rid code message None) None (t_notify ts) s1)
             | _ \<Rightarrow> (Some (AssertionError []), s))
          else (None, handle_unexpected_status (status r) rid (t_notify ts) s))"

definition handle_order_cancellation ::
    "readings \<Rightarrow> string \<Rightarrow> team_info \<Rightarrow> string \<Rightarrow> pipeline \<Rightarrow> exn option \<times> pipeline" where
  "handle_order_cancellation ts oid team rid s =
     (case validate_cancellation oid (team_id team) (p_venue s) of
        (Inl e, v) \<Rightarrow> (Some e, s\<lparr>p_venue := v\<rparr>)
      | (Inr (success, reason), v) \<Rightarrow>
          let s1 = s\<lparr>p_venue := v\<rparr> in
          if success then
            (None, notify rid (success_response rid (Some oid) None) None (t_notify ts)
               (put_ws (message_value CANCEL_ACK) (team_id team)
                  [(''order_id'', vstr oid), (''client_order_id'', VNone),
                   (''cancelled_quantity'', VNum 0), (''reason'', vstr ''user_requested'')] s1))
          else
            (None, notify rid
               (error_response rid CANCEL_FAILED
                  (format_cancel_failed
                     (case reason of None \<Rightarrow> ''Unknown error'' | Some x \<Rightarrow> if x = '''' then ''Unknown error'' else x))
                  None) None (t_notify ts)
               (put_ws (message_value CANCEL_REJECT) (team_id team)
                  [(''order_id'', vstr oid), (''client_order_id'', VNone),
                   (''reason'', vopt vstr reason)] s1)))"

definition handle_validator_error :: "exn \<Rightarrow> string option \<Rightarrow> rat \<Rightarrow> pipeline \<Rightarrow> pipeline" where
  "handle_validator_error e rid t s =
     (case rid of
        None \<Rightarrow> s
      | Some r \<Rightarrow>
          if r = '''' then s
          else notify r (error_response r INTERNAL_ERROR (lit ''Validator thread error: '' @ exn_str e) None) None t s)"

text \<open>
  An item of the order queue: the two kinds of tuple the endpoints put, a tuple of another
  message type, and an item that does not unpack into five parts. The thread's variable
  \<open>request_id\<close> keeps the value of the last tuple that did; it is the second component of
  the state.
\<close>

datatype order_message =
    New_order order team_info string
  | Cancel_order string team_info string
  | Other_message string
  | Malformed exn

type_synonym validator_state = "string option \<times> pipeline"

fun validator_step ::
    "registry \<Rightarrow> role_cache \<Rightarrow> readings \<Rightarrow> order_message \<Rightarrow> validator_state \<Rightarrow> validator_state" where
  "validator_step reg cache ts (New_order o1 team rid) (l, s) =
     (case handle_new_order_validation reg cache ts o1 team rid s of
        (None, s') \<Rightarrow> (Some rid, s')
      | (Some e, s') \<Rightarrow> (Some rid, handle_validator_error e (Some rid) (t_notify ts) s'))"
| "validator_step reg cache ts (Cancel_order oid team rid) (l, s) =
     (case handle_order_cancellation ts oid team rid s of
        (None, s') \<Rightarrow> (Some rid, s')
      | (Some e, s') \<Rightarrow> (Some rid, handle_validator_error e (Some rid) (t_notify ts) s'))"
| "validator_step reg cache ts (Other_message rid) (l, s) = (Some rid, s)"
| "validator_step reg cache ts (Malformed e) (l, s) = (l, handle_validator_error e l (t_notify ts) s)"

fun validator_thread ::
    "registry \<Rightarrow> role_cache \<Rightarrow> (readings \<times> order_message option) list \<Rightarrow> validator_state \<Rightarrow> validator_state" where
  "validator_thread reg cache [] st = st"
| "validator_thread reg cache ((ts, None) # q) st = st"
| "validator_thread reg cache ((ts, Some msg) # q) st =
     validator_thread reg cache q (validator_step reg cache ts msg st)"

section \<open>The matching thread\<close>

definition ack_data :: "order \<Rightarrow> order_result \<Rightarrow> ws_data" where
  "ack_data o1 r =
     [(''order_id'', vstr (order_id o1)), (''client_order_id'', vopt vstr (client_order_id o1)),
      (''instrument_id'', vstr (instrument_id o1)), (''side'', vstr (side_value (side o1))),
      (''quantity'', VNum (quantity o1)), (''price'', vopt VNum (price o1)),
      (''status'', vstr (status r))]"

text \<open>The order object that goes on to the publisher is the one the exchange has changed.\<close>

definition process_single_order :: "order \<times> team_info \<Rightarrow> pipeline \<Rightarrow> pipeline" where
  "process_single_order item s =
     (case item of (o1, team) \<Rightarrow>
        (case submit_order_to_exchange o1 (p_venue s) of
           (Inl e, o2, v) \<Rightarrow> s\<lparr>p_venue := v\<rparr>
         | (Inr r, o2, v) \<Rightarrow>
             let s1 = s\<lparr>p_venue := v\<rparr>;
                 s2 = (if status r \<in> {''new'', ''partially_filled'', ''filled''}
                       then put_ws ''new_order_ack'' (team_id team) (ack_data o2 r) s1 else s1)
             in s2\<lparr>trade_queue := trade_queue s2 @ [(r, o2, team)]\<rparr>))"

definition should_check_phases :: "rat \<Rightarrow> rat \<Rightarrow> rat \<Rightarrow> bool" where
  "should_check_phases last_check interval now \<longleftrightarrow> interval \<le> now - last_check"

text \<open>
  One round of the thread: an item or, when the queue was empty for the timeout, none; then
  the phase check when it is due at \<open>now\<close>, after which \<open>now'\<close> is the time of the last
  check. The check stands outside the \<open>try\<close>: an exception ends the thread, and the first
  component says whether it is still running.
\<close>

definition matching_round ::
    "draws \<Rightarrow> exn + phase_state \<Rightarrow> rat \<Rightarrow> rat \<Rightarrow> rat \<Rightarrow> (order \<times> team_info) option \<Rightarrow>
     rat \<times> pipeline \<Rightarrow> bool \<times> rat \<times> pipeline" where
  "matching_round draw ps interval now now' item st =
     (case st of (last_check, s) \<Rightarrow>
        let s1 = (case item of None \<Rightarrow> s | Some i \<Rightarrow> process_single_order i s) in
        if should_check_phases last_check interval now then
          (case check_phase_transitions draw ps (p_venue s1) of
             (Some e, v) \<Rightarrow> (False, last_check, s1\<lparr>p_venue := v\<rparr>)
           | (None, v) \<Rightarrow> (True, now', s1\<lparr>p_venue := v\<rparr>))
        else (True, last_check, s1))"

section \<open>The trade publisher\<close>

definition report_data :: "order \<Rightarrow> team_info \<Rightarrow> trade \<Rightarrow> string \<Rightarrow> rat \<Rightarrow> ws_data" where
  "report_data o1 team t l fee =
     [(''order_id'', vstr (order_id o1)), (''client_order_id'', vopt vstr (client_order_id o1)),
      (''side'', vstr (side_value (side o1))), (''quantity'', VNum (t_quantity t)),
      (''price'', VNum (t_price t)), (''liquidity'', vstr l), (''fee'', VNum fee),
      (''timestamp'', VNow), (''trade_id'', VUuid),
      (''counterparty'', vstr (if side_value (side o1) = ''buy'' then seller_order_id t else buyer_order_id t)),
      (''team_id'', vstr (team_id team))]"

text \<open>The messages of the fills, up to the first one whose fee raises.\<close>

fun publish_fills :: "(string, fee_schedule) dict \<Rightarrow> order \<Rightarrow> team_info \<Rightarrow> trade list \<Rightarrow> pipeline \<Rightarrow> pipeline" where
  "publish_fills fees o1 team [] s = s"
| "publish_fills fees o1 team (t # ts) s =
     (let l = determine_liquidity_type (aggressor_side t) (side_value (side o1)) in
      case calculate_fee fees (t_quantity t) (role team) l of
        Inl e \<Rightarrow> s
      | Inr fee \<Rightarrow>
          publish_fills fees o1 team ts (put_ws ''execution_report'' (team_id team) (report_data o1 team t l fee) s))"

definition publish_trade ::
    "(string, fee_schedule) dict \<Rightarrow> order_result \<times> order \<times> team_info \<Rightarrow> pipeline \<Rightarrow> pipeline" where
  "publish_trade fees item s =
     (case item of (r, o1, team) \<Rightarrow>
        publish_fills fees o1 team (fills r) (s\<lparr>position_queue := position_queue s @ [item]\<rparr>))"

section \<open>The whole line\<close>

text \<open>
  Interleavings of the threads. An order enters through the validator (the API's order queue
  is outside: any message may come at any time); each of the other threads takes the head
  of its queue.
\<close>

datatype pipeline_event =
    Validate readings order_message
  | Match
  | Check_phases draws "exn + phase_state"
  | Publish
  | Track

type_synonym settings = "registry \<times> role_cache \<times> (string, fee_schedule) dict"

fun pipeline_step :: "settings \<Rightarrow> pipeline_event \<Rightarrow> validator_state \<Rightarrow> validator_state" where
  "pipeline_step (reg, cache, fees) (Validate ts msg) st = validator_step reg cache ts msg st"
| "pipeline_step cfg Match (l, s) =
     (case match_queue s of
        [] \<Rightarrow> (l, s)
      | i # q \<Rightarrow> (l, process_single_order i (s\<lparr>match_queue := q\<rparr>)))"
| "pipeline_step cfg (Check_phases draw ps) (l, s) =
     (l, s\<lparr>p_venue := snd (check_phase_transitions draw ps (p_venue s))\<rparr>)"
| "pipeline_step (reg, cache, fees) Publish (l, s) =
     (case trade_queue s of
        [] \<Rightarrow> (l, s)
      | i # q \<Rightarrow> (l, publish_trade fees i (s\<lparr>trade_queue := q\<rparr>)))"
| "pipeline_step cfg Track (l, s) =
     (case position_queue s of
        [] \<Rightarrow> (l, s)
      | (r, o1, team) # q \<Rightarrow>
          (l, s\<lparr>position_queue := q, p_positions := track_result r o1 team (p_positions s)\<rparr>))"

end
