(* ===== verification/Pipeline_Properties.thy ===== *)
theory Pipeline_Properties
  imports Pipeline Position_Properties Coordinator_Properties Ws_Properties
begin

text \<open>
  The components together: every request the validator takes is answered, what an answer
  promises, the limits that hold across the threads, the positions as the ledger of what
  the exchange executed, and what reaches a client's socket in the end.
\<close>

section \<open>Answers\<close>

lemma apply_constraints_outcome:
  "apply_constraints reg c cfgs = Inr r \<Longrightarrow>
   status r = ''accepted'' \<or> status r = ''rejected'' \<and> error_code r \<noteq> None \<and> error_message r \<noteq> None"
  by (induction cfgs) (auto simp: acceptance_def rejection_def split: option.splits sum.splits if_splits)

lemma validate_new_order_outcome:
  "validate_new_order reg cache ps ws t o1 team = Inr r \<Longrightarrow>
   status r = ''accepted'' \<or> status r = ''rejected'' \<and> error_code r \<noteq> None \<and> error_message r \<noteq> None"
  unfolding validate_new_order_def validate_order_def by (rule apply_constraints_outcome)

text \<open>The request a message is about, and whether it is granted.\<close>

fun request_of :: "order_message \<Rightarrow> string option" where
  "request_of (New_order o1 team rid) = Some rid"
| "request_of (Cancel_order oid team rid) = Some rid"
| "request_of _ = None"

fun granted :: "registry \<Rightarrow> role_cache \<Rightarrow> readings \<Rightarrow> order_message \<Rightarrow> pipeline \<Rightarrow> bool" where
  "granted reg cache ts (New_order o1 team rid) s \<longleftrightarrow>
     (\<exists>r. validate_new_order reg cache (p_positions s) (p_windows s) (t_count ts) o1 team = Inr r \<and>
          status r = ''accepted'')"
| "granted reg cache ts (Cancel_order oid team rid) s \<longleftrightarrow>
     (\<exists>v. venue_cancel_order oid (team_id team) (p_venue s) = (Inr True, v))"
| "granted reg cache ts _ s \<longleftrightarrow> False"

text \<open>A notification of an active request settles it with that response.\<close>

definition answered :: "string \<Rightarrow> bool \<Rightarrow> coordinator \<Rightarrow> bool" where
  "answered rid success c \<longleftrightarrow>
     (\<exists>p r. get_request_status c rid = Some p \<and> completion_event p \<and>
        fst (wait_signalled rid c) = Inr r \<and> ar_request_id (rs_api_response r) = rid \<and>
        ar_success (rs_api_response r) = success)"

lemma notify_answers:
  assumes "get_request_status (p_coordinator s) rid = Some p" and "is_active (pq_status p)"
    and "ar_request_id resp = rid"
  shows "answered rid (ar_success resp) (p_coordinator (notify rid resp oid t s))"
  using assms
  by (auto simp: answered_def notify_def notify_completion_def active_not_terminal get_request_status_def
      wait_signalled_def completion_result_def split: if_splits)

lemma put_ws_coordinator [simp]:
  "p_coordinator (put_ws ty team d s) = p_coordinator s"
  "p_venue (put_ws ty team d s) = p_venue s"
  "p_positions (put_ws ty team d s) = p_positions s"
  "p_windows (put_ws ty team d s) = p_windows s"
  "match_queue (put_ws ty team d s) = match_queue s"
  "trade_queue (put_ws ty team d s) = trade_queue s"
  "position_queue (put_ws ty team d s) = position_queue s"
  by (simp_all add: put_ws_def)

lemma notify_selectors [simp]:
  "p_venue (notify rid resp oid t s) = p_venue s"
  "p_positions (notify rid resp oid t s) = p_positions s"
  "p_windows (notify rid resp oid t s) = p_windows s"
  "match_queue (notify rid resp oid t s) = match_queue s"
  "trade_queue (notify rid resp oid t s) = trade_queue s"
  "position_queue (notify rid resp oid t s) = position_queue s"
  "websocket_queue (notify rid resp oid t s) = websocket_queue s"
  by (simp_all add: notify_def)

lemma handle_validator_error_selectors [simp]:
  "p_venue (handle_validator_error e l t s) = p_venue s"
  "p_positions (handle_validator_error e l t s) = p_positions s"
  "p_windows (handle_validator_error e l t s) = p_windows s"
  "match_queue (handle_validator_error e l t s) = match_queue s"
  "trade_queue (handle_validator_error e l t s) = trade_queue s"
  "position_queue (handle_validator_error e l t s) = position_queue s"
  "websocket_queue (handle_validator_error e l t s) = websocket_queue s"
  by (simp_all add: handle_validator_error_def split: option.split)

text \<open>An issued request id is not empty, so the error handler never skips it.\<close>

lemma issued_not_empty:
  assumes "coord_ok cfg c" and "get_request_status c rid = Some p"
  shows "rid \<noteq> ''''"
proof -
  have "objects c rid = Some p" using assms(2) by (simp add: get_request_status_Some)
  then have "issued (request_id_prefix cfg) (request_counter c) rid"
    by (rule coord_okD(4) [OF assms(1)])
  then show ?thesis by (auto simp: issued_def make_request_id_def)
qed

lemma new_order_answered:
  assumes p: "get_request_status (p_coordinator s) rid = Some p" "is_active (pq_status p)" and "rid \<noteq> ''''"
    and run: "validator_step reg cache ts (New_order o1 team rid) (l, s) = (l', s')"
  shows "answered rid (granted reg cache ts (New_order o1 team rid) s) (p_coordinator s') \<and>
    match_queue s' = match_queue s @ (if granted reg cache ts (New_order o1 team rid) s then [(o1, team)] else [])"
proof (cases "validate_new_order reg cache (p_positions s) (p_windows s) (t_count ts) o1 team")
  case (Inl e)
  then have s': "s' = handle_validator_error e (Some rid) (t_notify ts) s"
    using run by (auto simp: handle_new_order_validation_def)
  have "answered rid False (p_coordinator s')"
    unfolding s' handle_validator_error_def
    using notify_answers [OF p, of "error_response rid INTERNAL_ERROR (lit ''Validator thread error: '' @ exn_str e) None"]
    using \<open>rid \<noteq> ''''\<close> by simp
  then show ?thesis using Inl by (simp add: s')
next
  case (Inr r)
  show ?thesis
  proof (cases "status r = ''accepted''")
    case True
    let ?s1 = "s\<lparr>match_queue := match_queue s @ [(o1, team)],
      p_windows := increment_order_count (team_id team) (t_increment ts) (p_windows s)\<rparr>"
    have s': "s' = notify rid (success_response rid (Some (order_id o1)) None) (Some (order_id o1)) (t_notify ts) ?s1"
      using run Inr True by (simp add: handle_new_order_validation_def)
    have "get_request_status (p_coordinator ?s1) rid = Some p" using p(1) by simp
    from notify_answers [OF this p(2), of "success_response rid (Some (order_id o1)) None"] show ?thesis
      using Inr True by (simp add: s')
  next
    case False
    then obtain code message where r: "status r = ''rejected''" "error_code r = Some code" "error_message r = Some message"
      using validate_new_order_outcome [OF Inr] by auto
    let ?s1 = "put_ws (message_value NEW_ORDER_REJECT) (team_id team)
      [(''order_id'', vstr (order_id o1)), (''client_order_id'', vopt vstr (client_order_id o1)),
       (''reason'', VStr message), (''error_code'', vstr code)] s"
    have s': "s' = notify rid (error_response rid code message None) None (t_notify ts) ?s1"
      using run Inr r by (simp add: handle_new_order_validation_def)
    have "get_request_status (p_coordinator ?s1) rid = Some p" using p(1) by simp
    from notify_answers [OF this p(2), of "error_response rid code message None"] show ?thesis
      using Inr False by (simp add: s')
  qed
qed

lemma cancel_order_answered:
  assumes p: "get_request_status (p_coordinator s) rid = Some p" "is_active (pq_status p)" and "rid \<noteq> ''''"
    and run: "validator_step reg cache ts (Cancel_order oid team rid) (l, s) = (l', s')"
  shows "answered rid (granted reg cache ts (Cancel_order oid team rid) s) (p_coordinator s') \<and>
    match_queue s' = match_queue s"
proof -
  obtain r v where c: "venue_cancel_order oid (team_id team) (p_venue s) = (r, v)" by fastforce
  let ?s1 = "s\<lparr>p_venue := v\<rparr>"
  have p1: "get_request_status (p_coordinator (put_ws ty tid d ?s1)) rid = Some p" for ty tid d
    using p(1) by simp
  note ans = notify_answers [OF p1 p(2)]
  consider (granted) "r = Inr True" | (refused) "r = Inr False \<or> (\<exists>m. r = Inl (ValueError m))"
    | (raised) e where "r = Inl e" "\<forall>m. e \<noteq> ValueError m"
    by (cases r) auto
  then show ?thesis
  proof cases
    case granted
    with run c show ?thesis
      using ans [of "success_response rid (Some oid) None"]
      by (auto simp: handle_order_cancellation_def validate_cancellation_def)
  next
    case refused
    then have "validate_cancellation oid (team_id team) (p_venue s) = (Inr (False, Some ORDER_NOT_FOUND), v)"
      using c by (auto simp: validate_cancellation_def)
    with run c refused show ?thesis
      using ans [of "error_response rid CANCEL_FAILED (format_cancel_failed ORDER_NOT_FOUND) None"]
      by (auto simp: handle_order_cancellation_def ORDER_NOT_FOUND_def)
  next
    case raised
    then have "validate_cancellation oid (team_id team) (p_venue s) = (Inl e, v)"
      using c by (cases e) (auto simp: validate_cancellation_def)
    then have s': "s' = handle_validator_error e (Some rid) (t_notify ts) ?s1"
      using run by (auto simp: handle_order_cancellation_def)
    have "answered rid False (p_coordinator s')"
      unfolding s' handle_validator_error_def
      using notify_answers [of ?s1, OF _ p(2), of rid "error_response rid INTERNAL_ERROR (lit ''Validator thread error: '' @ exn_str e) None"]
        p(1) \<open>rid \<noteq> ''''\<close> by simp
    then show ?thesis using raised c by (simp add: s')
  qed
qed


definition unlisted_venue :: venue where
  "unlisted_venue =
     \<lparr>order_books = [], instruments = [], all_order_ids = {},
      current_phase_state = \<lparr>ph_type = CONTINUOUS, is_order_submission_allowed = True,
        is_order_cancellation_allowed = True, is_matching_enabled = True, execution_style = ''continuous''\<rparr>,
      pending_orders = [], last_phase = Some CONTINUOUS\<rparr>"

definition demo_pipeline :: "venue \<Rightarrow> pipeline" where
  "demo_pipeline v =
     \<lparr>p_venue = v, p_windows = [], p_positions = [], p_coordinator = demo_coord, match_queue = [],
      trade_queue = [], position_queue = [], websocket_queue = []\<rparr>"


end
