(* ===== verification/Pipeline_Flow.thy ===== *)
theory Pipeline_Flow
  imports Pipeline_Properties Venue_Properties
begin

text \<open>
  Properties of whole runs of the pipeline: the rate limit, the ledger, the messages.
\<close>

section \<open>The rate limit\<close>

lemma apply_constraints_accepts:
  assumes "apply_constraints reg c cfgs = Inr r" and "status r = ''accepted''"
    and "cfg \<in> set cfgs" and "reg (constraint_type cfg) = Some chk"
  shows "\<exists>v. chk c (parameters cfg) = Inr v \<and> is_valid v"
  using assms
proof (induction cfgs)
  case (Cons x cfgs)
  then show ?case
    by (auto simp: rejection_def split: option.splits sum.splits if_splits)
qed simp

definition limits_rate :: "constraint_config \<Rightarrow> int \<Rightarrow> bool" where
  "limits_rate cfg n \<longleftrightarrow>
     constraint_type cfg = ORDER_RATE \<and>
     map_of (parameters cfg) ''max_orders_per_second'' = Some (PNum (of_int n))"

lemma accepted_below_limit:
  assumes "validate_new_order default_registry cache ps ws t o1 team = Inr r" and "status r = ''accepted''"
    and "cfg \<in> set (get_constraints_for_role cache (role team))" and "limits_rate cfg n"
  shows "get_order_count ws (team_id team) t < n"
proof -
  have "\<exists>v. check_order_rate (order_context ps ws t o1 team) (parameters cfg) = Inr v \<and> is_valid v"
    using assms unfolding validate_new_order_def validate_order_def
    by (intro apply_constraints_accepts [of default_registry _ "get_constraints_for_role cache (role team)" r cfg])
       (simp_all add: order_context_def limits_rate_def)
  then show ?thesis
    using assms(4)
    by (auto simp: check_order_rate_def param_def limits_rate_def Let_def num_less_def le_num_def verdict_def
        order_context_def accept_result_def refuse_def split: if_splits)
qed

text \<open>The count depends on the second only, and an increment in that second adds one.\<close>

lemma count_second: "py_int t = k \<Longrightarrow> get_order_count ws team t = get_order_count ws team (of_int k)"
  by (simp add: get_order_count_def is_current_window_def split: option.split)

lemma count_increment:
  "py_int t = k \<Longrightarrow>
   get_order_count (increment_order_count team t ws) x (of_int k) =
     get_order_count ws x (of_int k) + (if x = team then 1 else 0)"
  by (auto simp: get_order_count_def increment_order_count_def is_current_window_def update_key_cases
      split: option.split)

definition queued_for :: "string \<Rightarrow> pipeline \<Rightarrow> int" where
  "queued_for team s = int (length (filter (\<lambda>(o1, t). team_id t = team) (match_queue s)))"

text \<open>The messages of one second, those of a team under its role.\<close>

definition in_second :: "int \<Rightarrow> string \<Rightarrow> string \<Rightarrow> readings \<times> order_message option \<Rightarrow> bool" where
  "in_second k team rl e \<longleftrightarrow>
     (case e of (ts, msg) \<Rightarrow> py_int (t_count ts) = k \<and> py_int (t_increment ts) = k \<and>
        (case msg of Some (New_order o1 tm rid) \<Rightarrow> team_id tm = team \<longrightarrow> role tm = rl | _ \<Rightarrow> True))"

lemma validator_step_counts:
  assumes "in_second k team rl (ts, Some msg)" and "cfg \<in> set (get_constraints_for_role cache rl)"
    and "limits_rate cfg n" and "validator_step default_registry cache ts msg (l, s) = (l', s')"
  shows "queued_for team s' - queued_for team s =
      get_order_count (p_windows s') team (of_int k) - get_order_count (p_windows s) team (of_int k) \<and>
    get_order_count (p_windows s') team (of_int k) \<le> max n (get_order_count (p_windows s) team (of_int k)) \<and>
    get_order_count (p_windows s) team (of_int k) \<le> get_order_count (p_windows s') team (of_int k)"
proof (cases msg)
  case (New_order o1 tm rid)
  show ?thesis
  proof (cases "validate_new_order default_registry cache (p_positions s) (p_windows s) (t_count ts) o1 tm")
    case (Inl e)
    then show ?thesis using assms(4) New_order by (auto simp: handle_new_order_validation_def queued_for_def)
  next
    case (Inr r)
    show ?thesis
    proof (cases "status r = ''accepted''")
      case False
      then show ?thesis
        using assms(4) New_order Inr
        by (auto simp: handle_new_order_validation_def queued_for_def handle_unexpected_status_def Let_def
            split: option.splits if_splits)
    next
      case True
      then have s': "p_windows s' = increment_order_count (team_id tm) (t_increment ts) (p_windows s)"
        "match_queue s' = match_queue s @ [(o1, tm)]"
        using assms(4) New_order Inr by (auto simp: handle_new_order_validation_def)
      have k: "py_int (t_count ts) = k" "py_int (t_increment ts) = k"
        using assms(1) by (simp_all add: in_second_def)
      have "get_order_count (p_windows s) team (of_int k) < n" if "team_id tm = team"
      proof -
        have "cfg \<in> set (get_constraints_for_role cache (role tm))"
          using assms(1,2) New_order that by (simp add: in_second_def)
        from accepted_below_limit [OF Inr True this assms(3)] that count_second [OF k(1)] show ?thesis by simp
      qed
      then show ?thesis
        using count_increment [OF k(2), of "team_id tm" "p_windows s" team] s' by (auto simp: queued_for_def)
    qed
  qed
next
  case (Cancel_order oid tm rid)
  then show ?thesis
    using assms(4)
    by (auto simp: handle_order_cancellation_def queued_for_def Let_def split: prod.splits sum.splits if_splits)
qed (use assms(4) in \<open>auto simp: queued_for_def\<close>)

text \<open>
  C19: The rate limit holds across checks and increments: of all the messages the validator
  handles within one second, it passes on at most as many orders of a team as the limit
  of the team's role leaves over at the start.
\<close>

theorem rate_limit_enforced:
  assumes "\<forall>e \<in> set q. in_second k team rl e" and "cfg \<in> set (get_constraints_for_role cache rl)"
    and "limits_rate cfg n" and "validator_thread default_registry cache q (l, s) = (l', s')"
  shows "queued_for team s' - queued_for team s \<le>
    max 0 (n - get_order_count (p_windows s) team (of_int k))"
proof -
  have "queued_for team s' - queued_for team s =
      get_order_count (p_windows s') team (of_int k) - get_order_count (p_windows s) team (of_int k) \<and>
    get_order_count (p_windows s') team (of_int k) \<le> max n (get_order_count (p_windows s) team (of_int k))"
    using assms(1,4)
  proof (induction q arbitrary: l s)
    case (Cons e q)
    obtain ts m where e: "e = (ts, m)" by fastforce
    show ?case
    proof (cases m)
      case None
      then show ?thesis using Cons.prems e by simp
    next
      case (Some msg)
      obtain l1 s1 where s1: "validator_step default_registry cache ts msg (l, s) = (l1, s1)" by fastforce
      have "in_second k team rl (ts, Some msg)" using Cons.prems(1) e Some by simp
      from validator_step_counts [OF this assms(2,3) s1] Cons.IH [of l1 s1] Cons.prems s1 e Some show ?thesis
        by simp linarith
    qed
  qed simp
  then show ?thesis by linarith
qed

definition two_per_second :: constraint_config where
  "two_per_second =
     \<lparr>constraint_type = ORDER_RATE, parameters = [(''max_orders_per_second'', PNum (of_int 2))],
      cc_error_code = ''RATE'', cc_error_message = lit ''Too many orders''\<rparr>"

theorem rate_limit_enforced_witness:
  "let e = (\<lparr>t_count = 0, t_increment = 0, t_notify = 0\<rparr>, Some (New_order fill_order (demo_team ''T1'') demo_id));
       st = validator_thread default_registry [(role (demo_team ''T1''), [two_per_second])] [e, e, e] (None, demo_pipeline unlisted_venue)
   in queued_for ''T1'' (snd st) \<le> 2"
proof -
  let ?e = "(\<lparr>t_count = 0, t_increment = 0, t_notify = 0\<rparr>, Some (New_order fill_order (demo_team ''T1'') demo_id))"
  let ?cache = "[(role (demo_team ''T1''), [two_per_second])]"
  let ?st = "validator_thread default_registry ?cache [?e, ?e, ?e] (None, demo_pipeline unlisted_venue)"
  have sec: "\<forall>e \<in> set [?e, ?e, ?e]. in_second 0 ''T1'' (role (demo_team ''T1'')) e"
    using py_int_of_int [of 0] by (simp add: in_second_def)
  have lim: "limits_rate two_per_second 2" by (simp add: limits_rate_def two_per_second_def)
  have "queued_for ''T1'' (snd ?st) - queued_for ''T1'' (demo_pipeline unlisted_venue) \<le>
      max 0 (2 - get_order_count (p_windows (demo_pipeline unlisted_venue)) ''T1'' (of_int 0))"
    by (rule rate_limit_enforced [OF sec _ lim, where cache = ?cache and l = None and l' = "fst ?st"])
       (simp_all add: get_constraints_for_role_def)
  then show ?thesis by (simp add: Let_def demo_pipeline_def queued_for_def get_order_count_def)
qed

section \<open>Refusals after a success\<close>

text \<open>
  C37: A client that was told success is not told when the exchange then refuses its order:
  when the phase does not accept orders, the instrument is not listed or the id is taken,
  the matching thread leaves the venue, the coordinator and the websocket queue as they
  are, whatever error result the service would have made of it, and hands on at most a
  result without fills.
\<close>

theorem refusal_is_silent:
  assumes "\<not> is_order_submission_allowed (current_phase_state (p_venue s)) \<or>
      map_of (order_books (p_venue s)) (instrument_id o1) = None \<or> order_id o1 \<in> all_order_ids (p_venue s)"
    and "process_single_order (o1, team) s = s'"
  shows "p_venue s' = p_venue s \<and> p_coordinator s' = p_coordinator s \<and>
    websocket_queue s' = websocket_queue s \<and> p_positions s' = p_positions s \<and>
    (trade_queue s' = trade_queue s \<or>
     (\<exists>r. trade_queue s' = trade_queue s @ [(r, o1, team)] \<and> status r = ''rejected'' \<and>
        (\<forall>fees x. websocket_queue (publish_trade fees (r, o1, team) x) = websocket_queue x) \<and>
        (\<forall>ps. track_result r o1 team ps = ps)))"
  using assms
  by (auto simp: process_single_order_def submit_order_to_exchange_def venue_submit_order_def publish_trade_def
      track_result_def split: option.splits if_splits)

theorem refusal_is_silent_witness:
  "websocket_queue (process_single_order (fill_order, demo_team ''T1'') (demo_pipeline unlisted_venue)) = []"
  using refusal_is_silent [of "demo_pipeline unlisted_venue" fill_order "demo_team ''T1''", OF _ refl]
  by (simp add: demo_pipeline_def unlisted_venue_def)

section \<open>The ledger\<close>

text \<open>The fills of the order the matching thread takes next.\<close>

definition matched :: "validator_state \<Rightarrow> trade list" where
  "matched st =
     (case match_queue (snd st) of
        [] \<Rightarrow> []
      | (o1, team) # q \<Rightarrow>
          (case submit_order_to_exchange o1 (p_venue (snd st)) of (Inr r, _, _) \<Rightarrow> fills r | _ \<Rightarrow> []))"

text \<open>Orders come from their constructor and belong to the team that sends them.\<close>

definition own_order :: "order \<Rightarrow> team_info \<Rightarrow> bool" where
  "own_order o1 team \<longleftrightarrow> fresh_order o1 \<and> trader_id o1 = team_id team"

fun event_ok :: "pipeline_event \<Rightarrow> bool" where
  "event_ok (Validate ts (New_order o1 team rid)) \<longleftrightarrow> own_order o1 team"
| "event_ok _ \<longleftrightarrow> True"

definition quiet :: "pipeline \<Rightarrow> bool" where
  "quiet s \<longleftrightarrow> venue_wf (p_venue s) \<and> match_queue s = [] \<and> trade_queue s = [] \<and>
     position_queue s = [] \<and> websocket_queue s = []"

text \<open>Runs, with the trades the continuous engine has executed so far.\<close>

inductive pipe_reachable :: "settings \<Rightarrow> pipeline \<Rightarrow> validator_state \<Rightarrow> trade list \<Rightarrow> bool" for cfg s0 where
  pipe_start: "quiet s0 \<Longrightarrow> pipe_reachable cfg s0 (None, s0) []"
| pipe_step: "pipe_reachable cfg s0 st ex \<Longrightarrow> event_ok ev \<Longrightarrow>
    pipe_reachable cfg s0 (pipeline_step cfg ev st) (ex @ (if ev = Match then matched st else []))"

definition item_ok :: "order_result \<times> order \<times> team_info \<Rightarrow> bool" where
  "item_ok e \<longleftrightarrow> (case e of (r, o1, team) \<Rightarrow> \<forall>t \<in> set (fills r). own_fill o1 team t)"

definition in_flight :: "pipeline \<Rightarrow> trade list" where
  "in_flight s = concat (map (fills \<circ> fst) (position_queue s @ trade_queue s))"

text \<open>What the exchange returns for an order are fills of that order.\<close>

lemma submit_fills_own:
  assumes wf: "venue_wf v" and own: "own_order o1 team" and run: "venue_submit_order o1 v = (Inr r, o2, v')"
  shows "item_ok (r, o2, team)"
proof (cases "map_of (order_books v) (instrument_id o1)")
  case None
  then show ?thesis using run by (auto simp: venue_submit_order_def item_ok_def split: if_splits)
next
  case (Some b)
  have fr: "fresh_order o1" and tr: "trader_id o1 = team_id team" using own by (simp_all add: own_order_def)
  show ?thesis
  proof (cases "fills r = []")
    case True
    then show ?thesis by (simp add: item_ok_def)
  next
    case False
    then have id: "order_id o1 \<notin> all_order_ids v"
      using run Some by (auto simp: venue_submit_order_def split: if_splits)
    have b: "book_wf b" "book_instrument b = instrument_id o1" using venue_bookD [OF wf Some] by simp_all
    have add: "addable o1 b"
      using fr b id book_ids_known(1) [OF wf Some] by (auto simp: addable_def fresh_order_def)
    obtain r' o' b' where cont: "continuous_submit o1 b = (r', o', b')" by (metis surj_pair)
    obtain ts where a: "add_order o1 b = (None, ts, o', b')" and r': "r' = Inr \<lparr>r_order_id = order_id o1,
        status = order_status o' ts, fills = ts, r_remaining = remaining_quantity o', error_code = None, error_message = None\<rparr>"
      by (rule continuous_submit_spec [OF b(1) add cont]) simp
    have fs: "fills r = ts" "o2 = o'"
      using run Some id cont r' False
      by (auto simp: venue_submit_order_def batch_submit_def Let_def split: if_splits)
    obtain opp where sm: "spec_match (book_instrument b) o1 (side_orders (flip (side o1)) b) = (ts, o', opp)"
      using add_order_spec [OF b(1) add a] by metis
    have pos: "\<forall>x \<in> set (side_orders (flip (side o1)) b). 0 < remaining_quantity x"
      and priced: "\<forall>x \<in> set (side_orders (flip (side o1)) b). price x \<noteq> None"
      using side_orders_positive [OF b(1)] by blast+
    have nonneg: "0 \<le> remaining_quantity o1" using fr by (simp add: fresh_order_def order_ok_def)
    have maker: "maker_order_id o1 t \<noteq> order_id o1" if "t \<in> set ts" for t
    proof -
      have "map (maker_order_id o1) ts = map order_id (take (length ts) (side_orders (flip (side o1)) b))"
        using arg_cong [OF conjunct1 [OF spec_match_prefix [OF sm priced]], of "map fst"] by (simp add: comp_def)
      then have "maker_order_id o1 t \<in> order_id ` set (side_orders (flip (side o1)) b)"
        using that by (metis (no_types, lifting) image_mono image_set set_take_subset subsetD image_eqI)
      then have "maker_order_id o1 t \<in> order_ids b"
        using resting_ids [OF b(1), of "maker_order_id o1 t"] by (auto simp: resting_sides [of _ b "side o1"])
      then show ?thesis using add by (auto simp: addable_def)
    qed
    have "own_fill o2 team t" if "t \<in> set ts" for t
      using spec_match_trades [OF sm nonneg pos] spec_match_fixed [OF sm] maker [OF that] that b(2) tr fs(2)
      by (cases "side o1") (auto simp: own_fill_def initiated_by_def maker_order_id_def is_buy_def)
    then show ?thesis by (simp add: item_ok_def fs)
  qed
qed

text \<open>The invariant of a run.\<close>

definition flow_ok :: "pipeline \<Rightarrow> pipeline \<Rightarrow> trade list \<Rightarrow> bool" where
  "flow_ok s0 s ex \<longleftrightarrow>
     venue_wf (p_venue s) \<and> (\<forall>(o1, team) \<in> set (match_queue s). own_order o1 team) \<and>
     (\<forall>e \<in> set (trade_queue s @ position_queue s). item_ok e) \<and> set (in_flight s) \<subseteq> set ex \<and>
     ((\<forall>t \<in> set ex. \<not> self_trade t) \<longrightarrow>
        (\<forall>x iid. get_position_for_instrument (p_positions s) x iid + net_bought x iid (in_flight s) =
           get_position_for_instrument (p_positions s0) x iid + net_bought x iid ex))"

lemma flow_cong:
  assumes "flow_ok s0 s ex" and "venue_wf (p_venue s')" and "trade_queue s' = trade_queue s"
    and "position_queue s' = position_queue s" and "p_positions s' = p_positions s"
    and "\<And>o1 team. (o1, team) \<in> set (match_queue s') \<Longrightarrow> (o1, team) \<in> set (match_queue s) \<or> own_order o1 team"
  shows "flow_ok s0 s' ex"
proof -
  have "in_flight s' = in_flight s" using assms(3,4) by (simp add: in_flight_def)
  moreover have "\<forall>(o1, team) \<in> set (match_queue s'). own_order o1 team"
    using assms(1,6) unfolding flow_ok_def by blast
  ultimately show ?thesis
    using assms(1-5) unfolding flow_ok_def by simp
qed

lemma flow_validate:
  assumes ok: "flow_ok s0 s ex" and ev: "event_ok (Validate ts msg)"
    and run: "validator_step reg cache ts msg (l, s) = (l', s')"
  shows "flow_ok s0 s' ex"
proof -
  have wf: "venue_wf (p_venue s)" using ok by (simp add: flow_ok_def)
  show ?thesis
  proof (cases msg)
    case (New_order o1 team rid)
    have "p_venue s' = p_venue s \<and> trade_queue s' = trade_queue s \<and> position_queue s' = position_queue s \<and>
        p_positions s' = p_positions s \<and> set (match_queue s') \<subseteq> insert (o1, team) (set (match_queue s))"
      using run New_order
      by (auto simp: handle_new_order_validation_def handle_unexpected_status_def Let_def
          split: sum.splits option.splits if_splits)
    then show ?thesis using ok wf ev New_order by (intro flow_cong [OF ok]) auto
  next
    case (Cancel_order oid team rid)
    obtain r v where c: "venue_cancel_order oid (team_id team) (p_venue s) = (r, v)" by fastforce
    have "p_venue s' = v \<and> trade_queue s' = trade_queue s \<and> position_queue s' = position_queue s \<and>
        p_positions s' = p_positions s \<and> match_queue s' = match_queue s"
      using run Cancel_order c
      by (auto simp: handle_order_cancellation_def validate_cancellation_def Let_def
          split: sum.splits option.splits if_splits exn.splits bool.splits)
    then show ?thesis using venue_wf_cancel [OF wf c] by (intro flow_cong [OF ok]) auto
  qed (use run wf ok in \<open>auto intro: flow_cong [OF ok]\<close>)
qed

lemma flow_match:
  assumes ok: "flow_ok s0 s ex" and q: "match_queue s = (o1, team) # q"
  shows "flow_ok s0 (process_single_order (o1, team) (s\<lparr>match_queue := q\<rparr>)) (ex @ matched (l, s))"
proof -
  let ?s = "s\<lparr>match_queue := q\<rparr>"
  have wf: "venue_wf (p_venue s)" and own: "own_order o1 team" using ok q by (auto simp: flow_ok_def)
  obtain r o2 v where run: "venue_submit_order o1 (p_venue s) = (r, o2, v)" by (metis surj_pair)
  have wf': "venue_wf v" using venue_wf_submit [OF wf _ run] own by (simp add: own_order_def)
  show ?thesis
  proof (cases r)
    case (Inl e)
    then have "process_single_order (o1, team) ?s = ?s\<lparr>p_venue := v\<rparr>" "matched (l, s) = []"
      using run q by (simp_all add: process_single_order_def submit_order_to_exchange_def matched_def)
    with wf' q show ?thesis by (auto intro!: flow_cong [OF ok])
  next
    case (Inr x)
    let ?s' = "process_single_order (o1, team) ?s"
    have s': "p_venue ?s' = v" "match_queue ?s' = q" "trade_queue ?s' = trade_queue s @ [(x, o2, team)]"
      "position_queue ?s' = position_queue s" "p_positions ?s' = p_positions s"
      using run q Inr by (simp_all add: process_single_order_def submit_order_to_exchange_def Let_def)
    have m: "matched (l, s) = fills x"
      using run q Inr by (simp add: matched_def submit_order_to_exchange_def)
    have fl: "in_flight ?s' = in_flight s @ fills x" by (simp add: in_flight_def s')
    have "item_ok (x, o2, team)" using submit_fills_own [OF wf own] run Inr by blast
    then show ?thesis
      using ok wf' q unfolding flow_ok_def by (simp add: s' m fl) blast
  qed
qed

lemma publish_fills_selectors [simp]:
  "p_venue (publish_fills fees o1 team ts s) = p_venue s"
  "p_positions (publish_fills fees o1 team ts s) = p_positions s"
  "match_queue (publish_fills fees o1 team ts s) = match_queue s"
  "trade_queue (publish_fills fees o1 team ts s) = trade_queue s"
  "position_queue (publish_fills fees o1 team ts s) = position_queue s"
  by (induction ts arbitrary: s) (simp_all add: Let_def split: sum.split)

lemma flow_publish:
  assumes ok: "flow_ok s0 s ex" and q: "trade_queue s = e # q"
  shows "flow_ok s0 (publish_trade fees e (s\<lparr>trade_queue := q\<rparr>)) ex"
proof -
  let ?s' = "publish_trade fees e (s\<lparr>trade_queue := q\<rparr>)"
  have s': "p_venue ?s' = p_venue s" "match_queue ?s' = match_queue s" "trade_queue ?s' = q"
    "position_queue ?s' = position_queue s @ [e]" "p_positions ?s' = p_positions s"
    by (simp_all add: publish_trade_def split: prod.split)
  have "in_flight ?s' = in_flight s" by (simp add: in_flight_def s' q)
  moreover have "set (trade_queue ?s' @ position_queue ?s') = set (trade_queue s @ position_queue s)"
    by (auto simp: s' q)
  ultimately show ?thesis using ok unfolding flow_ok_def by (simp only: s') blast
qed

lemma flow_track:
  assumes ok: "flow_ok s0 s ex" and q: "position_queue s = (r, o1, team) # q"
  shows "flow_ok s0 (s\<lparr>position_queue := q, p_positions := track_result r o1 team (p_positions s)\<rparr>) ex"
proof -
  let ?s' = "s\<lparr>position_queue := q, p_positions := track_result r o1 team (p_positions s)\<rparr>"
  have own: "\<forall>t \<in> set (fills r). own_fill o1 team t" using ok q by (auto simp: flow_ok_def item_ok_def)
  have fl: "in_flight s = fills r @ in_flight ?s'" by (simp add: in_flight_def q)
  have "get_position_for_instrument (p_positions ?s') x iid =
      get_position_for_instrument (p_positions s) x iid + net_bought x iid (fills r)"
    if "\<forall>t \<in> set ex. \<not> self_trade t" for x iid
  proof -
    have "\<forall>t \<in> set (fills r). \<not> self_trade t" using that ok fl by (auto simp: flow_ok_def)
    then show ?thesis
      using track_fills_booked [OF own, of "p_positions s" x iid] sum_booked_net by (simp add: track_result_def)
  qed
  then show ?thesis using ok q unfolding flow_ok_def fl by (auto simp: add.assoc)
qed

lemma flow_check:
  assumes ok: "flow_ok s0 s ex"
  shows "flow_ok s0 (s\<lparr>p_venue := snd (check_phase_transitions draw ps (p_venue s))\<rparr>) ex"
proof -
  have wf: "venue_wf (p_venue s)" using ok by (simp add: flow_ok_def)
  obtain e v where c: "check_phase_transitions draw ps (p_venue s) = (e, v)" by fastforce
  have "venue_wf v"
  proof (cases ps)
    case (Inl x)
    with c wf show ?thesis by (auto simp: check_phase_transitions_def)
  next
    case (Inr p)
    with c check_phase_transitions_ok [OF wf, of draw p e v] show ?thesis by simp
  qed
  then show ?thesis by (intro flow_cong [OF ok]) (simp_all add: c)
qed

lemma flow_step:
  assumes ok: "flow_ok s0 s ex" and ev: "event_ok ev" and run: "pipeline_step cfg ev (l, s) = (l', s')"
  shows "flow_ok s0 s' (ex @ (if ev = Match then matched (l, s) else []))"
proof (cases ev)
  case (Validate ts msg)
  then show ?thesis using flow_validate [OF ok] ev run by (cases cfg) auto
next
  case Match
  then show ?thesis
    using flow_match [OF ok] run ok by (cases "match_queue s") (auto simp: matched_def)
next
  case (Check_phases draw ps)
  then show ?thesis using flow_check [OF ok, of draw ps] run by (cases cfg) auto
next
  case Publish
  then show ?thesis using flow_publish [OF ok] run ok by (cases cfg; cases "trade_queue s") auto
next
  case Track
  then show ?thesis using flow_track [OF ok] run ok by (cases cfg; cases "position_queue s") auto
qed

lemma pipe_reachable_flow: "pipe_reachable cfg s0 st ex \<Longrightarrow> flow_ok s0 (snd st) ex"
proof (induction rule: pipe_reachable.induct)
  case pipe_start
  then show ?case by (auto simp: flow_ok_def quiet_def in_flight_def)
next
  case (pipe_step st ex ev)
  obtain l s where st: "st = (l, s)" by fastforce
  obtain l' s' where run: "pipeline_step cfg ev (l, s) = (l', s')" by fastforce
  from flow_step [OF _ pipe_step.hyps(2) run, of s0 ex] pipe_step.IH show ?case
    unfolding st run by simp
qed


text \<open>A run: the buy order of \<open>Book_Properties\<close> goes through the whole line.\<close>

definition open_venue :: venue where
  "open_venue = demo_venue (phase_of CONTINUOUS True ''continuous'') CONTINUOUS"

definition buyer :: team_info where
  "buyer = \<lparr>team_id = ''T4'', team_name = ''Four'', role = ''market_maker'', api_key = ''k4''\<rparr>"

lemma open_venue_fills:
  obtains r o2 v where "venue_submit_order demo_buy open_venue = (Inr r, o2, v)"
    and "\<forall>t \<in> set (fills r). \<not> self_trade t" and "net_bought ''T4'' ''SPX'' (fills r) = 7"
proof -
  obtain r o2 b' where c: "continuous_submit demo_buy demo_book = (r, o2, b')" by (metis surj_pair)
  obtain ts where a: "add_order demo_buy demo_book = (None, ts, o2, b')" and r: "r = Inr \<lparr>r_order_id = order_id demo_buy,
      status = order_status o2 ts, fills = ts, r_remaining = remaining_quantity o2, error_code = None, error_message = None\<rparr>"
    by (rule continuous_submit_spec [OF demo_book_wf demo_buy_addable c]) simp
  obtain opp where "spec_match ''SPX'' demo_buy (side_orders SELL demo_book) = (ts, o2, opp)"
    using add_order_spec [OF demo_book_wf demo_buy_addable a] by (auto simp: demo_buy_def)
  then have "(\<forall>t \<in> set ts. \<not> self_trade t) \<and> net_bought ''T4'' ''SPX'' ts = 7"
    by (auto simp: demo_buy_def is_filled_def beyond_limit_def is_buy_def is_sell_def Let_def self_trade_def
        match_trade_def split: prod.splits if_splits)
  moreover have "venue_submit_order demo_buy open_venue = (r, o2, open_venue
      \<lparr>all_order_ids := insert ''x'' {''b1'', ''a1'', ''a2''}, order_books := [(''SPX'', b')]\<rparr>)"
    using c by (simp add: venue_submit_order_def open_venue_def demo_buy_def should_use_batch_engine_def Let_def)
  ultimately show thesis using that r by simp
qed


end
