(* ===== verification/Pipeline_Messages.thy ===== *)
theory Pipeline_Messages
  imports Pipeline_Flow
begin

text \<open>
  What reaches a client's socket: the forms of message the pipeline puts on the websocket
  queue, and what the websocket thread makes of each.
\<close>

section \<open>The messages of the pipeline\<close>

definition reject_data :: "order \<Rightarrow> msg \<Rightarrow> string \<Rightarrow> ws_data" where
  "reject_data o1 message code =
     [(''order_id'', vstr (order_id o1)), (''client_order_id'', vopt vstr (client_order_id o1)),
      (''reason'', VStr message), (''error_code'', vstr code)]"

inductive pipeline_message :: "ws_item \<Rightarrow> bool" where
  ack_message: "pipeline_message (''new_order_ack'', tid, ack_data o1 r)"
| reject_message: "pipeline_message (''new_order_reject'', tid, reject_data o1 message code)"
| report_message: "pipeline_message (''execution_report'', tid, report_data o1 team t l fee)"
| cancel_ack_message: "pipeline_message (''cancel_ack'', tid, d)"
| cancel_reject_message: "pipeline_message (''cancel_reject'', tid, d)"

lemma put_ws_queue [simp]: "websocket_queue (put_ws ty team d s) = websocket_queue s @ [(ty, team, d)]"
  by (simp add: put_ws_def)

lemma validator_messages:
  assumes "\<forall>i \<in> set (websocket_queue s). pipeline_message i" and "validator_step reg cache ts msg (l, s) = (l', s')"
  shows "\<forall>i \<in> set (websocket_queue s'). pipeline_message i"
proof (cases msg)
  case (New_order o1 team rid)
  then show ?thesis
    using assms
    by (auto simp: handle_new_order_validation_def handle_unexpected_status_def Let_def
        reject_message [unfolded reject_data_def] split: sum.splits option.splits if_splits)
next
  case (Cancel_order oid team rid)
  then show ?thesis
    using assms
    by (auto simp: handle_order_cancellation_def Let_def cancel_ack_message cancel_reject_message
        split: sum.splits prod.splits if_splits)
qed (use assms in auto)

lemma publish_messages:
  "\<forall>i \<in> set (websocket_queue s). pipeline_message i \<Longrightarrow>
   \<forall>i \<in> set (websocket_queue (publish_fills fees o1 team ts s)). pipeline_message i"
proof (induction ts arbitrary: s)
  case (Cons t ts)
  show ?case
  proof (cases "calculate_fee fees (t_quantity t) (role team) (determine_liquidity_type (aggressor_side t) (side_value (side o1)))")
    case (Inr fee)
    have "\<forall>i \<in> set (websocket_queue (put_ws ''execution_report'' (team_id team)
        (report_data o1 team t (determine_liquidity_type (aggressor_side t) (side_value (side o1))) fee) s)). pipeline_message i"
      using Cons.prems by (auto intro: report_message)
    from Cons.IH [OF this] Inr show ?thesis by (simp add: Let_def)
  qed (use Cons.prems in \<open>simp add: Let_def\<close>)
qed simp

lemma pipeline_messages: "pipe_reachable cfg s0 st ex \<Longrightarrow> \<forall>i \<in> set (websocket_queue (snd st)). pipeline_message i"
proof (induction rule: pipe_reachable.induct)
  case pipe_start
  then show ?case by (simp add: quiet_def)
next
  case (pipe_step st ex ev)
  obtain l s where st: "st = (l, s)" by fastforce
  obtain reg cache fees where cfg: "cfg = (reg, cache, fees)" by (cases cfg) auto
  have old: "\<forall>i \<in> set (websocket_queue s). pipeline_message i" using pipe_step.IH st by simp
  show ?case
  proof (cases ev)
    case (Validate ts msg)
    obtain l' s' where "validator_step reg cache ts msg (l, s) = (l', s')" by fastforce
    with validator_messages [OF old this] Validate show ?thesis by (simp add: st cfg)
  next
    case Match
    with old show ?thesis
      by (auto simp: st cfg process_single_order_def submit_order_to_exchange_def Let_def ack_message
          split: list.splits prod.splits sum.splits)
  next
    case Publish
    show ?thesis
    proof (cases "trade_queue s")
      case (Cons e q)
      obtain r o1 team where e: "e = (r, o1, team)" by (cases e) auto
      have "\<forall>i \<in> set (websocket_queue (s\<lparr>trade_queue := q, position_queue := position_queue s @ [e]\<rparr>)). pipeline_message i"
        using old by simp
      from publish_messages [OF this] Publish Cons e show ?thesis by (simp add: st cfg publish_trade_def)
    qed (use old Publish in \<open>simp add: st cfg\<close>)
  qed (use old in \<open>auto simp: st cfg split: list.splits\<close>)
qed

section \<open>Their way to the socket\<close>

text \<open>A manager whose teams all have a counter, with sends that succeed.\<close>

lemma route_ack: "route_websocket_message ok ''new_order_ack'' tid (ack_data o1 r) m =
    (Raised (TypeError [Txt ''got an unexpected keyword argument '', Txt ''status'']), m)"
  by (simp add: route_websocket_message_def call_with_def bind_kwargs_def new_order_ack_params_def
      required_def ack_data_def)

lemma route_report: "route_websocket_message ok ''execution_report'' tid (report_data o1 team t l fee) m =
    (Raised (TypeError [Txt ''got an unexpected keyword argument '', Txt ''order_id'']), m)"
  by (simp add: route_websocket_message_def call_with_def bind_kwargs_def trade_execution_params_def
      required_def report_data_def)

lemma route_cancel: "ty = ''cancel_ack'' \<or> ty = ''cancel_reject'' \<Longrightarrow>
    route_websocket_message ok ty tid d m = (Finished (), m)"
  by (auto simp: route_websocket_message_def)

lemma route_reject: "route_websocket_message ok ''new_order_reject'' tid (reject_data o1 message code) m =
    send_to_team ok tid NEW_ORDER_REJECT
      (build_new_order_reject (vstr (order_id o1)) (vopt vstr (client_order_id o1)) (VStr message) (vstr code)) m"
  by (simp add: route_websocket_message_def call_with_def bind_kwargs_def new_order_reject_params_def
      required_def reject_data_def broadcast_new_order_reject_def)

text \<open>The rejects a queue holds for the team connected on a socket.\<close>

fun rejects_for :: "ws_item list \<Rightarrow> string \<Rightarrow> nat" where
  "rejects_for [] tid = 0"
| "rejects_for ((ty, t, d) # q) tid = (if ty = ''new_order_reject'' \<and> t = tid then 1 else 0) + rejects_for q tid"

definition delivers_rejects :: "ws_manager \<Rightarrow> ws_manager \<Rightarrow> (string \<Rightarrow> nat) \<Rightarrow> bool" where
  "delivers_rejects m m' n \<longleftrightarrow>
     active_connections m' = active_connections m \<and>
     (\<forall>tid ws. map_of (active_connections m) tid = Some ws \<longrightarrow>
        (\<exists>new. outbox m' ws = outbox m ws @ new \<and> length new = n tid \<and>
           (\<forall>x \<in> set new. m_type x = ''new_order_reject'')))"

lemma delivers_rejectsD:
  assumes "delivers_rejects m m' n"
  shows "active_connections m' = active_connections m"
    and "map_of (active_connections m) tid = Some ws \<Longrightarrow>
      \<exists>new. outbox m' ws = outbox m ws @ new \<and> length new = n tid \<and> (\<forall>x \<in> set new. m_type x = ''new_order_reject'')"
  using assms unfolding delivers_rejects_def by blast+

lemma delivers_rejects_trans:
  assumes "delivers_rejects m m1 f" and "delivers_rejects m1 m2 g"
  shows "delivers_rejects m m2 (\<lambda>tid. f tid + g tid)"
  unfolding delivers_rejects_def
proof (intro conjI allI impI)
  show "active_connections m2 = active_connections m"
    using delivers_rejectsD(1) [OF assms(1)] delivers_rejectsD(1) [OF assms(2)] by simp
  fix tid ws
  assume c: "map_of (active_connections m) tid = Some ws"
  then have c1: "map_of (active_connections m1) tid = Some ws" by (simp add: delivers_rejectsD(1) [OF assms(1)])
  obtain a where a: "outbox m1 ws = outbox m ws @ a" "length a = f tid" "\<forall>x \<in> set a. m_type x = ''new_order_reject''"
    using delivers_rejectsD(2) [OF assms(1) c] by blast
  obtain b where b: "outbox m2 ws = outbox m1 ws @ b" "length b = g tid" "\<forall>x \<in> set b. m_type x = ''new_order_reject''"
    using delivers_rejectsD(2) [OF assms(2) c1] by blast
  show "\<exists>new. outbox m2 ws = outbox m ws @ new \<and> length new = f tid + g tid \<and>
      (\<forall>x \<in> set new. m_type x = ''new_order_reject'')"
    using a b by (intro exI [of _ "a @ b"]) auto
qed

lemma send_reject_delivers:
  assumes ok: "ws_ok m" and "\<not> lock_held m" and "map_of (active_connections m) tid = Some ws"
  obtains m' where "send_to_team (\<lambda>_ _. True) tid NEW_ORDER_REJECT d m = (Finished (), m')"
    and "ws_ok m'" and "\<not> lock_held m'" and "delivers_rejects m m' (\<lambda>t. if t = tid then 1 else 0)"
proof -
  obtain n where n: "map_of (sequence_numbers m) tid = Some n" using assms(1,3) unfolding ws_ok_def by blast
  let ?m' = "m\<lparr>sequence_numbers := AList.update tid (n + 1) (sequence_numbers m),
    outbox := (outbox m)(ws := outbox m ws @ [\<lparr>m_seq = n + 1, m_type = ''new_order_reject'', m_data = d\<rparr>])\<rparr>"
  have s: "send_to_team (\<lambda>_ _. True) tid NEW_ORDER_REJECT d m = (Finished (), ?m')"
    using assms(2,3) n by (simp add: send_to_team_def Let_def)
  have uniq: "t = tid" if "map_of (active_connections m) t = Some ws" for t
    using ok that assms(3) unfolding ws_ok_def by blast
  have "delivers_rejects m ?m' (\<lambda>t. if t = tid then 1 else 0)"
    unfolding delivers_rejects_def
  proof (intro conjI allI impI)
    fix t w
    assume "map_of (active_connections m) t = Some w"
    then have "w = ws \<longleftrightarrow> t = tid" using uniq assms(3) by (metis option.inject)
    then show "\<exists>new. outbox ?m' w = outbox m w @ new \<and> length new = (if t = tid then 1 else 0) \<and>
        (\<forall>x \<in> set new. m_type x = ''new_order_reject'')"
      by (cases "t = tid") auto
  qed simp
  moreover have "ws_ok ?m'" using ws_ok_send [OF ok, of "\<lambda>_ _. True" tid NEW_ORDER_REJECT d] s by simp
  ultimately show thesis using that s assms(2) by simp
qed

lemma loop_delivers:
  "\<forall>i \<in> set q. pipeline_message i \<Longrightarrow> ws_ok m \<Longrightarrow> \<not> lock_held m \<Longrightarrow>
   \<exists>m'. websocket_async_loop (\<lambda>_ _. True) (map Some q) m = (False, m') \<and> delivers_rejects m m' (rejects_for q)"
proof (induction q arbitrary: m)
  case Nil
  then show ?case by (simp add: delivers_rejects_def)
next
  case (Cons i q)
  obtain ty tid d where i: "i = (ty, tid, d)" by (cases i) auto
  have pm: "pipeline_message (ty, tid, d)" using Cons.prems(1) i by simp
  show ?case
  proof (cases "is_connected tid m \<and> ty = ''new_order_reject''")
    case True
    then obtain ws where ws: "map_of (active_connections m) tid = Some ws" by (auto simp: is_connected_iff)
    obtain o1 message code where d: "d = reject_data o1 message code"
      using pm True by (auto elim: pipeline_message.cases)
    obtain m1 where m1: "route_websocket_message (\<lambda>_ _. True) ty tid d m = (Finished (), m1)"
      "ws_ok m1" "\<not> lock_held m1" "delivers_rejects m m1 (\<lambda>t. if t = tid then 1 else 0)"
      using send_reject_delivers [OF Cons.prems(2,3) ws] True route_reject d by metis
    obtain m' where m': "websocket_async_loop (\<lambda>_ _. True) (map Some q) m1 = (False, m')" "delivers_rejects m1 m' (rejects_for q)"
      using Cons.IH [OF _ m1(2,3)] Cons.prems(1) by auto
    have eq: "(\<lambda>t. (if t = tid then 1 else 0) + rejects_for q t) = rejects_for (i # q)"
      using True i by (auto simp: fun_eq_iff)
    have "websocket_async_loop (\<lambda>_ _. True) (map Some (i # q)) m = (False, m')"
      using m'(1) m1(1) True i by simp
    then show ?thesis using delivers_rejects_trans [OF m1(4) m'(2)] unfolding eq by blast
  next
    case False
    obtain m' where m': "websocket_async_loop (\<lambda>_ _. True) (map Some q) m = (False, m')" "delivers_rejects m m' (rejects_for q)"
      using Cons.IH [OF _ Cons.prems(2,3)] Cons.prems(1) by auto
    have step: "websocket_async_loop (\<lambda>_ _. True) (map Some (i # q)) m = (False, m')"
    proof (cases "is_connected tid m")
      case True
      with False pm m'(1) show ?thesis
        by (auto simp: i route_ack route_report route_cancel elim!: pipeline_message.cases)
    qed (simp add: i m'(1))
    have "rejects_for (i # q) t = rejects_for q t" if "map_of (active_connections m) t = Some ws" for t ws
      using False that by (auto simp: i is_connected_iff)
    then have "delivers_rejects m m' (rejects_for (i # q))"
      using m'(2) by (simp add: delivers_rejects_def)
    with step show ?thesis by blast
  qed
qed

text \<open>
  C20: Of everything the pipeline tells its clients, only the rejections of the validator
  arrive. Whatever run filled the websocket queue, and with every send succeeding, the
  websocket thread delivers to a connected team exactly its new_order_reject messages:
  acknowledgements and execution reports raise a TypeError, because their data do not fit
  the parameters of the manager's methods, and the two cancellation messages are routed
  nowhere.
\<close>

theorem clients_receive_only_rejects:
  assumes "pipe_reachable cfg s0 (l, s) ex" and "ws_reachable m" and "\<not> lock_held m"
  shows "\<exists>m'. websocket_async_loop (\<lambda>_ _. True) (map Some (websocket_queue s)) m = (False, m') \<and>
    (\<forall>tid ws. map_of (active_connections m) tid = Some ws \<longrightarrow>
       (\<exists>new. outbox m' ws = outbox m ws @ new \<and> length new = rejects_for (websocket_queue s) tid \<and>
          (\<forall>x \<in> set new. m_type x = ''new_order_reject'')))"
  using loop_delivers [OF _ ws_reachable_ok [OF assms(2)] assms(3), of "websocket_queue s"]
    pipeline_messages [OF assms(1)]
  by (auto simp: delivers_rejects_def)

theorem clients_receive_only_rejects_witness:
  "\<exists>m'. websocket_async_loop (\<lambda>_ _. True) (map Some (websocket_queue (demo_pipeline open_venue))) connected = (False, m') \<and>
     outbox m' 1 = []"
proof -
  have "pipe_reachable (default_registry, [], []) (demo_pipeline open_venue) (None, demo_pipeline open_venue) []"
    by (rule pipe_start) (simp add: quiet_def demo_pipeline_def open_venue_def demo_venue_wf)
  from clients_receive_only_rejects [OF this connected_reachable] show ?thesis
    by (auto simp: connected_eq demo_pipeline_def)
qed

end
