(* ===== verification/Game.thy ===== *)
theory Game
  imports Positions Api_Models
begin

text \<open>
  Teams and their accounts: \<open>domain/game/game_service.py\<close>, the authentication dependency
  \<open>infrastructure/api/auth.py\<close>, and the endpoints of \<open>api/endpoints/game.py\<close> and
  \<open>api/endpoints/positions.py\<close>. The secret token of a registration, the rendered creation
  time and the request id built from the clock are arguments.
\<close>

section \<open>The game service\<close>

record game_service =
  teams :: "(string, team_info) dict"
  api_key_to_team :: "(string, string) dict"
  team_counter :: nat

definition new_game :: game_service where
  "new_game = \<lparr>teams = [], api_key_to_team = [], team_counter = 0\<rparr>"

definition make_team_id :: "nat \<Rightarrow> string" where
  "make_team_id n = ''TEAM_'' @ zero_pad 3 (decimal n)"

definition register_team :: "string \<Rightarrow> string \<Rightarrow> string \<Rightarrow> game_service \<Rightarrow> team_info \<times> game_service" where
  "register_team name rl token g =
     (let n = team_counter g + 1;
          tid = make_team_id n;
          key = ''itg_'' @ token;
          info = \<lparr>team_id = tid, team_name = name, role = rl, api_key = key\<rparr>
      in (info, \<lparr>teams = AList.update tid info (teams g),
                 api_key_to_team = AList.update key tid (api_key_to_team g), team_counter = n\<rparr>))"

definition get_team_by_api_key :: "game_service \<Rightarrow> string \<Rightarrow> team_info option" where
  "get_team_by_api_key g key =
     (case map_of (api_key_to_team g) key of
        None \<Rightarrow> None
      | Some tid \<Rightarrow> if tid = '''' then None else map_of (teams g) tid)"

definition get_team_by_id :: "game_service \<Rightarrow> string \<Rightarrow> team_info option" where
  "get_team_by_id g tid = map_of (teams g) tid"

definition get_team_by_name :: "game_service \<Rightarrow> string \<Rightarrow> team_info option" where
  "get_team_by_name g name = find (\<lambda>t. team_name t = name) (dict_values (teams g))"

section \<open>Authentication\<close>

text \<open>An HTTPException: status code and detail.\<close>

datatype http_error = HTTP_error nat msg

definition get_current_team :: "game_service \<Rightarrow> string option \<Rightarrow> http_error + team_info" where
  "get_current_team g key =
     (case key of
        None \<Rightarrow> Inl (HTTP_error 401 (lit ''Missing API key. Include X-API-Key header.''))
      | Some k \<Rightarrow>
          if k = '''' then Inl (HTTP_error 401 (lit ''Missing API key. Include X-API-Key header.''))
          else case get_team_by_api_key g k of
            None \<Rightarrow> Inl (HTTP_error 401 (lit ''Invalid API key''))
          | Some t \<Rightarrow> Inr t)"

section \<open>Endpoints\<close>

definition register_team_endpoint ::
    "string \<Rightarrow> string \<Rightarrow> string \<Rightarrow> string \<Rightarrow> string \<Rightarrow> game_service \<times> positions \<Rightarrow>
     api_response \<times> game_service \<times> positions" where
  "register_team_endpoint rid token created name rl st =
     (case st of (g, ps) \<Rightarrow>
        if rl \<noteq> ''market_maker'' then
          (error_response rid ''UNSUPPORTED_ROLE'' (lit ''Only market_maker role supported in MVP'')
             (Some [(''requested_role'', PStr rl)]), g, ps)
        else case get_team_by_name g name of
          Some _ \<Rightarrow>
            (error_response rid ''DUPLICATE_TEAM_NAME''
               [Txt (''Team name '' @ quoted name), Txt '' already exists''] None, g, ps)
        | None \<Rightarrow>
            (case register_team name rl token g of
               (info, g') \<Rightarrow>
                 (success_response rid None
                    (Some [(''team_id'', PStr (team_id info)), (''team_name'', PStr (team_name info)),
                           (''role'', PStr (role info)), (''api_key'', PStr (api_key info)),
                           (''created_at'', PStr created)]),
                  g', initialize_team (team_id info) ps)))"

definition get_team_info :: "string \<Rightarrow> string \<Rightarrow> string \<Rightarrow> game_service \<Rightarrow> api_response" where
  "get_team_info rid created tid g =
     (case get_team_by_id g tid of
        None \<Rightarrow> error_response rid ''TEAM_NOT_FOUND'' [Txt ''Team '', Txt tid, Txt '' not found''] None
      | Some info \<Rightarrow>
          success_response rid None
            (Some [(''team_id'', PStr (team_id info)), (''team_name'', PStr (team_name info)),
                   (''role'', PStr (role info)), (''created_at'', PStr created)]))"

definition get_positions_endpoint :: "string \<Rightarrow> string \<Rightarrow> team_info \<Rightarrow> positions \<Rightarrow> api_response" where
  "get_positions_endpoint rid now team ps =
     success_response rid None
       (Some [(''team_id'', PStr (team_id team)),
              (''positions'', PDict (map (\<lambda>(k, q). (k, PNum q)) (get_positions ps (team_id team)))),
              (''last_updated'', PStr now)])"

section \<open>Session data\<close>

text \<open>
  The dataclasses of \<open>domain/game/config.py\<close>, \<open>domain/signals/signal.py\<close>,
  \<open>domain/events/news_event.py\<close> and \<open>domain/underlying/market_data.py\<close>: data without
  operations, which no other code of the repository reads yet. Times of day and moments are
  in seconds.
\<close>

record game_config =
  session_name :: string
  trading_days :: "string list"
  market_open :: rat
  market_close :: rat
  enable_volatility_events :: bool
  enable_news_events :: bool
  bot_timeout_seconds :: rat

definition new_game_config :: "string \<Rightarrow> game_config" where
  "new_game_config name =
     \<lparr>session_name = name, trading_days = [''Tuesday'', ''Thursday''], market_open = 9 * 3600 + 30 * 60,
      market_close = 15 * 3600, enable_volatility_events = True, enable_news_events = True,
      bot_timeout_seconds = 10\<rparr>"

record signal =
  signal_type :: string
  horizon_minutes :: int
  signal_data :: "(string, rat) dict"
  accuracy :: rat

record news_event =
  event_id :: string
  event_type :: string
  description :: string
  impact_magnitude :: rat
  timestamp_announced :: rat

record underlying_market_data =
  umd_symbol :: string
  umd_timestamp :: rat
  umd_price :: rat

section \<open>Accounts\<close>

text \<open>
  The tables of the service agree: team ids are the issued ones, each team is filed under
  its own id and reachable by its own key, and the names of registered teams differ.
\<close>

definition game_ok :: "game_service \<Rightarrow> bool" where
  "game_ok g \<longleftrightarrow>
     distinct (dict_keys (teams g)) \<and>
     (\<forall>(tid, t) \<in> set (teams g). team_id t = tid \<and> (\<exists>n \<le> team_counter g. tid = make_team_id n) \<and>
        map_of (api_key_to_team g) (api_key t) = Some tid \<and> api_key t \<noteq> []) \<and>
     (\<forall>(key, tid) \<in> set (api_key_to_team g). \<exists>t. map_of (teams g) tid = Some t \<and> api_key t = key) \<and>
     distinct (dict_keys (api_key_to_team g)) \<and>
     inj_on (team_name \<circ> snd) (set (teams g))"

lemma game_okD:
  assumes "game_ok g" and "(tid, t) \<in> set (teams g)"
  shows "team_id t = tid" and "\<exists>n \<le> team_counter g. tid = make_team_id n"
    and "map_of (api_key_to_team g) (api_key t) = Some tid" and "map_of (teams g) tid = Some t"
    and "api_key t \<noteq> []"
  using assms unfolding game_ok_def by (blast intro: map_of_is_SomeI)+

lemma make_team_id_inject: "make_team_id m = make_team_id n \<longleftrightarrow> m = n"
proof
  assume "make_team_id m = make_team_id n"
  then have "zero_pad 3 (decimal m) = zero_pad 3 (decimal n)" by (simp add: make_team_id_def)
  then show "m = n" by (metis digits_value_decimal digits_value_zero_pad)
qed simp

lemma make_team_id_nonempty [simp]: "make_team_id n \<noteq> ''''"
  by (simp add: make_team_id_def)

lemma find_None_values:
  "find P (dict_values d) = None \<longleftrightarrow> (\<forall>(k, v) \<in> set d. \<not> P v)"
  by (induction d) auto

lemma register_team_ok:
  assumes ok: "game_ok g" and name: "get_team_by_name g name = None"
    and fresh: "''itg_'' @ token \<notin> set (dict_keys (api_key_to_team g))"
    and run: "register_team name rl token g = (info, g')"
  shows "game_ok g'" and "teams g' = teams g @ [(team_id info, info)]"
    and "api_key_to_team g' = api_key_to_team g @ [(api_key info, team_id info)]"
    and "team_id info = make_team_id (team_counter g + 1)" "team_name info = name" "role info = rl"
proof -
  let ?tid = "make_team_id (team_counter g + 1)" and ?key = "''itg_'' @ token"
  have new: "?tid \<notin> set (dict_keys (teams g))"
  proof
    assume "?tid \<in> set (dict_keys (teams g))"
    then obtain t where "(?tid, t) \<in> set (teams g)" by auto
    then obtain n where "n \<le> team_counter g" "?tid = make_team_id n" using game_okD(2) [OF ok] by blast
    then show False by (simp add: make_team_id_inject)
  qed
  have upd: "AList.update k v d = d @ [(k, v)]" if "k \<notin> set (dict_keys d)" for k v and d :: "(string \<times> 'x) list"
    using that by (induction d) auto
  have upd2: "AList.update k v d = d @ [(k, v)]" if "k \<notin> set (dict_keys d)" for k v and d :: "(string \<times> string) list"
    using that by (induction d) auto
  have info: "info = \<lparr>team_id = ?tid, team_name = name, role = rl, api_key = ?key\<rparr>"
    using run by (auto simp: register_team_def Let_def)
  show t: "teams g' = teams g @ [(team_id info, info)]"
    using run new by (auto simp: register_team_def Let_def AList.update_conv upd)
  show k: "api_key_to_team g' = api_key_to_team g @ [(api_key info, team_id info)]"
    using run fresh by (auto simp: register_team_def Let_def upd2)
  have c: "team_counter g' = team_counter g + 1"
    using run by (auto simp: register_team_def Let_def)
  show "team_id info = ?tid" "team_name info = name" "role info = rl" by (simp_all add: info)
  have names: "\<forall>(tid, t) \<in> set (teams g). team_name t \<noteq> name"
    using name by (simp add: get_team_by_name_def find_None_values)
  have keys: "\<forall>(tid, t) \<in> set (teams g). api_key t \<noteq> ?key"
  proof (intro ballI)
    fix e
    assume "e \<in> set (teams g)"
    then have "map_of (api_key_to_team g) (api_key (snd e)) \<noteq> None"
      using game_okD(3) [OF ok, of "fst e" "snd e"] by simp
    then have "api_key (snd e) \<in> set (dict_keys (api_key_to_team g))"
      by (simp only: map_of_eq_None_iff not_not set_map)
    then have "api_key (snd e) \<noteq> ?key" using fresh by (intro notI) (simp only:)
    then show "case e of (tid, t) \<Rightarrow> api_key t \<noteq> ?key" by (simp add: case_prod_beta)
  qed
  have none: "map_of (teams g) ?tid = None" "map_of (api_key_to_team g) ?key = None"
    using new fresh by (simp_all add: map_of_eq_None_iff)
  show "game_ok g'"
    unfolding game_ok_def
  proof (intro conjI)
    show "distinct (dict_keys (teams g'))" "distinct (dict_keys (api_key_to_team g'))"
      using ok new fresh by (simp_all add: t k info game_ok_def)
    show "\<forall>(tid, u) \<in> set (teams g'). team_id u = tid \<and> (\<exists>n \<le> team_counter g'. tid = make_team_id n) \<and>
        map_of (api_key_to_team g') (api_key u) = Some tid \<and> api_key u \<noteq> []"
    proof (intro ballI)
      fix e
      assume "e \<in> set (teams g')"
      then consider "e = (?tid, info)" | "e \<in> set (teams g)" by (auto simp: t info)
      then show "case e of (tid, u) \<Rightarrow> team_id u = tid \<and> (\<exists>n \<le> team_counter g'. tid = make_team_id n) \<and>
          map_of (api_key_to_team g') (api_key u) = Some tid \<and> api_key u \<noteq> []"
      proof cases
        case 1
        then show ?thesis using none by (auto simp: k info c map_add_def)
      next
        case 2
        obtain tid u where e: "e = (tid, u)" by fastforce
        with 2 have u: "(tid, u) \<in> set (teams g)" by simp
        obtain n where "n \<le> team_counter g" "tid = make_team_id n" using game_okD(2) [OF ok u] by blast
        then have "\<exists>n \<le> team_counter g'. tid = make_team_id n" by (intro exI [of _ n]) (simp add: c)
        moreover have "api_key u \<noteq> ?key" using keys u by auto
        ultimately show ?thesis
          using game_okD(1,3,5) [OF ok u] by (simp add: e k info map_add_def)
      qed
    qed
    show "\<forall>(key, tid) \<in> set (api_key_to_team g'). \<exists>u. map_of (teams g') tid = Some u \<and> api_key u = key"
    proof (intro ballI)
      fix e
      assume "e \<in> set (api_key_to_team g')"
      then consider "e = (?key, ?tid)" | "e \<in> set (api_key_to_team g)" by (auto simp: k info)
      then show "case e of (key, tid) \<Rightarrow> \<exists>u. map_of (teams g') tid = Some u \<and> api_key u = key"
      proof cases
        case 1
        then show ?thesis using none by (simp add: t info map_add_def)
      next
        case 2
        then obtain u where "map_of (teams g) (snd e) = Some u" "api_key u = fst e"
          using ok by (auto simp: game_ok_def)
        then show ?thesis by (simp add: t map_add_def case_prod_beta)
      qed
    qed
    show "inj_on (team_name \<circ> snd) (set (teams g'))"
      using ok names by (auto simp: t info game_ok_def inj_on_def)
  qed
qed

section \<open>Registration histories\<close>

text \<open>
  Registrations in any order, refused ones included; the secret token of a registration is
  one that no registered team has, which is what \<open>secrets.token_urlsafe(32)\<close> is for.
\<close>

inductive game_reachable :: "game_service \<times> positions \<Rightarrow> bool" where
  game_start: "game_reachable (new_game, ps)"
| game_register: "game_reachable (g, ps) \<Longrightarrow> ''itg_'' @ token \<notin> set (dict_keys (api_key_to_team g)) \<Longrightarrow>
    game_reachable (snd (register_team_endpoint rid token created name rl (g, ps)))"

definition accounts_ok :: "game_service \<times> positions \<Rightarrow> bool" where
  "accounts_ok st \<longleftrightarrow>
     game_ok (fst st) \<and>
     (\<forall>(tid, t) \<in> set (teams (fst st)). tid \<in> set (dict_keys (snd st)) \<and> role t = ''market_maker'')"

lemma initialize_team_keys: "set (dict_keys (initialize_team tid ps)) = insert tid (set (dict_keys ps))"
  by (auto simp: initialize_team_def)

lemma accounts_ok_register:
  assumes ok: "accounts_ok (g, ps)" and fresh: "''itg_'' @ token \<notin> set (dict_keys (api_key_to_team g))"
  shows "accounts_ok (snd (register_team_endpoint rid token created name rl (g, ps)))"
proof (cases "rl = ''market_maker'' \<and> get_team_by_name g name = None")
  case True
  obtain info g' where run: "register_team name rl token g = (info, g')" by fastforce
  have g: "game_ok g" using ok by (simp add: accounts_ok_def)
  note r = register_team_ok [OF g conjunct2 [OF True] fresh run]
  have st: "snd (register_team_endpoint rid token created name rl (g, ps)) = (g', initialize_team (team_id info) ps)"
    using True run by (simp add: register_team_endpoint_def)
  have "\<forall>(tid, t) \<in> set (teams g @ [(team_id info, info)]).
      tid \<in> set (dict_keys (initialize_team (team_id info) ps)) \<and> role t = ''market_maker''"
    using ok r(6) True unfolding initialize_team_keys by (auto simp: accounts_ok_def)
  with r(1,2) show ?thesis unfolding st accounts_ok_def by (simp only: fst_conv snd_conv)
next
  case False
  then show ?thesis using ok by (auto simp: register_team_endpoint_def split: option.split)
qed

lemma game_reachable_ok: "game_reachable st \<Longrightarrow> accounts_ok st"
proof (induction rule: game_reachable.induct)
  case (game_start ps)
  then show ?case by (simp add: accounts_ok_def game_ok_def new_game_def)
qed (rule accounts_ok_register)

lemma find_unique:
  assumes "(k, v) \<in> set d" and "P v" and "\<And>k' v'. (k', v') \<in> set d \<Longrightarrow> P v' \<Longrightarrow> v' = v"
  shows "find P (dict_values d) = Some v"
  using assms
proof (induction d)
  case (Cons e d)
  show ?case
  proof (cases "P (snd e)")
    case True
    then have "snd e = v" using Cons.prems(3) [of "fst e" "snd e"] by simp
    then show ?thesis using True by simp
  next
    case False
    then have "(k, v) \<in> set d" using Cons.prems(1,2) by auto
    moreover have "v' = v" if "(k', v') \<in> set d" and "P v'" for k' v'
      using Cons.prems(3) [of k' v'] that by simp
    ultimately have "find P (dict_values d) = Some v" using Cons.IH Cons.prems(2) by blast
    then show ?thesis using False by simp
  qed
qed simp

lemma name_found:
  assumes "game_ok g" and "(tid, t) \<in> set (teams g)"
  shows "get_team_by_name g (team_name t) = Some t"
  unfolding get_team_by_name_def
proof (rule find_unique [OF assms(2)])
  fix k v
  assume "(k, v) \<in> set (teams g)" and "team_name v = team_name t"
  moreover have "inj_on (team_name \<circ> snd) (set (teams g))" using assms(1) by (simp add: game_ok_def)
  ultimately have "(k, v) = (tid, t)" using assms(2) by (intro inj_onD [of "team_name \<circ> snd"]) simp_all
  then show "v = t" by simp
qed simp

lemma key_authenticates:
  assumes "game_ok g" and "(tid, t) \<in> set (teams g)"
  shows "get_current_team g (Some (api_key t)) = Inr t"
proof -
  have "tid \<noteq> []" using game_okD(2) [OF assms] make_team_id_nonempty by metis
  then show ?thesis
    using game_okD(3-5) [OF assms] by (simp add: get_current_team_def get_team_by_api_key_def)
qed

lemma authenticated_owner:
  assumes "game_ok g"
  shows "case get_current_team g key of
       Inr t \<Rightarrow> key = Some (api_key t) \<and> map_of (teams g) (team_id t) = Some t
     | Inl (HTTP_error code m) \<Rightarrow> code = 401"
proof (cases "get_current_team g key")
  case (Inl e)
  then show ?thesis
    by (auto simp: get_current_team_def split: option.splits if_splits)
next
  case (Inr t)
  then obtain k where k: "key = Some k" "get_team_by_api_key g k = Some t"
    by (auto simp: get_current_team_def split: option.splits if_splits)
  then obtain tid where tid: "map_of (api_key_to_team g) k = Some tid" "map_of (teams g) tid = Some t"
    by (auto simp: get_team_by_api_key_def split: option.splits if_splits)
  have "(k, tid) \<in> set (api_key_to_team g)" using tid(1) by (rule map_of_in_set)
  then have "api_key t = k" using assms tid(2) by (fastforce simp: game_ok_def)
  moreover have "team_id t = tid" using game_okD(1) [OF assms map_of_in_set [OF tid(2)]] .
  ultimately show ?thesis using Inr k tid by simp
qed

text \<open>
  After any history of registrations every registered team is found by its id, by its
  name and through authentication with its own key, has its positions initialised and the
  supported role; a key authenticates nobody but the team it was issued to, anything else
  is refused with 401, and a registration under a name already taken changes nothing.
\<close>

theorem accounts_exact:
  assumes "game_reachable (g, ps)"
  shows "(\<forall>t tid. map_of (teams g) tid = Some t \<longrightarrow>
      get_current_team g (Some (api_key t)) = Inr t \<and> get_team_by_id g (team_id t) = Some t \<and>
      get_team_by_name g (team_name t) = Some t \<and> team_id t \<in> set (dict_keys ps) \<and> role t = ''market_maker'' \<and>
      (\<forall>rid token created. snd (register_team_endpoint rid token created (team_name t) ''market_maker'' (g, ps)) = (g, ps))) \<and>
    (\<forall>key. case get_current_team g key of
       Inr t \<Rightarrow> key = Some (api_key t) \<and> map_of (teams g) (team_id t) = Some t
     | Inl (HTTP_error code m) \<Rightarrow> code = 401)"
proof (intro conjI allI impI)
  have acc: "accounts_ok (g, ps)" using game_reachable_ok [OF assms] .
  then have ok: "game_ok g" by (simp add: accounts_ok_def)
  fix t tid
  assume m: "map_of (teams g) tid = Some t"
  then have t: "(tid, t) \<in> set (teams g)" by (rule map_of_in_set)
  show "get_current_team g (Some (api_key t)) = Inr t" using ok t by (rule key_authenticates)
  show name: "get_team_by_name g (team_name t) = Some t" using ok t by (rule name_found)
  show "get_team_by_id g (team_id t) = Some t" using game_okD(1) [OF ok t] m by (simp add: get_team_by_id_def)
  show "team_id t \<in> set (dict_keys ps)" "role t = ''market_maker''"
    using acc t game_okD(1) [OF ok t] by (auto simp: accounts_ok_def)
  show "snd (register_team_endpoint rid token created (team_name t) ''market_maker'' (g, ps)) = (g, ps)" for rid token created
    by (simp add: register_team_endpoint_def name)
next
  fix key
  have "game_ok g" using game_reachable_ok [OF assms] by (simp add: accounts_ok_def)
  then show "case get_current_team g key of
       Inr t \<Rightarrow> key = Some (api_key t) \<and> map_of (teams g) (team_id t) = Some t
     | Inl (HTTP_error code m) \<Rightarrow> code = 401"
    by (rule authenticated_owner)
qed

theorem accounts_exact_witness:
  "get_current_team (fst (snd (register_team_endpoint ''r'' ''secret'' ''now'' ''Alpha'' ''market_maker'' (new_game, []))))
     (Some ''itg_secret'') =
   Inr \<lparr>team_id = make_team_id 1, team_name = ''Alpha'', role = ''market_maker'', api_key = ''itg_secret''\<rparr>"
proof -
  let ?st = "snd (register_team_endpoint ''r'' ''secret'' ''now'' ''Alpha'' ''market_maker'' (new_game, []))"
  have "game_reachable ?st" by (rule game_register [OF game_start]) (simp add: new_game_def)
  moreover have "map_of (teams (fst ?st)) (make_team_id 1) =
      Some \<lparr>team_id = make_team_id 1, team_name = ''Alpha'', role = ''market_maker'', api_key = ''itg_secret''\<rparr>"
    by (simp add: register_team_endpoint_def register_team_def new_game_def get_team_by_name_def Let_def)
  ultimately show ?thesis
    using accounts_exact [of "fst ?st" "snd ?st"] by fastforce
qed

end
