(* ===== verification/Api_Endpoints.thy ===== *)
theory Api_Endpoints
  imports Pipeline_Flow Game
begin

text \<open>
  The order endpoints, \<open>api/endpoints/exchange.py\<close>. A request runs in two parts: up to the
  message on the order queue, and from the end of the wait on the coordinator; in between
  the pipeline runs. The order's uuid and the clock readings of the registration are
  arguments; the bounds on quantity and price in the request model are checked by pydantic
  before the endpoint runs.
\<close>

section \<open>The endpoints\<close>

record order_request =
  rq_instrument_id :: string
  rq_order_type :: string
  rq_side :: string
  rq_quantity :: int
  rq_price :: "rat option"
  rq_client_order_id :: "string option"

text \<open>
  What pydantic checks before the endpoint runs.
\<close>

definition request_bounds :: "order_request \<Rightarrow> bool" where
  "request_bounds rq \<longleftrightarrow> 0 < rq_quantity rq \<and> (case rq_price rq of None \<Rightarrow> True | Some p \<Rightarrow> 0 < p)"

text \<open>\<open>OrderType[name.upper()]\<close> looks a member up by name, \<open>OrderSide(value)\<close> by value.\<close>

definition validate_order_type :: "order_request \<Rightarrow> order_type option" where
  "validate_order_type rq =
     (let n = upper (rq_order_type rq) in
      if n = ''LIMIT'' then Some LIMIT else if n = ''MARKET'' then Some MARKET else None)"

definition validate_order_side :: "order_request \<Rightarrow> order_side option" where
  "validate_order_side rq = (case parse_side (rq_side rq) of Inl e \<Rightarrow> None | Inr s \<Rightarrow> Some s)"

definition create_validation_error_response :: "string \<Rightarrow> msg \<Rightarrow> api_response" where
  "create_validation_error_response code message = error_response '''' code message None"

datatype begin_result = Reply api_response | Enqueue order_message string

definition submit_failed :: "string \<Rightarrow> exn \<Rightarrow> api_response" where
  "submit_failed rid e = error_response rid INTERNAL_ERROR (lit ''Failed to submit order: '' @ exn_str e) None"

definition submit_order_begin ::
    "order_request \<Rightarrow> team_info \<Rightarrow> string \<Rightarrow> nat \<Rightarrow> rat \<Rightarrow> rat \<Rightarrow> coordinator \<Rightarrow> begin_result \<times> coordinator" where
  "submit_order_begin rq team uuid ns t1 t2 c =
     (case validate_order_type rq of
        None \<Rightarrow> (Reply (create_validation_error_response INVALID_ORDER_TYPE
                   [Txt ''Invalid order type: '', Txt (rq_order_type rq)]), c)
      | Some ty \<Rightarrow>
          (case validate_order_side rq of
             None \<Rightarrow> (Reply (create_validation_error_response INVALID_SIDE
                        [Txt ''Invalid side: '', Txt (rq_side rq),
                         Txt (''. Must be '' @ quoted ''buy'' @ '' or '' @ quoted ''sell'')]), c)
           | Some sd \<Rightarrow>
               if ty = LIMIT \<and> rq_price rq = None then
                 (Reply (create_validation_error_response MISSING_PRICE
                    (lit ''Price required for limit orders'')), c)
               else
                 (case new_order (rq_instrument_id rq) (side_value sd) (of_int (rq_quantity rq)) (team_id team)
                     (rq_price rq) uuid (rq_client_order_id rq) of
                    Inl e \<Rightarrow> (Reply (submit_failed '''' e), c)
                  | Inr o1 \<Rightarrow>
                      (case register_request (team_id team) (Some 5) ns t1 t2 c of
                         (Inl e, c') \<Rightarrow> (Reply (submit_failed '''' e), c')
                       | (Inr reg, c') \<Rightarrow>
                           (Enqueue (New_order o1 team (rr_request_id reg)) (rr_request_id reg), c')))))"

definition submit_order_end :: "string \<Rightarrow> exn + response_result \<Rightarrow> api_response" where
  "submit_order_end rid out = (case out of Inr r \<Rightarrow> rs_api_response r | Inl e \<Rightarrow> submit_failed rid e)"

definition cancel_failed :: "string \<Rightarrow> string \<Rightarrow> exn \<Rightarrow> api_response" where
  "cancel_failed oid rid e =
     (error_response rid INTERNAL_ERROR (lit ''Failed to cancel order: '' @ exn_str e) None)
       \<lparr>ar_order_id := Some oid\<rparr>"

definition cancel_order_begin ::
    "string \<Rightarrow> team_info \<Rightarrow> nat \<Rightarrow> rat \<Rightarrow> rat \<Rightarrow> coordinator \<Rightarrow> begin_result \<times> coordinator" where
  "cancel_order_begin oid team ns t1 t2 c =
     (case register_request (team_id team) (Some 3) ns t1 t2 c of
        (Inl e, c') \<Rightarrow> (Reply (cancel_failed oid '''' e), c')
      | (Inr reg, c') \<Rightarrow>
          (Enqueue (Cancel_order oid team (rr_request_id reg)) (rr_request_id reg), c'))"

definition cancel_order_end :: "string \<Rightarrow> string \<Rightarrow> exn + response_result \<Rightarrow> api_response" where
  "cancel_order_end oid rid out =
     (case out of Inr r \<Rightarrow> rs_api_response r | Inl e \<Rightarrow> cancel_failed oid rid e)"

text \<open>The exchange has no method \<open>get_orders_by_trader\<close>, so the listing always fails.\<close>

definition get_orders :: "team_info \<Rightarrow> venue \<Rightarrow> api_response" where
  "get_orders team v =
     (let e = AttributeError [Txt (quoted ''ExchangeVenue'' @ '' object has no attribute '' @
                quoted ''get_orders_by_trader'')]
      in error_response '''' INTERNAL_ERROR (lit ''Failed to get orders: '' @ exn_str e) None)"

section \<open>Submission\<close>

text \<open>A request within the bounds fails in the order's constructor only for its price increment.\<close>

lemma bounded_request_order:
  assumes "request_bounds rq" and "validate_order_side rq = Some sd"
    and "new_order (rq_instrument_id rq) (side_value sd) (of_int (rq_quantity rq)) trader (rq_price rq) uuid coid = Inl e"
  shows "e = ValueError (lit ''Order price must be in penny increments'') \<and>
    (\<exists>p. rq_price rq = Some p \<and> p * 100 \<notin> \<int>)"
  using assms
  by (auto simp: new_order_def Let_def request_bounds_def py_round2_fixed_iff split: option.splits if_splits)

lemma new_order_fields:
  "new_order iid sd q trader pr oid coid = Inr o1 \<Longrightarrow>
   instrument_id o1 = iid \<and> quantity o1 = q \<and> trader_id o1 = trader \<and> price o1 = pr \<and> order_id o1 = oid \<and>
   order_type o1 = (if pr = None then MARKET else LIMIT) \<and> client_order_id o1 = coid"
  by (auto simp: new_order_def Let_def split: sum.splits if_splits)

text \<open>A registration that succeeds adds one fresh, pending request at the end of the table.\<close>

lemma register_request_new:
  assumes "coord_ok cfg c" and "register_request team timeout ns t1 t2 c = (Inr g, c')"
  shows "objects c (rr_request_id g) = None \<and> pending c' = pending c @ [rr_request_id g] \<and>
    (\<exists>p. get_request_status c' (rr_request_id g) = Some p \<and> pq_status p = PENDING)"
proof -
  let ?rid = "make_request_id (request_id_prefix (config c)) ns (request_counter c + 1)"
  have "objects c ?rid = None"
    using coord_okD(4) [OF assms(1), of ?rid] next_id_fresh [of "request_id_prefix cfg"] coord_okD(1) [OF assms(1)]
    by (metis not_Some_eq)
  moreover from this have "?rid \<notin> set (pending c)"
    using coord_okD(3) [OF assms(1), of ?rid] by auto
  ultimately show ?thesis
    using assms(2) by (auto simp: register_request_def get_request_status_def put_object_def Let_def split: if_splits)
qed


definition market_request :: order_request where
  "market_request =
     \<lparr>rq_instrument_id = ''SPX'', rq_order_type = ''market'', rq_side = ''buy'', rq_quantity = 7,
      rq_price = None, rq_client_order_id = None\<rparr>"

lemma market_request_order:
  "validate_order_type market_request = Some MARKET" "validate_order_side market_request = Some BUY"
  "\<exists>o1. new_order (rq_instrument_id market_request) (side_value BUY) (of_int (rq_quantity market_request)) trader
     (rq_price market_request) uuid (rq_client_order_id market_request) = Inr o1"
proof -
  have "upper ''market'' = ''MARKET''" by code_simp
  then show "validate_order_type market_request = Some MARKET"
    by (simp add: market_request_def validate_order_type_def)
  show "validate_order_side market_request = Some BUY"
    by (simp add: market_request_def validate_order_side_def parse_side_def)
  show "\<exists>o1. new_order (rq_instrument_id market_request) (side_value BUY) (of_int (rq_quantity market_request)) trader
     (rq_price market_request) uuid (rq_client_order_id market_request) = Inr o1"
    unfolding new_order_def lower_side_value parse_side_value by (simp add: market_request_def)
qed

lemma first_registration:
  "\<exists>g c'. register_request team timeout ns t1 t2 (new_coordinator (Some default_config)) = (Inr g, c')"
  by (simp add: register_request_def new_coordinator_def default_config_def Let_def)

lemma market_request_begins:
  "\<exists>msg rid c'. submit_order_begin market_request team uuid ns t1 t2 (new_coordinator (Some default_config)) =
     (Enqueue msg rid, c')"
proof -
  obtain o1 where "new_order (rq_instrument_id market_request) (side_value BUY) (of_int (rq_quantity market_request))
      (team_id team) (rq_price market_request) uuid (rq_client_order_id market_request) = Inr o1"
    using market_request_order(3) by blast
  moreover obtain g c' where "register_request (team_id team) (Some 5) ns t1 t2 (new_coordinator (Some default_config)) = (Inr g, c')"
    using first_registration by blast
  ultimately show ?thesis by (simp add: submit_order_begin_def market_request_order(1,2))
qed


section \<open>The round trip of a request\<close>

lemma submit_order_begin_enqueue:
  assumes "submit_order_begin rq team uuid ns t1 t2 c = (Enqueue msg rid, c')"
  obtains o1 g where "msg = New_order o1 team rid" and "rid = rr_request_id g"
    and "register_request (team_id team) (Some 5) ns t1 t2 c = (Inr g, c')" and "own_order o1 team"
proof -
  obtain ty where ty: "validate_order_type rq = Some ty"
    using assms by (cases "validate_order_type rq") (simp_all add: submit_order_begin_def)
  obtain sd where sd: "validate_order_side rq = Some sd"
    using assms ty by (cases "validate_order_side rq") (simp_all add: submit_order_begin_def)
  have np: "\<not> (ty = LIMIT \<and> rq_price rq = None)"
    using assms ty sd by (intro notI) (simp add: submit_order_begin_def)
  let ?new = "new_order (rq_instrument_id rq) (side_value sd) (of_int (rq_quantity rq)) (team_id team)
    (rq_price rq) uuid (rq_client_order_id rq)"
  note begin' = submit_order_begin_def ty sd option.case if_not_P [OF np]
  obtain o1 where o1: "?new = Inr o1"
    using assms unfolding begin' by (cases ?new) simp_all
  obtain out c1 where reg: "register_request (team_id team) (Some 5) ns t1 t2 c = (out, c1)" by fastforce
  obtain g where g: "out = Inr g"
    using assms unfolding begin' o1 sum.case reg prod.case by (cases out) simp_all
  have "msg = New_order o1 team (rr_request_id g) \<and> rid = rr_request_id g \<and> c1 = c'"
    using assms unfolding begin' o1 sum.case reg prod.case g by auto
  moreover have "own_order o1 team"
    using new_order_ok [OF o1] new_order_fields [OF o1] by (simp add: own_order_def fresh_order_def)
  ultimately show thesis using reg g by (intro that [of o1 g]) auto
qed

lemma notify_pending [simp]:
  "pending (p_coordinator (notify rid resp oid t s)) = pending (p_coordinator s)"
  by (auto simp: notify_def notify_completion_def split: option.split)

lemma validator_error_pending [simp]:
  "pending (p_coordinator (handle_validator_error e l t s)) = pending (p_coordinator s)"
  by (simp add: handle_validator_error_def split: option.split)

lemma validator_pending:
  "validator_step reg cache ts (New_order o1 team rid) (l, s) = (l', s') \<Longrightarrow>
   pending (p_coordinator s') = pending (p_coordinator s)"
  by (cases "validate_new_order reg cache (p_positions s) (p_windows s) (t_count ts) o1 team")
     (auto simp: handle_new_order_validation_def handle_unexpected_status_def Let_def
      split: option.splits if_splits)



end
