(* ===== verification/Config_Loader.thy ===== *)
theory Config_Loader
  imports Order_Validation Positions Phases Coordinator
begin

text \<open>
  The configuration: \<open>infrastructure/config/loader.py\<close>, \<open>infrastructure/config/models.py\<close>,
  and the factory that fills the validator (\<open>infrastructure/factories/validator_factory.py\<close>).
  Parsing YAML is outside: \<open>load_config\<close> takes what the parser made of the file, and the
  other functions start from the data it returns. The dataclasses store whatever they are
  given, so what the loader returns is kept as the Python values it takes out of the file
  (\<open>raw\<close> records); the \<open>typed\<close> functions say when such a value is one the other components'
  models hold. A number that is whole counts as an int: YAML's 5 and 5.0 are one value here.
\<close>

section \<open>The file\<close>

text \<open>\<open>yaml.safe_load(f) or {}\<close>.\<close>

definition config_data :: "pyval \<Rightarrow> pyval" where
  "config_data y = (if truthy y then y else PDict [])"

text \<open>
  \<open>load\<close>, with the loader's cache. What stands at the path, as far as the parser can tell, is
  an argument: nothing, a text that is no YAML with the parser's message, or a value.
\<close>

datatype config_file = No_file | Malformed_yaml msg | Yaml_value pyval

definition load_config :: "string \<Rightarrow> config_file \<Rightarrow> pyval option \<Rightarrow> (exn + pyval) \<times> pyval option" where
  "load_config path f cache =
     (case cache of
        Some d \<Rightarrow> (Inr d, cache)
      | None \<Rightarrow>
          (case f of
             No_file \<Rightarrow> (Inl (FileNotFoundError [Txt ''Configuration file not found: '', Txt path]), None)
           | Malformed_yaml m \<Rightarrow>
               (Inl (YAMLError ([Txt ''Failed to parse config file '', Txt path, Txt '': ''] @ m)), None)
           | Yaml_value y \<Rightarrow> (Inr (config_data y), Some (config_data y))))"

text \<open>A loader that has succeeded once returns the same data whatever happens to the file.\<close>

lemma load_cached:
  "load_config path f cache = (Inr d, cache') \<Longrightarrow> load_config path g cache' = (Inr d, cache')"
  by (auto simp: load_config_def split: option.splits config_file.splits)

section \<open>Exchange, instruments, roles\<close>

record exchange_config =
  phase_check_interval :: pyval
  order_queue_timeout :: pyval

definition get_exchange_config :: "pyval \<Rightarrow> exn + exchange_config" where
  "get_exchange_config data =
     and_then (py_get data ''exchange'' (PDict [])) (\<lambda>e.
     and_then (py_get e ''phase_check_interval'' (PNum (1/10))) (\<lambda>i.
     and_then (py_get e ''order_queue_timeout'' (PNum (1/100))) (\<lambda>t.
       Inr \<lparr>phase_check_interval = i, order_queue_timeout = t\<rparr>)))"

record raw_constraint =
  rc_type :: constraint_type
  rc_parameters :: pyval
  rc_error_code :: pyval
  rc_error_message :: pyval

definition raw_constraint_from :: "pyval \<Rightarrow> exn + raw_constraint" where
  "raw_constraint_from cd =
     and_then (py_index cd ''type'') (\<lambda>tv.
     and_then
       (case parse_constraint_type tv of
          Inl _ \<Rightarrow> Inl (ValueError (lit ''Invalid constraint type: '' @ py_str tv @
                     [Txt ''. Valid types are: '', repr_list (map constraint_value all_constraint_types)]))
        | Inr t \<Rightarrow> Inr t) (\<lambda>t.
     and_then (py_index cd ''parameters'') (\<lambda>ps.
     and_then (py_index cd ''error_code'') (\<lambda>code.
     and_then (py_index cd ''error_message'') (\<lambda>message.
       Inr \<lparr>rc_type = t, rc_parameters = ps, rc_error_code = code, rc_error_message = message\<rparr>)))))"

definition get_role_constraints :: "pyval \<Rightarrow> string \<Rightarrow> exn + raw_constraint list" where
  "get_role_constraints data rl =
     and_then (py_get data ''roles'' (PDict [])) (\<lambda>roles.
     and_then (py_in rl roles) (\<lambda>known.
       if \<not> known then Inr []
       else
         and_then (py_index roles rl) (\<lambda>rd.
         and_then (py_get rd ''constraints'' (PList [])) (\<lambda>cv.
         and_then (py_iter cv) (map_exn raw_constraint_from)))))"

record raw_instrument =
  ri_symbol :: pyval
  ri_strike :: pyval
  ri_option_type :: pyval
  ri_underlying :: pyval

text \<open>\<open>Instrument(...)\<close> without an expiry: only the option type is checked.\<close>

definition check_option_type :: "pyval \<Rightarrow> exn + unit" where
  "check_option_type v =
     (if \<not> truthy v then Inr ()
      else case v of
        PStr s \<Rightarrow>
          if lower s \<notin> {''call'', ''put''} then
            Inl (ValueError [Txt (''Option type must be '' @ quoted ''call'' @ '' or '' @ quoted ''put'')])
          else Inr ()
      | _ \<Rightarrow> Inl (AttributeError (lit ''object has no attribute lower'')))"

definition raw_instrument_from :: "pyval \<Rightarrow> exn + raw_instrument" where
  "raw_instrument_from d =
     and_then (py_index d ''symbol'') (\<lambda>s.
     and_then (py_index d ''strike'') (\<lambda>k.
     and_then (py_index d ''option_type'') (\<lambda>t.
     and_then (py_index d ''underlying'') (\<lambda>u.
     and_then (check_option_type t) (\<lambda>_.
       Inr \<lparr>ri_symbol = s, ri_strike = k, ri_option_type = t, ri_underlying = u\<rparr>)))))"

definition get_instruments :: "pyval \<Rightarrow> exn + raw_instrument list" where
  "get_instruments data =
     and_then (py_get data ''instruments'' (PList [])) (\<lambda>v.
     and_then (py_iter v) (map_exn raw_instrument_from))"

section \<open>Fees\<close>

definition raw_fees_from :: "string \<times> pyval \<Rightarrow> exn + string \<times> pyval \<times> pyval" where
  "raw_fees_from e =
     (case e of (rl, rd) \<Rightarrow>
        and_then (py_get rd ''fees'' (PDict [])) (\<lambda>fd.
          if \<not> truthy fd then
            Inl (ValueError [Txt ''Missing fees section for role: '', Txt rl,
                             Txt ''. All trading roles must have fee configuration.''])
          else
            and_then (py_in ''maker_rebate'' fd) (\<lambda>has_maker.
              if \<not> has_maker then
                Inl (ValueError [Txt (''Missing required fee '' @ quoted ''maker_rebate'' @ '' for role: ''), Txt rl])
              else
                and_then (py_in ''taker_fee'' fd) (\<lambda>has_taker.
                  if \<not> has_taker then
                    Inl (ValueError [Txt (''Missing required fee '' @ quoted ''taker_fee'' @ '' for role: ''), Txt rl])
                  else
                    and_then (py_index fd ''maker_rebate'') (\<lambda>mk.
                    and_then (py_index fd ''taker_fee'') (\<lambda>tk. Inr (rl, mk, tk)))))))"

definition get_fee_schedules :: "pyval \<Rightarrow> exn + (string, pyval \<times> pyval) dict" where
  "get_fee_schedules data =
     and_then (py_get data ''roles'' (PDict [])) (\<lambda>rv.
     and_then (py_items rv) (\<lambda>roles.
     and_then (map_exn raw_fees_from roles) (\<lambda>entries.
       Inr (fold (\<lambda>(rl, f) d. AList.update rl f d) entries []))))"

section \<open>The response coordinator\<close>

record raw_coordination =
  rq_timeout :: pyval
  rq_max_pending :: pyval
  rq_cleanup_interval :: int
  rq_metrics :: bool
  rq_detailed_logging :: bool
  rq_prefix :: msg

definition coordinator_fields :: "string list" where
  "coordinator_fields =
     [''default_timeout_seconds'', ''max_pending_requests'', ''cleanup_interval_seconds'',
      ''enable_metrics'', ''enable_detailed_logging'', ''request_id_prefix'']"

text \<open>\<open>[f for f in fields if f not in v]\<close>.\<close>

definition missing_fields :: "string list \<Rightarrow> pyval \<Rightarrow> exn + string list" where
  "missing_fields fs v =
     and_then (map_exn (\<lambda>f. py_in f v) fs) (\<lambda>present.
       Inr (map fst (filter (\<lambda>(f, p). \<not> p) (zip fs present))))"

text \<open>\<open>isinstance(v, (int, float)) and v > 0\<close>, and the same for \<open>int\<close>; a bool is an int.\<close>

definition positive_number :: "pyval \<Rightarrow> bool" where
  "positive_number v \<longleftrightarrow> (case as_number v of None \<Rightarrow> False | Some n \<Rightarrow> \<not> le_ext n (Fin 0))"

definition positive_int :: "pyval \<Rightarrow> bool" where
  "positive_int v \<longleftrightarrow> (case as_number v of Some (Fin q) \<Rightarrow> q \<in> \<int> \<and> 0 < q | _ \<Rightarrow> False)"

text \<open>\<open>int(v)\<close> of a number.\<close>

definition int_of_number :: "pyval \<Rightarrow> exn + int" where
  "int_of_number v =
     (case as_number v of
        Some (Fin q) \<Rightarrow> Inr (py_int q)
      | Some Infinity \<Rightarrow> Inl OverflowError
      | None \<Rightarrow> Inl (TypeError (lit ''int() argument'')))"

definition get_response_coordinator_config :: "pyval \<Rightarrow> exn + raw_coordination" where
  "get_response_coordinator_config data =
     and_then (py_in ''response_coordinator'' data) (\<lambda>known.
       if \<not> known then
         Inl (ValueError [Txt (''Missing required '' @ quoted ''response_coordinator'' @ '' section in configuration. ''),
                          Txt ''All response coordination parameters must be explicitly configured.''])
       else
         and_then (py_index data ''response_coordinator'') (\<lambda>cd.
         and_then (missing_fields coordinator_fields cd) (\<lambda>missing.
           if missing \<noteq> [] then
             Inl (ValueError [Txt ''Missing required response_coordinator fields: '', repr_list missing,
                              Txt ''. All configuration parameters must be explicitly set.''])
           else
             and_then (py_index cd ''default_timeout_seconds'') (\<lambda>timeout.
               if \<not> positive_number timeout then
                 Inl (ValueError (lit ''Invalid default_timeout_seconds: '' @ py_str timeout @ lit ''. Must be a positive number.''))
               else
                 and_then (py_index cd ''max_pending_requests'') (\<lambda>mx.
                   if \<not> positive_int mx then
                     Inl (ValueError (lit ''Invalid max_pending_requests: '' @ py_str mx @ lit ''. Must be a positive integer.''))
                   else
                     and_then (py_index cd ''cleanup_interval_seconds'') (\<lambda>ci.
                       if \<not> positive_number ci then
                         Inl (ValueError (lit ''Invalid cleanup_interval_seconds: '' @ py_str ci @ lit ''. Must be a positive number.''))
                       else
                         and_then (int_of_number ci) (\<lambda>ival.
                         and_then (py_index cd ''enable_metrics'') (\<lambda>em.
                         and_then (py_index cd ''enable_detailed_logging'') (\<lambda>el.
                         and_then (py_index cd ''request_id_prefix'') (\<lambda>pre.
                           Inr \<lparr>rq_timeout = timeout, rq_max_pending = mx, rq_cleanup_interval = ival,
                                rq_metrics = truthy em, rq_detailed_logging = truthy el,
                                rq_prefix = py_str pre\<rparr>))))))))))"

text \<open>The configuration record of the coordinator's model, when timeout and prefix are what it holds.\<close>

definition typed_coordination :: "raw_coordination \<Rightarrow> coordination_config option" where
  "typed_coordination r =
     (case (as_number (rq_timeout r), as_number (rq_max_pending r), rq_prefix r) of
        (Some (Fin t), Some (Fin m), [Txt p]) \<Rightarrow>
          Some \<lparr>default_timeout_seconds = t, max_pending_requests = py_int m,
                cleanup_interval_seconds = of_int (rq_cleanup_interval r), enable_metrics = rq_metrics r,
                enable_detailed_logging = rq_detailed_logging r, request_id_prefix = p\<rparr>
      | _ \<Rightarrow> None)"

text \<open>The coordinator starts its cleanup thread only for a positive interval.\<close>

definition starts_cleanup_thread :: "coordination_config \<Rightarrow> bool" where
  "starts_cleanup_thread cfg \<longleftrightarrow> 0 < cleanup_interval_seconds cfg"

section \<open>Market phases\<close>

definition VALID_PHASE_NAMES :: "string list" where
  "VALID_PHASE_NAMES = [''closed'', ''continuous'', ''opening_auction'', ''pre_open'']"

definition invalid_phase :: "string \<Rightarrow> string \<Rightarrow> exn" where
  "invalid_phase name section1 =
     ValueError [Txt (''Invalid phase name '' @ quoted name @ '' in '' @ section1 @ ''. ''),
                 Txt ''Valid phase names are: '', Txt (join '', '' VALID_PHASE_NAMES)]"

definition missing_in_phase :: "string list \<Rightarrow> string \<Rightarrow> string \<Rightarrow> exn" where
  "missing_in_phase missing section1 name =
     ValueError [Txt ''Missing required fields '', repr_list missing,
                 Txt ('' in '' @ section1 @ '' for phase: ''), Txt name]"

definition raw_schedule_from :: "string \<times> pyval \<Rightarrow> exn + string \<times> pyval \<times> pyval \<times> pyval" where
  "raw_schedule_from e =
     (case e of (name, d) \<Rightarrow>
        if name \<notin> set VALID_PHASE_NAMES then Inl (invalid_phase name ''schedule'')
        else
          and_then (missing_fields [''start_time'', ''end_time'', ''weekdays''] d) (\<lambda>missing.
            if missing \<noteq> [] then Inl (missing_in_phase missing ''schedule'' name)
            else
              and_then (py_index d ''start_time'') (\<lambda>a.
              and_then (py_index d ''end_time'') (\<lambda>b.
              and_then (py_index d ''weekdays'') (\<lambda>w. Inr (name, a, b, w))))))"

definition parse_phase_schedule :: "pyval \<Rightarrow> exn + (string, pyval \<times> pyval \<times> pyval) dict" where
  "parse_phase_schedule pd =
     and_then (py_in ''schedule'' pd) (\<lambda>known.
       if \<not> known then Inl (ValueError [Txt (''Missing required '' @ quoted ''schedule'' @ '' in market_phases'')])
       else
         and_then (py_index pd ''schedule'') (\<lambda>sv.
         and_then (py_items sv) (\<lambda>entries.
         and_then (map_exn raw_schedule_from entries) (\<lambda>es.
           Inr (fold (\<lambda>(k, v) d. AList.update k v d) es [])))))"

definition raw_state_from :: "string \<times> pyval \<Rightarrow> exn + string \<times> bool \<times> bool \<times> bool \<times> pyval" where
  "raw_state_from e =
     (case e of (name, d) \<Rightarrow>
        if name \<notin> set VALID_PHASE_NAMES then Inl (invalid_phase name ''phase_states'')
        else
          and_then (missing_fields [''is_order_submission_allowed'', ''is_order_cancellation_allowed'',
              ''is_matching_enabled'', ''execution_style''] d) (\<lambda>missing.
            if missing \<noteq> [] then Inl (missing_in_phase missing ''phase_states'' name)
            else
              and_then (py_index d ''is_order_submission_allowed'') (\<lambda>a.
              and_then (py_index d ''is_order_cancellation_allowed'') (\<lambda>b.
              and_then (py_index d ''is_matching_enabled'') (\<lambda>c.
              and_then (py_index d ''execution_style'') (\<lambda>x.
                Inr (name, truthy a, truthy b, truthy c, x)))))))"

definition parse_phase_states :: "pyval \<Rightarrow> exn + (string, bool \<times> bool \<times> bool \<times> pyval) dict" where
  "parse_phase_states pd =
     and_then (py_in ''phase_states'' pd) (\<lambda>known.
       if \<not> known then Inl (ValueError [Txt (''Missing required '' @ quoted ''phase_states'' @ '' in market_phases'')])
       else
         and_then (py_index pd ''phase_states'') (\<lambda>sv.
         and_then (py_items sv) (\<lambda>entries.
         and_then (map_exn raw_state_from entries) (\<lambda>es.
           Inr (fold (\<lambda>(k, v) d. AList.update k v d) es [])))))"

record raw_phases =
  rp_timezone :: pyval
  rp_schedule :: "(string, pyval \<times> pyval \<times> pyval) dict"
  rp_states :: "(string, bool \<times> bool \<times> bool \<times> pyval) dict"

definition get_market_phases_config :: "pyval \<Rightarrow> exn + raw_phases" where
  "get_market_phases_config data =
     and_then (py_in ''market_phases'' data) (\<lambda>known.
       if \<not> known then
         Inl (ValueError [Txt (''Missing required '' @ quoted ''market_phases'' @ '' section in configuration. ''),
                          Txt ''Market phases must be explicitly configured.''])
       else
         and_then (py_index data ''market_phases'') (\<lambda>pd.
         and_then (py_in ''timezone'' pd) (\<lambda>zone.
           if \<not> zone then Inl (ValueError [Txt (''Missing required '' @ quoted ''timezone'' @ '' in market_phases'')])
           else
             and_then (py_index pd ''timezone'') (\<lambda>tz.
             and_then (parse_phase_schedule pd) (\<lambda>sch.
             and_then (parse_phase_states pd) (\<lambda>sts.
               Inr \<lparr>rp_timezone = tz, rp_schedule = sch, rp_states = sts\<rparr>))))))"

text \<open>The typed record of the phase manager's model, when the values have the types it expects.\<close>

definition text_of :: "pyval \<Rightarrow> string option" where
  "text_of v = (case v of PStr s \<Rightarrow> Some s | _ \<Rightarrow> None)"

definition texts_of :: "pyval \<Rightarrow> string list option" where
  "texts_of v = (case v of PList xs \<Rightarrow> those (map text_of xs) | _ \<Rightarrow> None)"

definition typed_schedule :: "string \<times> pyval \<times> pyval \<times> pyval \<Rightarrow> (string \<times> phase_schedule) option" where
  "typed_schedule e =
     (case e of (name, a, b, w) \<Rightarrow>
        (case (text_of a, text_of b, texts_of w) of
           (Some lo, Some hi, Some ds) \<Rightarrow> Some (name, \<lparr>start_time = lo, end_time = hi, weekdays = ds\<rparr>)
         | _ \<Rightarrow> None))"

definition typed_state :: "string \<times> bool \<times> bool \<times> bool \<times> pyval \<Rightarrow> (string \<times> phase_state_config) option" where
  "typed_state e =
     (case e of (name, a, b, c, x) \<Rightarrow>
        (case text_of x of
           Some style \<Rightarrow> Some (name, \<lparr>cfg_submission_allowed = a, cfg_cancellation_allowed = b,
             cfg_matching_enabled = c, cfg_execution_style = style\<rparr>)
         | None \<Rightarrow> None))"

definition typed_phases :: "raw_phases \<Rightarrow> market_phases option" where
  "typed_phases r =
     (case (text_of (rp_timezone r), those (map typed_schedule (rp_schedule r)), those (map typed_state (rp_states r))) of
        (Some z, Some sch, Some sts) \<Rightarrow> Some \<lparr>timezone = z, schedule = sch, phase_states = sts\<rparr>
      | _ \<Rightarrow> None)"

section \<open>The validator's constraints\<close>

text \<open>
  \<open>ValidatorFactory.create_from_config\<close>: the roles in order, each with its constraints; a role
  without constraints is registered with the empty list. Roles come as the keys of a dict.
\<close>

definition role_entry :: "pyval \<Rightarrow> pyval \<Rightarrow> exn + string \<times> raw_constraint list" where
  "role_entry data rl =
     (case rl of
        PStr s \<Rightarrow> and_then (get_role_constraints data s) (\<lambda>cs. Inr (s, cs))
      | _ \<Rightarrow> Inl (TypeError (lit ''unhashable or unknown role'')))"

definition create_validator :: "pyval \<Rightarrow> exn + (string, raw_constraint list) dict" where
  "create_validator data =
     and_then (py_get data ''roles'' (PDict [])) (\<lambda>rv.
     and_then (py_iter rv) (\<lambda>roles.
     and_then (map_exn (role_entry data) roles) (\<lambda>entries.
       Inr (fold (\<lambda>(rl, cs) d. AList.update rl cs d) entries []))))"

definition typed_constraint :: "raw_constraint \<Rightarrow> constraint_config option" where
  "typed_constraint r =
     (case (rc_parameters r, rc_error_code r, rc_error_message r) of
        (PDict ps, PStr code, PStr message) \<Rightarrow>
          Some \<lparr>constraint_type = rc_type r, parameters = ps, cc_error_code = code, cc_error_message = lit message\<rparr>
      | _ \<Rightarrow> None)"

definition typed_validator :: "(string, raw_constraint list) dict \<Rightarrow> role_cache option" where
  "typed_validator d =
     those (map (\<lambda>(rl, rs). map_option (Pair rl) (those (map typed_constraint rs))) d)"

end
