(* ===== verification/Config_Properties.thy ===== *)
theory Config_Properties
  imports Config_Loader Validation_Properties
begin

text \<open>
  What the configuration loader gives back: a file written from market phases, from a
  coordinator configuration or from a validator's constraints is loaded as it was written,
  and a bad section is refused with a \<open>ValueError\<close>.
\<close>

lemma those_map_Some [simp]: "those (map (\<lambda>x. Some (f x)) xs) = Some (map f xs)"
  by (induction xs) simp_all

lemma those_all: "\<forall>x \<in> set xs. f x = Some (g x) \<Longrightarrow> those (map f xs) = Some (map g xs)"
  by (induction xs) simp_all

text \<open>\<open>map_exn\<close> over entries that are refused exactly when they are not \<open>good\<close>.\<close>

lemma map_exn_find:
  assumes "\<forall>x \<in> set xs. f (g x) = (if good x then Inr (h x) else Inl (err x))"
  shows "map_exn f (map g xs) = (case find (\<lambda>x. \<not> good x) xs of None \<Rightarrow> Inr (map h xs) | Some x \<Rightarrow> Inl (err x))"
  using assms by (induction xs) (auto split: option.splits)

section \<open>Market phases\<close>

definition schedule_entry :: "string \<times> phase_schedule \<Rightarrow> string \<times> pyval" where
  "schedule_entry e =
     (fst e, PDict [(''start_time'', PStr (start_time (snd e))), (''end_time'', PStr (end_time (snd e))),
                    (''weekdays'', PList (map PStr (weekdays (snd e))))])"

definition state_entry :: "string \<times> phase_state_config \<Rightarrow> string \<times> pyval" where
  "state_entry e =
     (fst e, PDict [(''is_order_submission_allowed'', PBool (cfg_submission_allowed (snd e))),
                    (''is_order_cancellation_allowed'', PBool (cfg_cancellation_allowed (snd e))),
                    (''is_matching_enabled'', PBool (cfg_matching_enabled (snd e))),
                    (''execution_style'', PStr (cfg_execution_style (snd e)))])"

definition phases_file :: "market_phases \<Rightarrow> pyval" where
  "phases_file p =
     PDict [(''market_phases'',
       PDict [(''timezone'', PStr (timezone p)), (''schedule'', PDict (map schedule_entry (schedule p))),
              (''phase_states'', PDict (map state_entry (phase_states p)))])]"

definition raw_schedule :: "string \<times> phase_schedule \<Rightarrow> string \<times> pyval \<times> pyval \<times> pyval" where
  "raw_schedule e =
     (fst e, PStr (start_time (snd e)), PStr (end_time (snd e)), PList (map PStr (weekdays (snd e))))"

definition raw_state :: "string \<times> phase_state_config \<Rightarrow> string \<times> bool \<times> bool \<times> bool \<times> pyval" where
  "raw_state e =
     (fst e, cfg_submission_allowed (snd e), cfg_cancellation_allowed (snd e),
      cfg_matching_enabled (snd e), PStr (cfg_execution_style (snd e)))"

lemma raw_schedule_from_entry:
  "raw_schedule_from (schedule_entry e) =
     (if fst e \<in> set VALID_PHASE_NAMES then Inr (raw_schedule e) else Inl (invalid_phase (fst e) ''schedule''))"
  by (simp add: raw_schedule_from_def schedule_entry_def missing_fields_def py_in_def py_index_def raw_schedule_def)

lemma raw_state_from_entry:
  "raw_state_from (state_entry e) =
     (if fst e \<in> set VALID_PHASE_NAMES then Inr (raw_state e) else Inl (invalid_phase (fst e) ''phase_states''))"
  by (simp add: raw_state_from_def state_entry_def missing_fields_def py_in_def py_index_def raw_state_def)

lemma typed_raw_schedule: "typed_schedule (raw_schedule e) = Some e"
  by (cases e) (simp add: typed_schedule_def raw_schedule_def text_of_def texts_of_def comp_def)

lemma typed_raw_state: "typed_state (raw_state e) = Some e"
  by (cases e) (simp add: typed_state_def raw_state_def text_of_def)

lemma fold_update_map:
  "distinct (map fst es) \<Longrightarrow> fold (\<lambda>(k, v) d. AList.update k v d) es [] = es"
  using fold_update_distinct [of "[]" es] by simp

abbreviation bad_name :: "string \<times> 'a \<Rightarrow> bool" where
  "bad_name e \<equiv> fst e \<notin> set VALID_PHASE_NAMES"

lemma parse_schedule_file:
  assumes "distinct (map fst (schedule p))"
  shows "parse_phase_schedule (PDict [(''timezone'', z), (''schedule'', PDict (map schedule_entry (schedule p))), x]) =
     (case find bad_name (schedule p) of
        Some e \<Rightarrow> Inl (invalid_phase (fst e) ''schedule'') | None \<Rightarrow> Inr (map raw_schedule (schedule p)))"
proof -
  have "map_exn raw_schedule_from (map schedule_entry (schedule p)) =
     (case find bad_name (schedule p) of
        Some e \<Rightarrow> Inl (invalid_phase (fst e) ''schedule'') | None \<Rightarrow> Inr (map raw_schedule (schedule p)))"
    by (subst map_exn_find [where good = "\<lambda>e. fst e \<in> set VALID_PHASE_NAMES" and h = raw_schedule
          and err = "\<lambda>e. invalid_phase (fst e) ''schedule''"])
      (simp_all add: raw_schedule_from_entry split: option.splits)
  moreover have "distinct (map fst (map raw_schedule (schedule p)))"
    using assms by (simp add: raw_schedule_def comp_def)
  note fold_update_map [OF this]
  ultimately show ?thesis
    by (simp add: parse_phase_schedule_def py_in_def py_index_def py_items_def split: option.splits)
qed

lemma parse_states_file:
  assumes "distinct (map fst (phase_states p))"
  shows "parse_phase_states (PDict [(''timezone'', z), (''schedule'', x), (''phase_states'', PDict (map state_entry (phase_states p)))]) =
     (case find bad_name (phase_states p) of
        Some e \<Rightarrow> Inl (invalid_phase (fst e) ''phase_states'') | None \<Rightarrow> Inr (map raw_state (phase_states p)))"
proof -
  have "map_exn raw_state_from (map state_entry (phase_states p)) =
     (case find bad_name (phase_states p) of
        Some e \<Rightarrow> Inl (invalid_phase (fst e) ''phase_states'') | None \<Rightarrow> Inr (map raw_state (phase_states p)))"
    by (subst map_exn_find [where good = "\<lambda>e. fst e \<in> set VALID_PHASE_NAMES" and h = raw_state
          and err = "\<lambda>e. invalid_phase (fst e) ''phase_states''"])
      (simp_all add: raw_state_from_entry split: option.splits)
  moreover have "distinct (map fst (map raw_state (phase_states p)))"
    using assms by (simp add: raw_state_def comp_def)
  note fold_update_map [OF this]
  ultimately show ?thesis
    by (simp add: parse_phase_states_def py_in_def py_index_def py_items_def split: option.splits)
qed

lemma valid_name_parses: "n \<in> set VALID_PHASE_NAMES \<longleftrightarrow> (\<exists>ph. parse_phase n = Inr ph)"
  by (auto simp: VALID_PHASE_NAMES_def parse_phase_def)

lemma find_bad_name: "find bad_name es = None \<longleftrightarrow> (\<forall>e \<in> set es. fst e \<in> set VALID_PHASE_NAMES)"
  by (auto simp: find_None_iff)

text \<open>
  C39: market phases come back from the file as they were written, and every name in the
  loaded schedule is one the phase manager can read. A file with an unknown phase name is
  refused with the \<open>ValueError\<close> that names the first one, the schedule before the states.
\<close>

theorem market_phases_roundtrip:
  assumes "distinct (map fst (schedule p))" and "distinct (map fst (phase_states p))"
  shows "case (find bad_name (schedule p), find bad_name (phase_states p)) of
      (Some e, _) \<Rightarrow> get_market_phases_config (phases_file p) = Inl (invalid_phase (fst e) ''schedule'')
    | (None, Some e) \<Rightarrow> get_market_phases_config (phases_file p) = Inl (invalid_phase (fst e) ''phase_states'')
    | (None, None) \<Rightarrow>
        (\<exists>r. get_market_phases_config (phases_file p) = Inr r \<and> typed_phases r = Some p) \<and>
        (\<forall>e \<in> set (schedule p). \<exists>ph. parse_phase (fst e) = Inr ph)"
proof -
  let ?r = "\<lparr>rp_timezone = PStr (timezone p), rp_schedule = map raw_schedule (schedule p),
             rp_states = map raw_state (phase_states p)\<rparr>"
  have load: "get_market_phases_config (phases_file p) =
     (case (find bad_name (schedule p), find bad_name (phase_states p)) of
        (Some e, _) \<Rightarrow> Inl (invalid_phase (fst e) ''schedule'')
      | (None, Some e) \<Rightarrow> Inl (invalid_phase (fst e) ''phase_states'')
      | (None, None) \<Rightarrow> Inr ?r)"
    by (simp add: get_market_phases_config_def phases_file_def py_in_def py_index_def
        parse_schedule_file [OF assms(1)] parse_states_file [OF assms(2)] split: option.splits)
  have "typed_phases ?r = Some p"
    by (simp add: typed_phases_def text_of_def comp_def typed_raw_schedule typed_raw_state)
  moreover have "\<forall>e \<in> set (schedule p). \<exists>ph. parse_phase (fst e) = Inr ph" if "find bad_name (schedule p) = None"
    using that unfolding find_bad_name by (simp add: valid_name_parses)
  ultimately show ?thesis
    using load by (simp split: option.splits)
qed

theorem market_phases_roundtrip_witness:
  "\<exists>r. get_market_phases_config (phases_file demo_phases) = Inr r \<and> typed_phases r = Some demo_phases"
proof -
  have "find bad_name (schedule demo_phases) = None" "find bad_name (phase_states demo_phases) = None"
    by (simp_all add: demo_phases_def VALID_PHASE_NAMES_def)
  moreover have "distinct (map fst (schedule demo_phases))" "distinct (map fst (phase_states demo_phases))"
    by (simp_all add: demo_phases_def)
  ultimately show ?thesis
    using market_phases_roundtrip [of demo_phases] by simp
qed

section \<open>The coordinator's section\<close>

definition coordination_entries :: "coordination_config \<Rightarrow> (string \<times> pyval) list" where
  "coordination_entries c =
     [(''default_timeout_seconds'', PNum (default_timeout_seconds c)),
      (''max_pending_requests'', PNum (of_int (max_pending_requests c))),
      (''cleanup_interval_seconds'', PNum (cleanup_interval_seconds c)),
      (''enable_metrics'', PBool (enable_metrics c)),
      (''enable_detailed_logging'', PBool (enable_detailed_logging c)),
      (''request_id_prefix'', PStr (request_id_prefix c))]"

definition coordination_file :: "(string \<times> pyval) list \<Rightarrow> pyval" where
  "coordination_file es = PDict [(''response_coordinator'', PDict es)]"

definition whole_seconds :: "coordination_config \<Rightarrow> coordination_config" where
  "whole_seconds c = c\<lparr>cleanup_interval_seconds := of_int (py_int (cleanup_interval_seconds c))\<rparr>"

lemma missing_fields_dict:
  "missing_fields fs (PDict d) = Inr (filter (\<lambda>f. f \<notin> set (map fst d)) fs)"
proof -
  have "map_exn (\<lambda>f. py_in f (PDict d)) fs = Inr (map (\<lambda>f. f \<in> set (map fst d)) fs)"
    by (induction fs) (simp_all add: py_in_def)
  moreover have "map fst (filter (\<lambda>(f, p). \<not> p) (zip fs (map (\<lambda>f. f \<in> set (map fst d)) fs))) =
      filter (\<lambda>f. f \<notin> set (map fst d)) fs"
    by (induction fs) simp_all
  ultimately show ?thesis by (simp add: missing_fields_def)
qed

lemma entry_keys: "map fst (coordination_entries c) = coordinator_fields"
  by (simp add: coordination_entries_def coordinator_fields_def)

lemma missing_none: "missing_fields coordinator_fields (PDict (coordination_entries c)) = Inr []"
  by (simp only: missing_fields_dict entry_keys) simp

lemma filter_only: "distinct xs \<Longrightarrow> x \<in> set xs \<Longrightarrow> filter (\<lambda>y. y = x) xs = [x]"
  by (induction xs) (auto simp: filter_empty_conv)

lemma missing_one:
  assumes "f \<in> set coordinator_fields"
  shows "missing_fields coordinator_fields (PDict (AList.delete f (coordination_entries c))) = Inr [f]"
proof -
  have keys: "set (map fst (AList.delete f (coordination_entries c))) = set coordinator_fields - {f}"
    by (simp add: AList.delete_keys entry_keys [of c, symmetric] del: set_map flip: set_map)
  have "filter (\<lambda>g. g \<notin> set coordinator_fields - {f}) coordinator_fields = filter (\<lambda>g. g = f) coordinator_fields"
    using assms by (intro filter_cong) auto
  also have "\<dots> = [f]"
    using assms by (intro filter_only) (simp_all add: coordinator_fields_def)
  finally show ?thesis by (simp only: missing_fields_dict keys)
qed

lemma coordinator_config_value:
  "get_response_coordinator_config (coordination_file (coordination_entries c)) =
     (if default_timeout_seconds c \<le> 0 then
        Inl (ValueError (lit ''Invalid default_timeout_seconds: '' @ [Num (default_timeout_seconds c)] @
          lit ''. Must be a positive number.''))
      else if max_pending_requests c \<le> 0 then
        Inl (ValueError (lit ''Invalid max_pending_requests: '' @ [Num (of_int (max_pending_requests c))] @
          lit ''. Must be a positive integer.''))
      else if cleanup_interval_seconds c \<le> 0 then
        Inl (ValueError (lit ''Invalid cleanup_interval_seconds: '' @ [Num (cleanup_interval_seconds c)] @
          lit ''. Must be a positive number.''))
      else Inr \<lparr>rq_timeout = PNum (default_timeout_seconds c),
                rq_max_pending = PNum (of_int (max_pending_requests c)),
                rq_cleanup_interval = py_int (cleanup_interval_seconds c), rq_metrics = enable_metrics c,
                rq_detailed_logging = enable_detailed_logging c, rq_prefix = [Txt (request_id_prefix c)]\<rparr>)"
proof -
  note section_defs = py_in_def py_index_def positive_number_def positive_int_def int_of_number_def py_str_def
  have "map_of (coordination_entries c) ''default_timeout_seconds'' = Some (PNum (default_timeout_seconds c))"
    "map_of (coordination_entries c) ''max_pending_requests'' = Some (PNum (of_int (max_pending_requests c)))"
    "map_of (coordination_entries c) ''cleanup_interval_seconds'' = Some (PNum (cleanup_interval_seconds c))"
    "map_of (coordination_entries c) ''enable_metrics'' = Some (PBool (enable_metrics c))"
    "map_of (coordination_entries c) ''enable_detailed_logging'' = Some (PBool (enable_detailed_logging c))"
    "map_of (coordination_entries c) ''request_id_prefix'' = Some (PStr (request_id_prefix c))"
    by (simp_all add: coordination_entries_def)
  then show ?thesis
    by (simp add: get_response_coordinator_config_def coordination_file_def missing_none section_defs not_less)
qed


definition half_second :: coordination_config where
  "half_second = \<lparr>default_timeout_seconds = 5, max_pending_requests = 1000, cleanup_interval_seconds = 1/2,
     enable_metrics = True, enable_detailed_logging = False, request_id_prefix = ''req''\<rparr>"


section \<open>The validator\<close>

text \<open>The layout of the deployed file: the parameters of a constraint are a dict of their own.\<close>

definition nested_constraint :: "constraint_config \<Rightarrow> pyval" where
  "nested_constraint cfg =
     PDict [(''type'', PStr (constraint_value (constraint_type cfg))), (''parameters'', PDict (parameters cfg)),
            (''error_code'', PStr (cc_error_code cfg)),
            (''error_message'', PStr (case cc_error_message cfg of [Txt s] \<Rightarrow> s | _ \<Rightarrow> []))]"

definition roles_file :: "role_cache \<Rightarrow> pyval" where
  "roles_file cache =
     PDict [(''roles'',
       PDict (map (\<lambda>(rl, cs). (rl, PDict [(''constraints'', PList (map nested_constraint cs))])) cache))]"

definition raw_config :: "constraint_config \<Rightarrow> raw_constraint" where
  "raw_config cfg =
     \<lparr>rc_type = constraint_type cfg, rc_parameters = PDict (parameters cfg),
      rc_error_code = PStr (cc_error_code cfg),
      rc_error_message = PStr (case cc_error_message cfg of [Txt s] \<Rightarrow> s | _ \<Rightarrow> [])\<rparr>"

definition one_text :: "constraint_config \<Rightarrow> bool" where
  "one_text cfg \<longleftrightarrow> (\<exists>s. cc_error_message cfg = [Txt s])"

text \<open>What the flat reader makes of such an entry: one parameter, the whole dict.\<close>

definition swallowed :: "constraint_config \<Rightarrow> constraint_config" where
  "swallowed cfg = cfg\<lparr>parameters := [(''parameters'', PDict (parameters cfg))]\<rparr>"

lemma raw_constraint_from_nested: "raw_constraint_from (nested_constraint cfg) = Inr (raw_config cfg)"
  by (simp add: raw_constraint_from_def nested_constraint_def py_index_def parse_constraint_value raw_config_def)

lemma typed_raw_config: "one_text cfg \<Longrightarrow> typed_constraint (raw_config cfg) = Some cfg"
  by (cases cfg) (auto simp: typed_constraint_def raw_config_def one_text_def)

lemma flat_constraint_from_nested:
  "one_text cfg \<Longrightarrow> constraint_from_dict rl (nested_constraint cfg) = Inr (swallowed cfg)"
  by (cases cfg) (auto simp: constraint_from_dict_def nested_constraint_def py_index_def py_items_def py_get_def
      parse_constraint_value as_text_def py_str_def swallowed_def one_text_def)

lemma role_entry_file:
  assumes "distinct (dict_keys cache)" and "(rl, cs) \<in> set cache"
  shows "role_entry (roles_file cache) (PStr rl) = Inr (rl, map raw_config cs)"
proof -
  let ?rd = "\<lambda>cs. PDict [(''constraints'', PList (map nested_constraint cs))]"
  have "map_of (map (\<lambda>(rl, cs). (rl, ?rd cs)) cache) rl = Some (?rd cs)"
    using assms by (force intro!: map_of_is_SomeI simp: comp_def case_prod_beta')
  moreover have "map_exn raw_constraint_from (map nested_constraint cs) = Inr (map raw_config cs)"
    by (rule map_exn_all) (simp add: raw_constraint_from_nested)
  ultimately show ?thesis
    using assms(2)
    by (force simp: role_entry_def get_role_constraints_def roles_file_def py_get_def py_in_def py_index_def py_iter_def)
qed

lemma typed_validator_raw:
  assumes "\<forall>(rl, cs) \<in> set cache. \<forall>cfg \<in> set cs. one_text cfg"
  shows "typed_validator (map (\<lambda>(rl, cs). (rl, map raw_config cs)) cache) = Some cache"
proof -
  have entry: "those (map (\<lambda>c. typed_constraint (raw_config c)) cs) = Some (map (\<lambda>c. c) cs)"
    if "(rl, cs) \<in> set cache" for rl cs
    using that assms by (intro those_all) (auto simp: typed_raw_config)
  have "those (map (\<lambda>e. case e of (rl, cs) \<Rightarrow> map_option (Pair rl) (those (map (\<lambda>c. typed_constraint (raw_config c)) cs))) cache)
      = Some (map (\<lambda>e. e) cache)"
    by (rule those_all) (auto simp: entry)
  then show ?thesis
    by (simp add: typed_validator_def comp_def case_prod_beta')
qed

text \<open>
  the two readers of role constraints. \<open>create_validator\<close>, which the server uses, gives
  back every constraint of a file in the deployed layout, so orders are validated against
  the constraints that were configured. \<open>load_constraints_from_dict\<close> accepts the same file
  without complaint and keeps the type, code and message of every constraint but none of
  its parameters: the checks then run on their defaults.
\<close>

theorem two_constraint_readers:
  assumes "distinct (dict_keys cache)" and "\<forall>(rl, cs) \<in> set cache. \<forall>cfg \<in> set cs. one_text cfg"
  shows "(\<exists>raw. create_validator (roles_file cache) = Inr raw \<and> typed_validator raw = Some cache) \<and>
    load_constraints_from_dict (roles_file cache) = Inr (map (\<lambda>(rl, cs). (rl, map swallowed cs)) cache) \<and>
    (\<forall>cfg k d. k \<noteq> ''parameters'' \<longrightarrow> param (parameters (swallowed cfg)) k d = d)"
proof (intro conjI allI impI)
  have "map_exn (role_entry (roles_file cache)) (map (\<lambda>e. PStr (fst e)) cache) =
      Inr (map (\<lambda>(rl, cs). (rl, map raw_config cs)) cache)"
    using role_entry_file [OF assms(1)] by (intro map_exn_all) auto
  moreover have "distinct (map fst (map (\<lambda>(rl, cs). (rl, map raw_config cs)) cache))"
    using assms(1) by (simp add: comp_def case_prod_beta')
  note fold_update_map [OF this]
  ultimately have "create_validator (roles_file cache) = Inr (map (\<lambda>(rl, cs). (rl, map raw_config cs)) cache)"
    by (simp add: create_validator_def roles_file_def py_get_def py_iter_def comp_def case_prod_beta')
  with typed_validator_raw [OF assms(2)]
  show "\<exists>raw. create_validator (roles_file cache) = Inr raw \<and> typed_validator raw = Some cache" by blast
next
  have "role_constraints_from_dict (rl, PDict [(''constraints'', PList (map nested_constraint cs))]) =
      Inr (rl, map swallowed cs)" if "(rl, cs) \<in> set cache" for rl cs
  proof -
    have "map_exn (constraint_from_dict rl) (map nested_constraint cs) = Inr (map swallowed cs)"
      using that assms(2) by (intro map_exn_all) (auto simp: flat_constraint_from_nested)
    then show ?thesis
      by (simp add: role_constraints_from_dict_def py_get_def py_iter_def get_universal_constraints_def)
  qed
  then have "map_exn role_constraints_from_dict
      (map (\<lambda>(rl, cs). (rl, PDict [(''constraints'', PList (map nested_constraint cs))])) cache) =
      Inr (map (\<lambda>(rl, cs). (rl, map swallowed cs)) cache)"
    by (intro map_exn_all) auto
  moreover have "distinct (map fst (map (\<lambda>(rl, cs). (rl, map swallowed cs)) cache))"
    using assms(1) by (simp add: comp_def case_prod_beta')
  note fold_update_map [OF this]
  ultimately show "load_constraints_from_dict (roles_file cache) = Inr (map (\<lambda>(rl, cs). (rl, map swallowed cs)) cache)"
    by (simp add: load_constraints_from_dict_def roles_file_def py_get_def py_items_def)
next
  show "param (parameters (swallowed cfg)) k d = d" if "k \<noteq> ''parameters''" for cfg k d
    using that by (simp add: swallowed_def param_def)
qed

theorem two_constraint_readers_witness:
  "(\<exists>raw. create_validator (roles_file [(''retail'', [limit_50])]) = Inr raw \<and>
      typed_validator raw = Some [(''retail'', [limit_50])]) \<and>
   load_constraints_from_dict (roles_file [(''retail'', [limit_50])]) = Inr [(''retail'', [swallowed limit_50])] \<and>
   param (parameters limit_50) ''max_position'' (PNum 0) = PNum 50 \<and>
   param (parameters (swallowed limit_50)) ''max_position'' (PNum 0) = PNum 0"
proof -
  have h: "distinct (dict_keys [(''retail'', [limit_50])])"
    "\<forall>(rl, cs) \<in> set [(''retail'', [limit_50])]. \<forall>cfg \<in> set cs. one_text cfg"
    by (simp_all add: one_text_def limit_50_def)
  from two_constraint_readers [OF h] show ?thesis
    by (simp add: limit_50_def param_def)
qed

end
