(* ===== verification/Server.thy ===== *)
theory Server
  imports Pipeline_Messages Ws_Properties Api_Endpoints Config_Properties
begin

text \<open>
  The server, \<open>api/main.py\<close>, with the two factories it calls besides the validator's:
  \<open>startup\<close> builds every component from the configuration, the websocket endpoint lets
  teams in. Threads, queues and the web framework are what \<open>Pipeline\<close> and \<open>Ws_Manager\<close> take
  them for; \<open>shutdown\<close> and the status page are in \<open>Shutdown\<close>.
\<close>

section \<open>Factories\<close>

text \<open>\<open>FeeServiceFactory\<close>: the schedules as loaded; \<open>typed_fees\<close> when both are numbers.\<close>

definition create_fee_service :: "pyval \<Rightarrow> exn + (string, pyval \<times> pyval) dict" where
  "create_fee_service data = get_fee_schedules data"

definition typed_fees :: "(string, pyval \<times> pyval) dict \<Rightarrow> (string, fee_schedule) dict option" where
  "typed_fees d =
     those (map (\<lambda>(rl, mk, tk).
       (case (as_number mk, as_number tk) of
          (Some (Fin a), Some (Fin b)) \<Rightarrow> Some (rl, \<lparr>maker_rebate = a, taker_fee = b\<rparr>)
        | _ \<Rightarrow> None)) d)"

text \<open>
  \<open>ExchangeVenueFactory\<close>: the phase manager over the configured phases, asked twice by the
  venue's constructor, at \<open>t1\<close> for the state and at \<open>t2\<close> for the phase.
\<close>

definition create_exchange :: "('i \<Rightarrow> wall) \<Rightarrow> 'i \<Rightarrow> 'i \<Rightarrow> market_phases \<Rightarrow> exn + venue" where
  "create_exchange astimezone t1 t2 ph =
     new_venue (get_current_phase_state astimezone t1 ph) (get_current_phase_state astimezone t2 ph)"

definition typed_instrument :: "raw_instrument \<Rightarrow> instrument option" where
  "typed_instrument r =
     (case (ri_symbol r, as_number (ri_strike r), text_of (ri_option_type r), text_of (ri_underlying r)) of
        (PStr s, Some (Fin k), Some t, Some u) \<Rightarrow>
          Some \<lparr>symbol = s, strike = Some k, expiry = None, option_type = Some t, underlying = Some u\<rparr>
      | _ \<Rightarrow> None)"

section \<open>Startup\<close>

record server =
  sv_pipeline :: pipeline
  sv_validator :: role_cache
  sv_fees :: "(string, fee_schedule) dict"
  sv_game :: game_service
  sv_websockets :: ws_manager

definition empty_pipeline :: "venue \<Rightarrow> coordinator \<Rightarrow> pipeline" where
  "empty_pipeline v c =
     \<lparr>p_venue = v, p_windows = [], p_positions = [], p_coordinator = c, match_queue = [],
      trade_queue = [], position_queue = [], websocket_queue = []\<rparr>"

fun list_instruments :: "instrument list \<Rightarrow> venue \<Rightarrow> exn option \<times> venue" where
  "list_instruments [] v = (None, v)"
| "list_instruments (i # is) v =
     (case list_instrument i v of (Some e, v') \<Rightarrow> (Some e, v') | (None, v') \<Rightarrow> list_instruments is v')"

text \<open>
  A loaded value that is not of the type the components expect is stored all the same and
  fails later; such configurations are outside the model, and \<open>startup\<close> is then \<open>Inr None\<close>.
\<close>

definition and_typed :: "exn + 'a \<Rightarrow> ('a \<Rightarrow> 'b option) \<Rightarrow> ('b \<Rightarrow> exn + 'c option) \<Rightarrow> exn + 'c option" where
  "and_typed r typed k = and_then r (\<lambda>x. case typed x of None \<Rightarrow> Inr None | Some y \<Rightarrow> k y)"

definition startup :: "('i \<Rightarrow> wall) \<Rightarrow> 'i \<Rightarrow> 'i \<Rightarrow> pyval \<Rightarrow> exn + server option" where
  "startup astimezone t1 t2 data =
     and_typed (get_response_coordinator_config data) typed_coordination (\<lambda>cc.
     and_then (get_exchange_config data) (\<lambda>ec.
     and_typed (get_market_phases_config data) typed_phases (\<lambda>ph.
     and_then (create_exchange astimezone t1 t2 ph) (\<lambda>v.
     and_typed (create_validator data) typed_validator (\<lambda>cache.
     and_typed (create_fee_service data) typed_fees (\<lambda>fees.
     and_typed (get_instruments data) (\<lambda>rs. those (map typed_instrument rs)) (\<lambda>is.
       (case list_instruments is v of
          (Some e, v') \<Rightarrow> Inl e
        | (None, v') \<Rightarrow>
            Inr (Some \<lparr>sv_pipeline = empty_pipeline v' (new_coordinator (Some cc)), sv_validator = cache,
                       sv_fees = fees, sv_game = new_game, sv_websockets = new_manager\<rparr>)))))))))"

section \<open>The websocket endpoint\<close>

text \<open>
  Up to the loop that keeps the connection: refused with code 1008, let in, or waiting for
  the manager's lock. The result of \<open>connect\<close> is not looked at, so the snapshot is queued
  also when the socket could not be accepted. When the client leaves, \<open>endpoint_end\<close> runs.
\<close>

datatype endpoint_result = Refused string | Let_in | Waiting

definition websocket_endpoint ::
    "nat \<Rightarrow> string \<Rightarrow> bool \<Rightarrow> game_service option \<Rightarrow> positions \<Rightarrow> ws_item list \<times> ws_manager \<Rightarrow>
     endpoint_result \<times> ws_item list \<times> ws_manager" where
  "websocket_endpoint ws key accepts game ps st =
     (case st of (q, m) \<Rightarrow>
        (case game of
           None \<Rightarrow> (Refused ''Service not available'', q, m\<lparr>closed_sockets := insert ws (closed_sockets m)\<rparr>)
         | Some g \<Rightarrow>
             (case get_team_by_api_key g key of
                None \<Rightarrow> (Refused ''Invalid API key'', q, m\<lparr>closed_sockets := insert ws (closed_sockets m)\<rparr>)
              | Some team \<Rightarrow>
                  (case ws_connect ws team accepts m of
                     (Blocked, m') \<Rightarrow> (Waiting, q, m')
                   | (_, m') \<Rightarrow>
                       (Let_in,
                        q @ [(''position_snapshot'', team_id team,
                              [(''positions'', VPositions (get_positions ps (team_id team)))])], m')))))"

definition endpoint_end :: "team_info \<Rightarrow> ws_manager \<Rightarrow> unit outcome \<times> ws_manager" where
  "endpoint_end team m = ws_disconnect (team_id team) m"

end
