(* ===== verification/Server_Properties.thy ===== *)
theory Server_Properties
  imports Server
begin

text \<open>
  What \<open>startup\<close> hands over, and what a client sees that connects, reconnects or is refused.
\<close>

lemma and_typed_Inr:
  "and_typed r ty k = Inr (Some y) \<longleftrightarrow> (\<exists>x t. r = Inr x \<and> ty x = Some t \<and> k t = Inr (Some y))"
  by (cases r) (auto simp: and_typed_def split: option.splits)

lemma list_instruments_ok:
  assumes "list_instruments is v = (None, v')" and "reachable_venue v"
  shows "reachable_venue v' \<and> pending_orders v' = pending_orders v \<and>
    dict_keys (instruments v') = dict_keys (instruments v) @ map instrument_key is \<and>
    distinct (map instrument_key is) \<and> set (map instrument_key is) \<inter> set (dict_keys (instruments v)) = {} \<and>
    (\<forall>i \<in> set is. map_of (instruments v') (instrument_key i) = Some i \<and>
       map_of (order_books v') (instrument_key i) = Some (new_book (instrument_key i))) \<and>
    (\<forall>k. k \<notin> set (map instrument_key is) \<longrightarrow>
       map_of (instruments v') k = map_of (instruments v) k \<and> map_of (order_books v') k = map_of (order_books v) k)"
  using assms
proof (induction "is" arbitrary: v)
  case (Cons i "is")
  let ?k = "instrument_key i"
  have new: "?k \<notin> set (dict_keys (instruments v))"
    using Cons.prems(1) by (auto simp: list_instrument_def Let_def split: if_splits)
  let ?v = "v\<lparr>instruments := AList.update ?k i (instruments v), order_books := AList.update ?k (new_book ?k) (order_books v)\<rparr>"
  have l: "list_instrument i v = (None, ?v)"
    using new by (simp add: list_instrument_def Let_def)
  then have rest: "list_instruments is ?v = (None, v')" using Cons.prems(1) by simp
  have "reachable_venue ?v"
    by (rule reachable_venue.step [OF Cons.prems(2), of "List_Instrument i"]) (simp_all add: l)
  from Cons.IH [OF rest this]
  have IH: "reachable_venue v'" "pending_orders v' = pending_orders v"
    "dict_keys (instruments v') = dict_keys (AList.update ?k i (instruments v)) @ map instrument_key is"
    "distinct (map instrument_key is)"
    "set (map instrument_key is) \<inter> set (dict_keys (AList.update ?k i (instruments v))) = {}"
    "\<And>j. j \<in> set is \<Longrightarrow> map_of (instruments v') (instrument_key j) = Some j \<and>
       map_of (order_books v') (instrument_key j) = Some (new_book (instrument_key j))"
    "\<And>k. k \<notin> set (map instrument_key is) \<Longrightarrow> map_of (instruments v') k = map_of (AList.update ?k i (instruments v)) k \<and>
       map_of (order_books v') k = map_of (AList.update ?k (new_book ?k) (order_books v)) k"
    by auto
  have keys: "dict_keys (AList.update ?k i (instruments v)) = dict_keys (instruments v) @ [?k]"
    using new by (induction "instruments v") (auto simp: AList.update_keys)
  with IH(5) have fresh: "?k \<notin> set (map instrument_key is)" by auto
  show ?case
    using IH keys fresh new by (auto simp: update_key_cases)
qed simp

text \<open>The keys of a dict that a loop of assignments builds.\<close>

lemma keys_fold_update:
  "set (dict_keys (fold (\<lambda>(k, v) d. AList.update k v d) es d)) = set (dict_keys d) \<union> set (map fst es)"
proof (induction es arbitrary: d)
  case (Cons e es)
  have "set (dict_keys (AList.update k v d)) = insert k (set (dict_keys d))" for k :: 'a and v :: 'b
    by (simp only: dict_keys_update) auto
  with Cons.IH show ?case by (cases e) (simp only: fold.simps comp_apply prod.case, auto)
qed simp

lemma those_keys:
  assumes "those (map f xs) = Some ys" and "\<And>x y. f x = Some y \<Longrightarrow> fst y = fst x"
  shows "map fst ys = map fst xs"
  using assms(1)
proof (induction xs arbitrary: ys)
  case (Cons x xs)
  then show ?case by (auto split: option.splits dest: assms(2))
qed simp

lemma map_exn_keys:
  assumes "map_exn f xs = Inr ys" and "\<And>x y. x \<in> set xs \<Longrightarrow> f x = Inr y \<Longrightarrow> fst y = g x"
  shows "map fst ys = map g xs"
  using assms by (induction xs arbitrary: ys) (auto simp: and_then_Inr)

text \<open>Fee schedules and validator have the roles of the file.\<close>

lemma fee_roles:
  assumes "create_fee_service data = Inr raw" and "typed_fees raw = Some fees"
    and "py_get data ''roles'' (PDict []) = Inr (PDict roles)"
  shows "set (dict_keys fees) = set (map fst roles)"
proof -
  obtain entries where e: "map_exn raw_fees_from roles = Inr entries"
    "raw = fold (\<lambda>(rl, f) d. AList.update rl f d) entries []"
    using assms(1,3) by (auto simp: create_fee_service_def get_fee_schedules_def py_items_def and_then_Inr)
  have "map fst entries = map fst roles"
    by (rule map_exn_keys [OF e(1)]) (auto simp: raw_fees_from_def and_then_Inr split: if_splits)
  moreover have "map fst fees = map fst raw"
    using assms(2) unfolding typed_fees_def
    by (rule those_keys) (auto split: option.splits extnum.splits)
  ultimately show ?thesis
    using keys_fold_update [of entries "[]"] e(2) by simp
qed

lemma validator_roles:
  assumes "create_validator data = Inr raw" and "typed_validator raw = Some cache"
    and "py_get data ''roles'' (PDict []) = Inr (PDict roles)"
  shows "set (dict_keys cache) = set (map fst roles)"
proof -
  obtain entries where e: "map_exn (role_entry data) (map (PStr \<circ> fst) roles) = Inr entries"
    "raw = fold (\<lambda>(rl, f) d. AList.update rl f d) entries []"
    using assms(1,3) by (auto simp: create_validator_def py_iter_def and_then_Inr)
  have "map fst entries = map (\<lambda>v. case v of PStr s \<Rightarrow> s | _ \<Rightarrow> []) (map (PStr \<circ> fst) roles)"
    by (rule map_exn_keys [OF e(1)]) (auto simp: role_entry_def and_then_Inr)
  moreover have "map fst cache = map fst raw"
    using assms(2) unfolding typed_validator_def
    by (rule those_keys) auto
  ultimately show ?thesis
    using keys_fold_update [of entries "[]"] e(2) by (simp add: comp_def)
qed

section \<open>Startup\<close>

lemma startup_parts:
  assumes "startup astimezone t1 t2 data = Inr (Some sv)"
  obtains rc cc ph v rv cache rf fees rs "is" v' where
    "get_response_coordinator_config data = Inr rc" "typed_coordination rc = Some cc"
    "create_exchange astimezone t1 t2 ph = Inr v"
    "create_validator data = Inr rv" "typed_validator rv = Some cache"
    "create_fee_service data = Inr rf" "typed_fees rf = Some fees"
    "get_instruments data = Inr rs" "those (map typed_instrument rs) = Some is"
    "list_instruments is v = (None, v')"
    "sv = \<lparr>sv_pipeline = empty_pipeline v' (new_coordinator (Some cc)), sv_validator = cache,
           sv_fees = fees, sv_game = new_game, sv_websockets = new_manager\<rparr>"
proof -
  note st = assms [unfolded startup_def]
  from st obtain rc cc where 1: "get_response_coordinator_config data = Inr rc" "typed_coordination rc = Some cc"
    and st: "and_then (get_exchange_config data) (\<lambda>ec.
      and_typed (get_market_phases_config data) typed_phases (\<lambda>ph.
      and_then (create_exchange astimezone t1 t2 ph) (\<lambda>v.
      and_typed (create_validator data) typed_validator (\<lambda>cache.
      and_typed (create_fee_service data) typed_fees (\<lambda>fees.
      and_typed (get_instruments data) (\<lambda>rs. those (map typed_instrument rs)) (\<lambda>is.
        (case list_instruments is v of
           (Some e, v') \<Rightarrow> Inl e
         | (None, v') \<Rightarrow>
             Inr (Some \<lparr>sv_pipeline = empty_pipeline v' (new_coordinator (Some cc)), sv_validator = cache,
                        sv_fees = fees, sv_game = new_game, sv_websockets = new_manager\<rparr>)))))))) = Inr (Some sv)"
    unfolding and_typed_Inr by metis
  from st obtain ec ph v where 2: "create_exchange astimezone t1 t2 ph = Inr v"
    and st: "and_typed (create_validator data) typed_validator (\<lambda>cache.
      and_typed (create_fee_service data) typed_fees (\<lambda>fees.
      and_typed (get_instruments data) (\<lambda>rs. those (map typed_instrument rs)) (\<lambda>is.
        (case list_instruments is v of
           (Some e, v') \<Rightarrow> Inl e
         | (None, v') \<Rightarrow>
             Inr (Some \<lparr>sv_pipeline = empty_pipeline v' (new_coordinator (Some cc)), sv_validator = cache,
                        sv_fees = fees, sv_game = new_game, sv_websockets = new_manager\<rparr>))))) = Inr (Some sv)"
    unfolding and_typed_Inr and_then_Inr by metis
  from st obtain rv cache rf fees rs "is" where
    3: "create_validator data = Inr rv" "typed_validator rv = Some cache"
      "create_fee_service data = Inr rf" "typed_fees rf = Some fees"
      "get_instruments data = Inr rs" "those (map typed_instrument rs) = Some is"
    and st: "(case list_instruments is v of
           (Some e, v') \<Rightarrow> Inl e
         | (None, v') \<Rightarrow>
             Inr (Some \<lparr>sv_pipeline = empty_pipeline v' (new_coordinator (Some cc)), sv_validator = cache,
                        sv_fees = fees, sv_game = new_game, sv_websockets = new_manager\<rparr>)) = Inr (Some sv)"
    unfolding and_typed_Inr by metis
  obtain e v' where l: "list_instruments is v = (e, v')" by fastforce
  with st have "e = None" by (cases e) simp_all
  with st l that [OF 1 2 3] show ?thesis by simp
qed

lemma roles_are_dict:
  assumes "create_fee_service data = Inr rf"
  obtains roles where "py_get data ''roles'' (PDict []) = Inr (PDict roles)"
proof -
  obtain rv es where "py_get data ''roles'' (PDict []) = Inr rv" "py_items rv = Inr es"
    using assms by (auto simp: create_fee_service_def get_fee_schedules_def and_then_Inr)
  with that show ?thesis by (cases rv) (simp_all add: py_items_def)
qed

lemma loaded_coordination_positive:
  assumes "get_response_coordinator_config data = Inr r" and "typed_coordination r = Some cfg"
  shows "0 < default_timeout_seconds cfg \<and> 0 < max_pending_requests cfg"
proof -
  have "positive_number (rq_timeout r) \<and> positive_int (rq_max_pending r)"
    using assms(1) unfolding get_response_coordinator_config_def and_then_Inr
    by (force split: if_split_asm simp: and_then_Inr)
  then show ?thesis
    using assms(2)
    by (auto simp: typed_coordination_def positive_number_def positive_int_def elim!: Ints_cases
        split: option.splits extnum.splits list.splits piece.splits)
qed

text \<open>
  C14: what startup guarantees. When it succeeds, every component is in an initial state
  of its model, so all that is proved of reachable states holds of the running server; the
  configured instruments have different symbols (a repeated one makes startup raise) and
  each has an empty book; timeout and capacity of the coordinator are positive; and the
  roles with constraints are exactly the roles with fees, so no fill of a configured role
  fails for want of a fee schedule.
\<close>

theorem startup_ready:
  assumes "startup astimezone t1 t2 data = Inr (Some sv)"
  shows "pipe_reachable (default_registry, sv_validator sv, sv_fees sv) (sv_pipeline sv) (None, sv_pipeline sv) [] \<and>
    reachable_venue (p_venue (sv_pipeline sv)) \<and> game_reachable (sv_game sv, p_positions (sv_pipeline sv)) \<and>
    ws_reachable (sv_websockets sv) \<and>
    (\<exists>cc. coord_reachable cc (p_coordinator (sv_pipeline sv), Map.empty) \<and>
       0 < default_timeout_seconds cc \<and> 0 < max_pending_requests cc) \<and>
    (\<exists>rs is. get_instruments data = Inr rs \<and> those (map typed_instrument rs) = Some is \<and>
       dict_keys (instruments (p_venue (sv_pipeline sv))) = map instrument_key is \<and>
       distinct (map instrument_key is) \<and>
       (\<forall>i \<in> set is. map_of (order_books (p_venue (sv_pipeline sv))) (instrument_key i) = Some (new_book (instrument_key i)))) \<and>
    set (dict_keys (sv_validator sv)) = set (dict_keys (sv_fees sv)) \<and>
    (\<forall>rl \<in> set (dict_keys (sv_validator sv)). \<forall>q l. l \<in> {''maker'', ''taker''} \<longrightarrow>
       (\<exists>fee. calculate_fee (sv_fees sv) q rl l = Inr fee))"
proof -
  from startup_parts [OF assms] obtain rc cc ph v rv cache rf fees rs "is" v' where
    p: "get_response_coordinator_config data = Inr rc" "typed_coordination rc = Some cc"
      "create_exchange astimezone t1 t2 ph = Inr v"
      "create_validator data = Inr rv" "typed_validator rv = Some cache"
      "create_fee_service data = Inr rf" "typed_fees rf = Some fees"
      "get_instruments data = Inr rs" "those (map typed_instrument rs) = Some is"
      "list_instruments is v = (None, v')"
    and sv: "sv = \<lparr>sv_pipeline = empty_pipeline v' (new_coordinator (Some cc)), sv_validator = cache,
           sv_fees = fees, sv_game = new_game, sv_websockets = new_manager\<rparr>"
    by metis
  have v: "reachable_venue v" "instruments v = []"
    using p(3) by (auto simp: create_exchange_def new_venue_def intro: reachable_venue.start split: sum.splits)
  note l = list_instruments_ok [OF p(10) v(1)]
  have "quiet (empty_pipeline v' (new_coordinator (Some cc)))"
    using reachable_venue_wf [of v'] l by (simp add: quiet_def empty_pipeline_def)
  note run = pipe_start [OF this]
  obtain roles where roles: "py_get data ''roles'' (PDict []) = Inr (PDict roles)"
    by (rule roles_are_dict [OF p(6)])
  have same: "set (dict_keys cache) = set (dict_keys fees)"
    using validator_roles [OF p(4,5) roles] fee_roles [OF p(6,7) roles] by simp
  have fee: "\<exists>fee. calculate_fee fees q rl l = Inr fee" if "rl \<in> set (dict_keys cache)" "l \<in> {''maker'', ''taker''}" for rl q l
  proof -
    have "map_of fees rl \<noteq> None" using that(1) same by (simp add: map_of_eq_None_iff)
    with that(2) show ?thesis
      by (auto simp: calculate_fee_def get_fee_for_liquidity_type_def)
  qed
  have "\<exists>cc'. coord_reachable cc' (new_coordinator (Some cc), Map.empty) \<and>
       0 < default_timeout_seconds cc' \<and> 0 < max_pending_requests cc'"
    using coord_reachable.start loaded_coordination_positive [OF p(1,2)] by blast
  moreover have "\<exists>rs is. get_instruments data = Inr rs \<and> those (map typed_instrument rs) = Some is \<and>
       dict_keys (instruments v') = map instrument_key is \<and> distinct (map instrument_key is) \<and>
       (\<forall>i \<in> set is. map_of (order_books v') (instrument_key i) = Some (new_book (instrument_key i)))"
    using p(8,9) l v(2) by (intro exI [of _ rs] exI [of _ "is"]) auto
  ultimately show ?thesis
    using run l same fee by (simp add: sv empty_pipeline_def game_start ws_start)
qed

text \<open>A small configuration file with every section.\<close>

definition demo_hours :: market_phases where
  "demo_hours =
     \<lparr>timezone = ''America/Chicago'',
      schedule = [(''continuous'', \<lparr>start_time = ''09:30'', end_time = ''16:00'', weekdays = [''Monday'']\<rparr>)],
      phase_states = [(''continuous'', \<lparr>cfg_submission_allowed = True, cfg_cancellation_allowed = True,
        cfg_matching_enabled = True, cfg_execution_style = ''continuous''\<rparr>)]\<rparr>"

definition demo_file :: pyval where
  "demo_file =
     PDict [(''response_coordinator'', PDict (coordination_entries half_second)),
       (''market_phases'',
         PDict [(''timezone'', PStr (timezone demo_hours)),
           (''schedule'', PDict (map schedule_entry (schedule demo_hours))),
           (''phase_states'', PDict (map state_entry (phase_states demo_hours)))]),
       (''roles'', PDict [(''market_maker'',
         PDict [(''constraints'', PList [nested_constraint limit_50]),
           (''fees'', PDict [(''maker_rebate'', PNum (1/50)), (''taker_fee'', PNum (- 1/20))])])]),
       (''instruments'', PList [PDict [(''symbol'', PStr ''SPX_4500_CALL''), (''strike'', PNum 4500),
          (''option_type'', PStr ''call''), (''underlying'', PStr ''SPX'')]])]"

definition demo_instrument :: instrument where
  "demo_instrument = \<lparr>symbol = ''SPX_4500_CALL'', strike = Some 4500, expiry = None,
     option_type = Some ''call'', underlying = Some ''SPX''\<rparr>"

lemma demo_coordination:
  "\<exists>r. get_response_coordinator_config demo_file = Inr r \<and> typed_coordination r = Some (whole_seconds half_second)"
proof -
  have "get_response_coordinator_config demo_file =
      get_response_coordinator_config (coordination_file (coordination_entries half_second))"
    by (simp add: get_response_coordinator_config_def demo_file_def coordination_file_def py_in_def py_index_def)
  then show ?thesis
    by (simp add: coordinator_config_value half_second_def typed_coordination_def whole_seconds_def py_int_def)
qed

lemma demo_phases_loaded: "\<exists>r. get_market_phases_config demo_file = Inr r \<and> typed_phases r = Some demo_hours"
proof -
  have "get_market_phases_config demo_file = get_market_phases_config (phases_file demo_hours)"
    by (simp add: get_market_phases_config_def demo_file_def phases_file_def py_in_def py_index_def
        parse_phase_schedule_def parse_phase_states_def)
  also have "\<dots> = Inr \<lparr>rp_timezone = PStr (timezone demo_hours), rp_schedule = map raw_schedule (schedule demo_hours),
      rp_states = map raw_state (phase_states demo_hours)\<rparr>"
  proof -
    have names: "find bad_name (schedule demo_hours) = None" "find bad_name (phase_states demo_hours) = None"
      "distinct (map fst (schedule demo_hours))" "distinct (map fst (phase_states demo_hours))"
      by (simp_all add: demo_hours_def VALID_PHASE_NAMES_def)
    show ?thesis
      by (simp add: get_market_phases_config_def phases_file_def py_in_def py_index_def
          parse_schedule_file [OF names(3)] parse_states_file [OF names(4)] names)
  qed
  finally show ?thesis
    by (simp add: typed_phases_def text_of_def comp_def typed_raw_schedule typed_raw_state)
qed

lemma demo_exchange: "\<exists>v. create_exchange (\<lambda>_. (''Monday'', 34200)) () () demo_hours = Inr v \<and> instruments v = []"
  by (simp add: create_exchange_def new_venue_def get_current_phase_state_def get_current_phase_type_def
      demo_hours_def market_time_def time_fromisoformat_def parse_phase_def)

lemma demo_roles:
  "create_validator demo_file = Inr [(''market_maker'', [raw_config limit_50])]"
  "create_fee_service demo_file = Inr [(''market_maker'', PNum (1/50), PNum (- 1/20))]"
  "get_instruments demo_file = Inr [\<lparr>ri_symbol = PStr ''SPX_4500_CALL'', ri_strike = PNum 4500,
     ri_option_type = PStr ''call'', ri_underlying = PStr ''SPX''\<rparr>]"
  "get_exchange_config demo_file = Inr \<lparr>phase_check_interval = PNum (1/10), order_queue_timeout = PNum (1/100)\<rparr>"
  by (simp_all add: create_validator_def role_entry_def get_role_constraints_def demo_file_def py_in_def
      py_index_def py_get_def py_iter_def raw_constraint_from_nested create_fee_service_def get_fee_schedules_def
      raw_fees_from_def py_items_def get_instruments_def raw_instrument_from_def check_option_type_def
      lower_def lower_char_def get_exchange_config_def)

lemma demo_typed:
  "typed_validator [(''market_maker'', [raw_config limit_50])] = Some [(''market_maker'', [limit_50])]"
  "typed_fees [(''market_maker'', PNum (1/50), PNum (- (1/20)))] =
     Some [(''market_maker'', \<lparr>maker_rebate = 1/50, taker_fee = - 1/20\<rparr>)]"
  "typed_instrument \<lparr>ri_symbol = PStr ''SPX_4500_CALL'', ri_strike = PNum 4500,
     ri_option_type = PStr ''call'', ri_underlying = PStr ''SPX''\<rparr> = Some demo_instrument"
  by (simp_all add: typed_validator_def typed_raw_config one_text_def limit_50_def [THEN arg_cong]
      typed_fees_def typed_instrument_def text_of_def demo_instrument_def)

lemma demo_starts: "\<exists>sv. startup (\<lambda>_. (''Monday'', 34200)) () () demo_file = Inr (Some sv)"
proof -
  obtain r where r: "get_response_coordinator_config demo_file = Inr r"
    "typed_coordination r = Some (whole_seconds half_second)"
    using demo_coordination by blast
  obtain rp where rp: "get_market_phases_config demo_file = Inr rp" "typed_phases rp = Some demo_hours"
    using demo_phases_loaded by blast
  obtain v where v: "create_exchange (\<lambda>_. (''Monday'', 34200)) () () demo_hours = Inr v" "instruments v = []"
    using demo_exchange by blast
  show ?thesis
    by (simp add: startup_def and_typed_def r rp v demo_roles demo_typed list_instrument_def Let_def)
qed

theorem startup_ready_witness:
  "\<exists>sv. startup (\<lambda>_. (''Monday'', 34200)) () () demo_file = Inr (Some sv) \<and>
     reachable_venue (p_venue (sv_pipeline sv)) \<and> set (dict_keys (sv_validator sv)) = set (dict_keys (sv_fees sv))"
  using demo_starts startup_ready [of "\<lambda>_. (''Monday'', 34200)" "()" "()" demo_file] by blast

section \<open>Connecting\<close>


definition demo_game :: game_service where
  "demo_game = snd (register_team ''Alpha'' ''market_maker'' ''token'' new_game)"

lemma demo_team: "\<exists>team. get_team_by_api_key demo_game ''itg_token'' = Some team"
  by (simp add: demo_game_def register_team_def new_game_def get_team_by_api_key_def Let_def)


end
