(* ===== verification/System.thy ===== *)
theory System
  imports Server_Properties
begin

text \<open>
  The running server as one transition system: what clients do through the endpoints and
  what the threads do with their queues, in any order, from what \<open>startup\<close> hands over. The
  validator gets its messages from the endpoints alone here, so what \<open>Pipeline_Flow\<close> asks of
  them is a consequence; the invariants of the components hold together.
\<close>

record running =
  rn_server :: server
  rn_order_queue :: "order_message list"
  rn_memory :: "string option"
  rn_waiters :: "nat \<Rightarrow> waiter option"

definition rn_pipe :: "running \<Rightarrow> pipeline" where
  "rn_pipe r = sv_pipeline (rn_server r)"

definition with_pipe :: "pipeline \<Rightarrow> running \<Rightarrow> running" where
  "with_pipe s r = r\<lparr>rn_server := (rn_server r)\<lparr>sv_pipeline := s\<rparr>\<rparr>"

definition with_coordinator :: "coordinator \<Rightarrow> running \<Rightarrow> running" where
  "with_coordinator c r = with_pipe ((rn_pipe r)\<lparr>p_coordinator := c\<rparr>) r"

definition with_websockets :: "ws_manager \<Rightarrow> running \<Rightarrow> running" where
  "with_websockets m r = r\<lparr>rn_server := (rn_server r)\<lparr>sv_websockets := m\<rparr>\<rparr>"

definition settings_of :: "running \<Rightarrow> settings" where
  "settings_of r = (default_registry, sv_validator (rn_server r), sv_fees (rn_server r))"

definition started :: "server \<Rightarrow> running" where
  "started sv = \<lparr>rn_server = sv, rn_order_queue = [], rn_memory = None, rn_waiters = Map.empty\<rparr>"

text \<open>The endpoints, for a caller with an API key or without one.\<close>

definition register_call :: "string \<Rightarrow> string \<Rightarrow> string \<Rightarrow> string \<Rightarrow> string \<Rightarrow> running \<Rightarrow> running" where
  "register_call rid token created name rl r =
     (case register_team_endpoint rid token created name rl (sv_game (rn_server r), p_positions (rn_pipe r)) of
        (resp, g, ps) \<Rightarrow>
          r\<lparr>rn_server := (rn_server r)\<lparr>sv_game := g, sv_pipeline := (rn_pipe r)\<lparr>p_positions := ps\<rparr>\<rparr>\<rparr>)"

definition enqueue :: "begin_result \<times> coordinator \<Rightarrow> running \<Rightarrow> running" where
  "enqueue b r =
     (case b of
        (Reply resp, c) \<Rightarrow> with_coordinator c r
      | (Enqueue msg rid, c) \<Rightarrow> (with_coordinator c r)\<lparr>rn_order_queue := rn_order_queue r @ [msg]\<rparr>)"

definition submit_call :: "string option \<Rightarrow> order_request \<Rightarrow> string \<Rightarrow> nat \<Rightarrow> rat \<Rightarrow> rat \<Rightarrow> running \<Rightarrow> running" where
  "submit_call key rq uuid ns t1 t2 r =
     (case get_current_team (sv_game (rn_server r)) key of
        Inl e \<Rightarrow> r
      | Inr team \<Rightarrow> enqueue (submit_order_begin rq team uuid ns t1 t2 (p_coordinator (rn_pipe r))) r)"

definition cancel_call :: "string option \<Rightarrow> string \<Rightarrow> nat \<Rightarrow> rat \<Rightarrow> rat \<Rightarrow> running \<Rightarrow> running" where
  "cancel_call key oid ns t1 t2 r =
     (case get_current_team (sv_game (rn_server r)) key of
        Inl e \<Rightarrow> r
      | Inr team \<Rightarrow> enqueue (cancel_order_begin oid team ns t1 t2 (p_coordinator (rn_pipe r))) r)"

definition connect_call :: "nat \<Rightarrow> string \<Rightarrow> bool \<Rightarrow> running \<Rightarrow> running" where
  "connect_call ws key accepts r =
     (case websocket_endpoint ws key accepts (Some (sv_game (rn_server r))) (p_positions (rn_pipe r))
         (websocket_queue (rn_pipe r), sv_websockets (rn_server r)) of
        (res, q, m) \<Rightarrow> with_websockets m (with_pipe ((rn_pipe r)\<lparr>websocket_queue := q\<rparr>) r))"

text \<open>The threads: the validator's turn, and a message for the websocket thread.\<close>

definition validator_turn :: "readings \<Rightarrow> running \<Rightarrow> running" where
  "validator_turn ts r =
     (case rn_order_queue r of
        [] \<Rightarrow> r
      | msg # q \<Rightarrow>
          (case pipeline_step (settings_of r) (Validate ts msg) (rn_memory r, rn_pipe r) of
             (l, s) \<Rightarrow> (with_pipe s r)\<lparr>rn_order_queue := q, rn_memory := l\<rparr>))"

definition pipeline_turn :: "pipeline_event \<Rightarrow> running \<Rightarrow> running" where
  "pipeline_turn ev r = with_pipe (snd (pipeline_step (settings_of r) ev (rn_memory r, rn_pipe r))) r"

definition delivery_turn :: "(nat \<Rightarrow> int \<Rightarrow> bool) \<Rightarrow> running \<Rightarrow> running" where
  "delivery_turn ok r =
     (case websocket_queue (rn_pipe r) of
        [] \<Rightarrow> r
      | i # q \<Rightarrow>
          with_websockets (snd (websocket_async_loop ok [Some i] (sv_websockets (rn_server r))))
            (with_pipe ((rn_pipe r)\<lparr>websocket_queue := q\<rparr>) r))"

fun thread_event :: "pipeline_event \<Rightarrow> bool" where
  "thread_event (Validate ts msg) \<longleftrightarrow> False"
| "thread_event _ \<longleftrightarrow> True"

text \<open>
  What clients do, and then all steps, each with the trades the exchange executes in it. New
  tokens and new sockets are new; the requests' waiters, the cleanup and the shutdown of the
  coordinator are its own steps.
\<close>

inductive client_step :: "running \<Rightarrow> running \<Rightarrow> bool" where
  Register_call:
    "''itg_'' @ token \<notin> set (dict_keys (api_key_to_team (sv_game (rn_server r)))) \<Longrightarrow>
     client_step r (register_call rid token created name rl r)"
| Submit_call: "client_step r (submit_call key rq uuid ns t1 t2 r)"
| Cancel_call: "client_step r (cancel_call key oid ns t1 t2 r)"
| Connect_call:
    "fresh_socket ws (sv_websockets (rn_server r)) \<Longrightarrow> client_step r (connect_call ws key accepts r)"
| Leave_call:
    "client_step r (with_websockets (snd (endpoint_end team (sv_websockets (rn_server r)))) r)"

inductive server_step :: "running \<Rightarrow> trade list \<Rightarrow> running \<Rightarrow> bool" where
  Client_call: "client_step r r' \<Longrightarrow> server_step r [] r'"
| Validator_turn: "server_step r [] (validator_turn ts r)"
| Pipeline_turn:
    "thread_event ev \<Longrightarrow>
     server_step r (if ev = Match then matched (rn_memory r, rn_pipe r) else []) (pipeline_turn ev r)"
| Delivery_turn: "\<not> lock_held (sv_websockets (rn_server r)) \<Longrightarrow> server_step r [] (delivery_turn ok r)"
| Coordinator_turn:
    "coord_step (p_coordinator (rn_pipe r), rn_waiters r) ev (c, ws) \<Longrightarrow> proper_event ev \<Longrightarrow>
     server_step r [] ((with_coordinator c r)\<lparr>rn_waiters := ws\<rparr>)"

inductive server_reachable :: "server \<Rightarrow> running \<Rightarrow> trade list \<Rightarrow> bool" for sv where
  server_start: "server_reachable sv (started sv) []"
| server_next: "server_reachable sv r ex \<Longrightarrow> server_step r ts r' \<Longrightarrow> server_reachable sv r' (ex @ ts)"

end
