(* ===== verification/System_Properties.thy ===== *)
theory System_Properties
  imports System
begin

text \<open>
  The invariant of the running server and what follows from it: the components' invariants
  hold together, every message and order in a queue belongs to a registered team, and the
  positions are the ledger of what the exchange executed.
\<close>

lemma running_simps [simp]:
  "rn_pipe (with_pipe s r) = s" "rn_pipe (with_websockets m r) = rn_pipe r"
  "rn_pipe (with_coordinator c r) = (rn_pipe r)\<lparr>p_coordinator := c\<rparr>"
  "sv_game (rn_server (with_pipe s r)) = sv_game (rn_server r)"
  "sv_game (rn_server (with_websockets m r)) = sv_game (rn_server r)"
  "sv_game (rn_server (with_coordinator c r)) = sv_game (rn_server r)"
  "sv_websockets (rn_server (with_pipe s r)) = sv_websockets (rn_server r)"
  "sv_websockets (rn_server (with_websockets m r)) = m"
  "sv_websockets (rn_server (with_coordinator c r)) = sv_websockets (rn_server r)"
  "rn_order_queue (with_pipe s r) = rn_order_queue r" "rn_order_queue (with_websockets m r) = rn_order_queue r"
  "rn_order_queue (with_coordinator c r) = rn_order_queue r"
  "rn_pipe (r\<lparr>rn_order_queue := q\<rparr>) = rn_pipe r" "rn_pipe (r\<lparr>rn_memory := l\<rparr>) = rn_pipe r"
  "rn_pipe (r\<lparr>rn_waiters := ws\<rparr>) = rn_pipe r"
  by (simp_all add: rn_pipe_def with_pipe_def with_websockets_def with_coordinator_def)

section \<open>Registered teams\<close>

definition registered :: "game_service \<Rightarrow> team_info \<Rightarrow> bool" where
  "registered g t \<longleftrightarrow> map_of (teams g) (team_id t) = Some t"

fun sent_by_member :: "game_service \<Rightarrow> order_message \<Rightarrow> bool" where
  "sent_by_member g (New_order o1 t rid) \<longleftrightarrow> own_order o1 t \<and> registered g t"
| "sent_by_member g (Cancel_order oid t rid) \<longleftrightarrow> registered g t"
| "sent_by_member g _ \<longleftrightarrow> False"

definition queues_ok :: "game_service \<Rightarrow> order_message list \<Rightarrow> pipeline \<Rightarrow> bool" where
  "queues_ok g q s \<longleftrightarrow>
     (\<forall>msg \<in> set q. sent_by_member g msg) \<and> (\<forall>e \<in> set (match_queue s). registered g (snd e)) \<and>
     (\<forall>e \<in> set (trade_queue s @ position_queue s). registered g (snd (snd e)))"

lemma queues_ok_cong:
  "queues_ok g q s \<Longrightarrow> match_queue s' = match_queue s \<Longrightarrow> trade_queue s' = trade_queue s \<Longrightarrow>
   position_queue s' = position_queue s \<Longrightarrow> queues_ok g q s'"
  by (simp add: queues_ok_def)

lemma registration_members:
  assumes "game_ok g" and "''itg_'' @ token \<notin> set (dict_keys (api_key_to_team g))"
    and "register_team_endpoint rid token created name rl (g, ps) = (resp, g', ps')"
  shows "(\<forall>t. registered g t \<longrightarrow> registered g' t) \<and>
    (\<forall>x iid. get_position_for_instrument ps' x iid = get_position_for_instrument ps x iid)"
proof (cases "rl = ''market_maker'' \<and> get_team_by_name g name = None")
  case True
  obtain info g1 where run: "register_team name rl token g = (info, g1)" by fastforce
  note r = register_team_ok [OF assms(1) conjunct2 [OF True] assms(2) run]
  have st: "g' = g1" "ps' = initialize_team (team_id info) ps"
    using assms(3) True run by (auto simp: register_team_endpoint_def)
  have "registered g' t" if "registered g t" for t
    using that r(2) st(1) by (simp add: registered_def)
  moreover have "get_position_for_instrument ps' x iid = get_position_for_instrument ps x iid" for x iid
  proof (cases "team_id info \<in> set (dict_keys ps)")
    case False
    then have "map_of ps (team_id info) = None" by (simp add: map_of_eq_None_iff)
    then show ?thesis
      by (simp add: st(2) initialize_team_def get_position_for_instrument_def update_key_cases False)
  qed (simp add: st(2) initialize_team_def)
  ultimately show ?thesis by blast
next
  case False
  then show ?thesis using assms(3) by (auto simp: register_team_endpoint_def split: option.splits if_splits)
qed

lemma members_queues:
  assumes "queues_ok g q s" and "\<And>t. registered g t \<Longrightarrow> registered g' t"
  shows "queues_ok g' q s"
proof -
  have "sent_by_member g' msg" if "sent_by_member g msg" for msg
    using that assms(2) by (cases msg) auto
  with assms show ?thesis by (auto simp: queues_ok_def)
qed

lemma authenticated_member:
  assumes "game_ok g" and "get_current_team g key = Inr t"
  shows "registered g t"
  using authenticated_owner [OF assms(1), of key] assms(2) by (simp add: registered_def)

section \<open>The accounts\<close>

lemma update_position_keys: "set (dict_keys ps) \<subseteq> set (dict_keys (update_position t iid d ps))"
  unfolding update_position_def Let_def dict_keys_update by auto

lemma track_fill_keys: "set (dict_keys ps) \<subseteq> set (dict_keys (track_fill o1 t f ps))"
proof -
  have a: "set (dict_keys ps) \<subseteq> set (dict_keys (process_aggressor_position f o1 t ps))"
    unfolding process_aggressor_position_def Let_def by (rule update_position_keys)
  have c: "set (dict_keys ps') \<subseteq> set (dict_keys (process_counterparty_position f o1 t ps'))" for ps'
    using update_position_keys by (simp add: process_counterparty_position_def Let_def split: prod.split del: set_map)
  show ?thesis unfolding track_fill_def using a c by (rule subset_trans)
qed

lemma track_keys: "set (dict_keys ps) \<subseteq> set (dict_keys (track_result x o1 t ps))"
proof -
  have "set (dict_keys ps) \<subseteq> set (dict_keys (fold (track_fill o1 t) fs ps))" for fs
  proof (induction fs arbitrary: ps)
    case (Cons f fs)
    show ?case using subset_trans [OF track_fill_keys Cons.IH] by (simp only: fold.simps comp_apply)
  qed simp
  then show ?thesis by (simp only: track_result_def)
qed

lemma accounts_grow: "accounts_ok (g, ps) \<Longrightarrow> set (dict_keys ps) \<subseteq> set (dict_keys ps') \<Longrightarrow> accounts_ok (g, ps')"
  unfolding accounts_ok_def split_beta fst_conv snd_conv by blast

section \<open>One step of the pipeline\<close>

lemma validator_coordinator:
  assumes "coord_ok cc (p_coordinator s)" and "validator_step reg cache ts msg (l, s) = (l', s')"
  shows "coord_ok cc (p_coordinator s')"
proof -
  have n: "coord_ok cc (p_coordinator (notify rid resp oid t s1))" if "coord_ok cc (p_coordinator s1)" for rid resp oid t s1
    using that by (simp add: notify_def notify_completion_ok)
  have err: "coord_ok cc (p_coordinator (handle_validator_error e x t s1))" if "coord_ok cc (p_coordinator s1)" for e x t s1
    using that by (simp add: handle_validator_error_def n split: option.split)
  show ?thesis
  proof (cases msg)
    case (New_order o1 team rid)
    then show ?thesis
      using assms
      by (auto simp: handle_new_order_validation_def handle_unexpected_status_def Let_def n err
          split: sum.splits option.splits if_splits)
  next
    case (Cancel_order oid team rid)
    then show ?thesis
      using assms
      by (auto simp: handle_order_cancellation_def Let_def n err split: sum.splits prod.splits option.splits if_splits)
  qed (use assms in \<open>auto simp: err\<close>)
qed

lemma validator_queues:
  assumes "validator_step reg cache ts msg (l, s) = (l', s')"
  shows "trade_queue s' = trade_queue s \<and> position_queue s' = position_queue s \<and> p_positions s' = p_positions s \<and>
    (match_queue s' = match_queue s \<or> (\<exists>o1 team rid. msg = New_order o1 team rid \<and> match_queue s' = match_queue s @ [(o1, team)]))"
proof (cases msg)
  case (New_order o1 team rid)
  then show ?thesis
    using assms
    by (auto simp: handle_new_order_validation_def handle_unexpected_status_def Let_def
        split: sum.splits option.splits if_splits)
next
  case (Cancel_order oid team rid)
  then show ?thesis
    using assms by (auto simp: handle_order_cancellation_def Let_def split: sum.splits prod.splits if_splits)
qed (use assms in auto)

lemma publish_fills_coordinator [simp]: "p_coordinator (publish_fills fees o1 team ts s) = p_coordinator s"
  by (induction ts arbitrary: s) (simp_all add: Let_def split: sum.split)

lemma match_parts:
  "process_single_order (o1, team) s = s' \<Longrightarrow>
   p_coordinator s' = p_coordinator s \<and> p_positions s' = p_positions s \<and> position_queue s' = position_queue s \<and>
   match_queue s' = match_queue s \<and>
   (trade_queue s' = trade_queue s \<or> (\<exists>x o2. trade_queue s' = trade_queue s @ [(x, o2, team)]))"
  by (auto simp: process_single_order_def Let_def split: prod.splits sum.splits)

lemma thread_turn:
  assumes "thread_event ev" and "pipeline_step cfg ev (l, s) = (l', s')" and "queues_ok g q s"
    and "accounts_ok (g, p_positions s)"
  shows "p_coordinator s' = p_coordinator s \<and> queues_ok g q s' \<and> accounts_ok (g, p_positions s')"
proof (cases ev)
  case Match
  show ?thesis
  proof (cases "match_queue s")
    case (Cons i k)
    obtain o1 team where i: "i = (o1, team)" by fastforce
    have "registered g team" using assms(3) Cons i by (auto simp: queues_ok_def)
    moreover have "process_single_order (o1, team) (s\<lparr>match_queue := k\<rparr>) = s'"
      using assms(2) Match Cons i by simp
    from match_parts [OF this]
    have s': "p_coordinator s' = p_coordinator s" "p_positions s' = p_positions s" "position_queue s' = position_queue s"
      "match_queue s' = k" "trade_queue s' = trade_queue s \<or> (\<exists>x o2. trade_queue s' = trade_queue s @ [(x, o2, team)])"
      by simp_all
    ultimately show ?thesis
      using assms(3,4) Cons by (auto simp: queues_ok_def s'(1-4))
  qed (use assms Match in auto)
next
  case (Check_phases draw ps)
  have "s' = s\<lparr>p_venue := snd (check_phase_transitions draw ps (p_venue s))\<rparr>"
    using assms(2) Check_phases by (cases cfg) simp
  then show ?thesis using assms(3,4) queues_ok_cong [OF assms(3), of s'] by simp
next
  case Publish
  obtain reg cache fees where c: "cfg = (reg, cache, fees)" by (cases cfg) auto
  show ?thesis
  proof (cases "trade_queue s")
    case (Cons e k)
    have s': "s' = publish_trade fees e (s\<lparr>trade_queue := k\<rparr>)" using assms(2) Publish c Cons by simp
    have parts: "p_coordinator s' = p_coordinator s" "p_positions s' = p_positions s" "match_queue s' = match_queue s"
      "trade_queue s' = k" "position_queue s' = position_queue s @ [e]"
      by (simp_all add: s' publish_trade_def split: prod.split)
    then show ?thesis using assms(3,4) Cons by (auto simp: queues_ok_def)
  qed (use assms Publish c in auto)
next
  case Track
  show ?thesis
  proof (cases "position_queue s")
    case (Cons e k)
    obtain x o1 team where e: "e = (x, o1, team)" by (cases e) auto
    have s': "s' = s\<lparr>position_queue := k, p_positions := track_result x o1 team (p_positions s)\<rparr>"
      using assms(2) Track Cons e by (cases cfg) auto
    with accounts_grow [OF assms(4) track_keys, of x o1 team] assms(3) Cons e show ?thesis
      by (auto simp: queues_ok_def)
  qed (use assms Track in \<open>cases cfg, auto\<close>)
qed (use assms(1) in simp)

section \<open>The invariant\<close>

definition system_ok :: "coordination_config \<Rightarrow> pipeline \<Rightarrow> running \<Rightarrow> trade list \<Rightarrow> bool" where
  "system_ok cc s0 r ex \<longleftrightarrow>
     flow_ok s0 (rn_pipe r) ex \<and> coord_ok cc (p_coordinator (rn_pipe r)) \<and>
     accounts_ok (sv_game (rn_server r), p_positions (rn_pipe r)) \<and> ws_ok (sv_websockets (rn_server r)) \<and>
     queues_ok (sv_game (rn_server r)) (rn_order_queue r) (rn_pipe r)"

lemma system_okD:
  assumes "system_ok cc s0 r ex"
  shows "flow_ok s0 (rn_pipe r) ex" and "coord_ok cc (p_coordinator (rn_pipe r))"
    and "accounts_ok (sv_game (rn_server r), p_positions (rn_pipe r))" and "ws_ok (sv_websockets (rn_server r))"
    and "queues_ok (sv_game (rn_server r)) (rn_order_queue r) (rn_pipe r)" and "game_ok (sv_game (rn_server r))"
  using assms by (simp_all add: system_ok_def accounts_ok_def)

lemma flow_same:
  "flow_ok s0 s ex \<Longrightarrow> p_venue s' = p_venue s \<Longrightarrow> trade_queue s' = trade_queue s \<Longrightarrow>
   position_queue s' = position_queue s \<Longrightarrow> p_positions s' = p_positions s \<Longrightarrow> match_queue s' = match_queue s \<Longrightarrow>
   flow_ok s0 s' ex"
  by (rule flow_cong) (auto simp: flow_ok_def)

lemma flow_positions:
  assumes "flow_ok s0 s ex"
    and "\<forall>x iid. get_position_for_instrument ps x iid = get_position_for_instrument (p_positions s) x iid"
  shows "flow_ok s0 (s\<lparr>p_positions := ps\<rparr>) ex"
proof -
  have "in_flight (s\<lparr>p_positions := ps\<rparr>) = in_flight s" by (simp add: in_flight_def)
  then show ?thesis using assms(1) unfolding flow_ok_def by (simp add: assms(2) [rule_format])
qed

text \<open>A step outside the pipeline: coordinator, sockets, websocket queue and order queue.\<close>

lemma system_ok_outside:
  assumes "system_ok cc s0 r ex" and "sv_game (rn_server r') = sv_game (rn_server r)"
    and "rn_pipe r' = (rn_pipe r)\<lparr>p_coordinator := c, websocket_queue := wq\<rparr>" and "coord_ok cc c"
    and "ws_ok (sv_websockets (rn_server r'))"
    and "\<And>msg. msg \<in> set (rn_order_queue r') \<Longrightarrow> msg \<in> set (rn_order_queue r) \<or> sent_by_member (sv_game (rn_server r)) msg"
  shows "system_ok cc s0 r' ex"
proof -
  note ok = system_okD [OF assms(1)]
  have "flow_ok s0 (rn_pipe r') ex" by (rule flow_same [OF ok(1)]) (simp_all add: assms(3))
  moreover have "queues_ok (sv_game (rn_server r')) (rn_order_queue r') (rn_pipe r')"
    using ok(5) assms(2,3,6) by (auto simp: queues_ok_def)
  ultimately show ?thesis
    using ok assms(2-5) by (simp add: system_ok_def)
qed

lemma system_ok_outside_same:
  "system_ok cc s0 r ex \<Longrightarrow> coord_ok cc (p_coordinator (rn_pipe r)) \<Longrightarrow> ws_ok m \<Longrightarrow>
   system_ok cc s0 (with_websockets m (with_pipe ((rn_pipe r)\<lparr>websocket_queue := q\<rparr>) r)) ex"
  "system_ok cc s0 r ex \<Longrightarrow> ws_ok m \<Longrightarrow> system_ok cc s0 (with_websockets m r) ex"
  by (auto simp: system_ok_def queues_ok_def intro: flow_same)

lemma ws_ok_closed [simp]: "ws_ok (m\<lparr>closed_sockets := x\<rparr>) = ws_ok m"
  by (simp add: ws_ok_def)

lemma enqueue_ok:
  assumes "system_ok cc s0 r ex" and "coord_ok cc c"
    and "\<And>msg rid. b = Enqueue msg rid \<Longrightarrow> sent_by_member (sv_game (rn_server r)) msg"
  shows "system_ok cc s0 (enqueue (b, c) r) ex"
proof -
  note ok = system_okD [OF assms(1)]
  have e: "sv_game (rn_server (enqueue (b, c) r)) = sv_game (rn_server r)"
    "rn_pipe (enqueue (b, c) r) = (rn_pipe r)\<lparr>p_coordinator := c, websocket_queue := websocket_queue (rn_pipe r)\<rparr>"
    "sv_websockets (rn_server (enqueue (b, c) r)) = sv_websockets (rn_server r)"
    "set (rn_order_queue (enqueue (b, c) r)) \<subseteq> set (rn_order_queue r) \<union> (case b of Reply x \<Rightarrow> {} | Enqueue msg rid \<Rightarrow> {msg})"
    by (cases b; simp add: enqueue_def)+
  show ?thesis
  proof (rule system_ok_outside [OF assms(1) e(1,2) assms(2)])
    show "ws_ok (sv_websockets (rn_server (enqueue (b, c) r)))" using ok(4) e(3) by simp
    show "msg \<in> set (rn_order_queue r) \<or> sent_by_member (sv_game (rn_server r)) msg"
      if "msg \<in> set (rn_order_queue (enqueue (b, c) r))" for msg
      using that e(4) assms(3) by (cases b) auto
  qed
qed

lemma begin_own_order:
  "submit_order_begin rq team uuid ns t1 t2 c = (Enqueue msg rid, c') \<Longrightarrow>
   \<exists>o1. msg = New_order o1 team rid \<and> own_order o1 team"
  by (elim submit_order_begin_enqueue) blast

lemma begin_coordinator:
  assumes "coord_ok cc c"
  shows "coord_ok cc (snd (submit_order_begin rq team uuid ns t1 t2 c))"
    and "coord_ok cc (snd (cancel_order_begin oid team ns t1 t2 c))"
  using assms register_request_ok [OF assms]
  by (auto simp: submit_order_begin_def cancel_order_begin_def split: option.split sum.split prod.split)
    (metis snd_conv)+

lemma client_step_ok:
  assumes "client_step r r'" and "system_ok cc s0 r ex"
  shows "system_ok cc s0 r' ex"
  using assms
proof (induction rule: client_step.induct)
  case (Register_call token r rid created name rl)
  let ?g = "sv_game (rn_server r)" and ?ps = "p_positions (rn_pipe r)"
  note ok = system_okD [OF Register_call.prems]
  obtain resp g' ps' where run: "register_team_endpoint rid token created name rl (?g, ?ps) = (resp, g', ps')"
    by (metis prod_cases3)
  note m = registration_members [OF ok(6) Register_call.hyps run]
  let ?r' = "register_call rid token created name rl r"
  have r': "sv_game (rn_server ?r') = g'" "rn_pipe ?r' = (rn_pipe r)\<lparr>p_positions := ps'\<rparr>"
    "sv_websockets (rn_server ?r') = sv_websockets (rn_server r)" "rn_order_queue ?r' = rn_order_queue r"
    by (simp_all add: register_call_def run [unfolded rn_pipe_def] rn_pipe_def)
  have "accounts_ok (g', ps')" using accounts_ok_register [OF ok(3) Register_call.hyps, of rid created name rl] run by simp
  moreover have "flow_ok s0 (rn_pipe ?r') ex"
    unfolding r' by (rule flow_positions [OF ok(1) conjunct2 [OF m]])
  moreover have "queues_ok g' (rn_order_queue r) (rn_pipe r)" by (rule members_queues [OF ok(5)]) (use m in blast)
  then have "queues_ok g' (rn_order_queue ?r') (rn_pipe ?r')" by (simp add: queues_ok_def r')
  ultimately show ?case using ok by (simp add: system_ok_def r')
next
  case (Submit_call r key rq uuid ns t1 t2)
  note ok = system_okD [OF Submit_call.prems]
  show ?case
  proof (cases "get_current_team (sv_game (rn_server r)) key")
    case (Inr team)
    obtain b c where b: "submit_order_begin rq team uuid ns t1 t2 (p_coordinator (rn_pipe r)) = (b, c)" by fastforce
    have "system_ok cc s0 (enqueue (b, c) r) ex"
    proof (rule enqueue_ok [OF Submit_call.prems])
      show "coord_ok cc c" using begin_coordinator(1) [OF ok(2)] b by (metis snd_conv)
      show "sent_by_member (sv_game (rn_server r)) msg" if "b = Enqueue msg rid" for msg rid
        using begin_own_order [of rq team uuid ns t1 t2 "p_coordinator (rn_pipe r)" msg rid c] b that
          authenticated_member [OF ok(6) Inr] by auto
    qed
    with Inr b show ?thesis by (simp add: submit_call_def)
  qed (use Submit_call.prems in \<open>simp add: submit_call_def\<close>)
next
  case (Cancel_call r key oid ns t1 t2)
  note ok = system_okD [OF Cancel_call.prems]
  show ?case
  proof (cases "get_current_team (sv_game (rn_server r)) key")
    case (Inr team)
    obtain b c where b: "cancel_order_begin oid team ns t1 t2 (p_coordinator (rn_pipe r)) = (b, c)" by fastforce
    have "system_ok cc s0 (enqueue (b, c) r) ex"
    proof (rule enqueue_ok [OF Cancel_call.prems])
      show "coord_ok cc c" using begin_coordinator(2) [OF ok(2)] b by (metis snd_conv)
      show "sent_by_member (sv_game (rn_server r)) msg" if "b = Enqueue msg rid" for msg rid
        using b that authenticated_member [OF ok(6) Inr]
        by (auto simp: cancel_order_begin_def split: sum.splits prod.splits)
    qed
    with Inr b show ?thesis by (simp add: cancel_call_def)
  qed (use Cancel_call.prems in \<open>simp add: cancel_call_def\<close>)
next
  case (Connect_call ws r key accepts)
  note ok = system_okD [OF Connect_call.prems]
  obtain res q m where run: "websocket_endpoint ws key accepts (Some (sv_game (rn_server r))) (p_positions (rn_pipe r))
      (websocket_queue (rn_pipe r), sv_websockets (rn_server r)) = (res, q, m)" by (metis prod_cases3)
  have "m = (sv_websockets (rn_server r))\<lparr>closed_sockets := insert ws (closed_sockets (sv_websockets (rn_server r)))\<rparr> \<or>
      (\<exists>team. m = snd (ws_connect ws team accepts (sv_websockets (rn_server r))))"
    using run by (auto simp: websocket_endpoint_def split: option.splits prod.splits outcome.splits) (metis snd_conv)+
  then have "ws_ok m" using ok(4) ws_ok_connect [OF ok(4) Connect_call.hyps] by auto
  moreover have "connect_call ws key accepts r = with_websockets m (with_pipe ((rn_pipe r)\<lparr>websocket_queue := q\<rparr>) r)"
    by (simp add: connect_call_def run)
  ultimately show ?case
    using Connect_call.prems ok(2) by (simp add: system_ok_outside_same)
next
  case (Leave_call r team)
  note ok = system_okD [OF Leave_call.prems]
  show ?case
    using Leave_call.prems ok(2) ws_ok_disconnect [OF ok(4)] by (simp add: system_ok_outside_same endpoint_end_def)
qed

lemma server_step_ok:
  assumes "server_step r ts r'" and "system_ok cc s0 r ex"
  shows "system_ok cc s0 r' (ex @ ts)"
  using assms
proof (induction rule: server_step.induct)
  case (Client_call r r')
  then show ?case using client_step_ok by simp
next
  case (Validator_turn r ts)
  note ok = system_okD [OF Validator_turn.prems]
  show ?case
  proof (cases "rn_order_queue r")
    case (Cons msg q)
    obtain l s where run: "pipeline_step (settings_of r) (Validate ts msg) (rn_memory r, rn_pipe r) = (l, s)" by fastforce
    then have step: "validator_step default_registry (sv_validator (rn_server r)) ts msg (rn_memory r, rn_pipe r) = (l, s)"
      by (simp add: settings_of_def)
    have sent: "sent_by_member (sv_game (rn_server r)) msg" using ok(5) Cons by (simp add: queues_ok_def)
    then have ev: "event_ok (Validate ts msg)" by (cases msg) simp_all
    have "flow_ok s0 s ex" by (rule flow_validate [OF ok(1) ev step])
    moreover have "coord_ok cc (p_coordinator s)" by (rule validator_coordinator [OF ok(2) step])
    moreover have "queues_ok (sv_game (rn_server r)) q s"
      using ok(5) Cons validator_queues [OF step] sent by (auto simp: queues_ok_def)
    moreover have "p_positions s = p_positions (rn_pipe r)" using validator_queues [OF step] by simp
    moreover have "validator_turn ts r = (with_pipe s r)\<lparr>rn_order_queue := q, rn_memory := l\<rparr>"
      by (simp add: validator_turn_def Cons run)
    ultimately show ?thesis using ok(3,4) by (simp add: system_ok_def)
  qed (use Validator_turn.prems in \<open>simp add: validator_turn_def\<close>)
next
  case (Pipeline_turn ev r)
  note ok = system_okD [OF Pipeline_turn.prems]
  obtain l s where run: "pipeline_step (settings_of r) ev (rn_memory r, rn_pipe r) = (l, s)" by fastforce
  have "event_ok ev" using Pipeline_turn.hyps by (cases ev) simp_all
  from flow_step [OF ok(1) this run]
  have "flow_ok s0 s (ex @ (if ev = Match then matched (rn_memory r, rn_pipe r) else []))" .
  with thread_turn [OF Pipeline_turn.hyps run ok(5,3)] ok show ?case
    by (simp add: system_ok_def pipeline_turn_def run)
next
  case (Delivery_turn r sends)
  note ok = system_okD [OF Delivery_turn.prems]
  show ?case
  proof (cases "websocket_queue (rn_pipe r)")
    case (Cons i q)
    then show ?thesis
      using Delivery_turn.prems ok(2) ws_ok_loop [OF ok(4)] by (simp add: delivery_turn_def system_ok_outside_same)
  qed (use Delivery_turn.prems in \<open>simp add: delivery_turn_def\<close>)
next
  case (Coordinator_turn r ev c ws)
  note ok = system_okD [OF Coordinator_turn.prems]
  have "coord_ok cc c" using coord_step_ok [OF Coordinator_turn.hyps, of cc] ok(2) by simp
  then have "system_ok cc s0 ((with_coordinator c r)\<lparr>rn_waiters := ws\<rparr>) ex"
    using ok(4,5)
    by (intro system_ok_outside [OF Coordinator_turn.prems, where c = c and wq = "websocket_queue (rn_pipe r)"]) auto
  then show ?case by simp
qed

lemma server_reachable_ok:
  assumes "server_reachable sv r ex" and "system_ok cc (sv_pipeline sv) (started sv) []"
  shows "system_ok cc (sv_pipeline sv) r ex"
  using assms by (induction rule: server_reachable.induct) (auto intro: server_step_ok)

lemma startup_system_ok:
  assumes "startup astimezone t1 t2 data = Inr (Some sv)"
  obtains cc rc where "get_response_coordinator_config data = Inr rc" and "typed_coordination rc = Some cc"
    and "0 < max_pending_requests cc" and "system_ok cc (sv_pipeline sv) (started sv) []"
    and "p_positions (sv_pipeline sv) = []"
proof -
  obtain rc cc ph v rv cache rf fees rs "is" v' where
    p: "get_response_coordinator_config data = Inr rc" "typed_coordination rc = Some cc"
      "create_exchange astimezone t1 t2 ph = Inr v" "list_instruments is v = (None, v')"
    and sv: "sv = \<lparr>sv_pipeline = empty_pipeline v' (new_coordinator (Some cc)), sv_validator = cache,
           sv_fees = fees, sv_game = new_game, sv_websockets = new_manager\<rparr>"
    by (rule startup_parts [OF assms])
  have "reachable_venue v"
    using p(3) by (auto simp: create_exchange_def intro: reachable_venue.start)
  then have wf: "venue_wf v'" using list_instruments_ok [OF p(4)] reachable_venue_wf by blast
  have "system_ok cc (sv_pipeline sv) (started sv) []"
    using wf game_reachable_ok [OF game_start]
    by (simp add: system_ok_def started_def rn_pipe_def sv empty_pipeline_def flow_ok_def in_flight_def
        new_coordinator_ok ws_ok_new queues_ok_def)
  moreover have "p_positions (sv_pipeline sv) = []" by (simp add: sv empty_pipeline_def)
  ultimately show thesis
    using that p(1,2) loaded_coordination_positive [OF p(1,2)] by blast
qed



section \<open>Nothing raises\<close>

lemma with_validator [simp]:
  "sv_validator (rn_server (with_pipe s r)) = sv_validator (rn_server r)"
  "sv_validator (rn_server (with_websockets m r)) = sv_validator (rn_server r)"
  "sv_validator (rn_server (with_coordinator c r)) = sv_validator (rn_server r)"
  "sv_fees (rn_server (with_pipe s r)) = sv_fees (rn_server r)"
  "sv_fees (rn_server (with_websockets m r)) = sv_fees (rn_server r)"
  "sv_fees (rn_server (with_coordinator c r)) = sv_fees (rn_server r)"
  by (simp_all add: with_pipe_def with_websockets_def with_coordinator_def)

lemma settings_kept:
  "server_reachable sv r ex \<Longrightarrow>
   sv_validator (rn_server r) = sv_validator sv \<and> sv_fees (rn_server r) = sv_fees sv"
proof (induction rule: server_reachable.induct)
  case (server_next r ex ts r')
  have "sv_validator (rn_server r') = sv_validator (rn_server r) \<and> sv_fees (rn_server r') = sv_fees (rn_server r)"
    using server_next.hyps(2)
    by (cases rule: server_step.cases)
      (auto elim!: client_step.cases simp: register_call_def submit_call_def cancel_call_def connect_call_def enqueue_def validator_turn_def
        pipeline_turn_def delivery_turn_def split: prod.split sum.split begin_result.split list.split)
  with server_next.IH show ?case by simp
qed (simp add: started_def)

lemma role_constraints_typed:
  assumes "\<forall>(rl, cs) \<in> set cache. \<forall>cfg \<in> set cs. typed_params (constraint_type cfg) (parameters cfg)"
  shows "\<forall>cfg \<in> set (get_constraints_for_role cache rl). typed_params (constraint_type cfg) (parameters cfg)"
  using assms by (cases "map_of cache rl") (auto simp: get_constraints_for_role_def dest: map_of_in_set)

lemma find_decides: "(find (\<lambda>x. \<not> P x) xs = None \<longrightarrow> (\<forall>x \<in> set xs. P x)) \<and>
    (\<forall>y. find (\<lambda>x. \<not> P x) xs = Some y \<longrightarrow> (\<exists>x \<in> set xs. \<not> P x))"
  by (induction xs) auto

lemma cancellation_total:
  assumes "venue_wf v"
  shows "\<exists>x v'. validate_cancellation oid team v = (Inr x, v')"
proof -
  obtain r v' where c: "venue_cancel_order oid team v = (r, v')" by fastforce
  have "raises (Cancel oid team) (outcome r)"
    using venue_step_ok [OF assms, of "Cancel oid team" "outcome r" v'] c by simp
  with c show ?thesis
    by (cases r) (auto simp: validate_cancellation_def outcome_def split: bool.split)
qed

text \<open>
  C3: on a well-typed configuration no thread raises. When the loaded constraints have
  parameters of the right types and the file has the role every team is registered with,
  then in every state the server can reach: the order at the head of the order queue is
  decided without an exception, accepted exactly when every constraint of its team's role is
  satisfied by the positions of that moment; a cancellation is decided without an exception;
  and the fee of every queued fill is defined.
\<close>

theorem typed_server_never_raises:
  assumes "startup astimezone t1 t2 data = Inr (Some sv)" and "server_reachable sv r ex"
    and "\<forall>(rl, cs) \<in> set (sv_validator sv). \<forall>cfg \<in> set cs. typed_params (constraint_type cfg) (parameters cfg)"
    and "''market_maker'' \<in> set (dict_keys (sv_fees sv))"
  shows "(\<forall>o1 t rid q ts. rn_order_queue r = New_order o1 t rid # q \<longrightarrow>
      fst (handle_new_order_validation default_registry (sv_validator (rn_server r)) ts o1 t rid (rn_pipe r)) = None \<and>
      (granted default_registry (sv_validator (rn_server r)) ts (New_order o1 t rid) (rn_pipe r) \<longleftrightarrow>
         (\<forall>cfg \<in> set (get_constraints_for_role (sv_validator sv) (role t)).
            satisfied (constraint_type cfg)
              (order_context (p_positions (rn_pipe r)) (p_windows (rn_pipe r)) (t_count ts) o1 t) (parameters cfg)))) \<and>
    (\<forall>oid t rid ts. fst (handle_order_cancellation ts oid t rid (rn_pipe r)) = None) \<and>
    (\<forall>x o1 t q l. (x, o1, t) \<in> set (trade_queue (rn_pipe r)) \<longrightarrow> l \<in> {''maker'', ''taker''} \<longrightarrow>
       (\<exists>fee. calculate_fee (sv_fees (rn_server r)) q (role t) l = Inr fee))"
proof (intro conjI allI impI)
  obtain cc rc where start: "system_ok cc (sv_pipeline sv) (started sv) []"
    by (rule startup_system_ok [OF assms(1)])
  note ok = system_okD [OF server_reachable_ok [OF assms(2) start]]
  note kept = settings_kept [OF assms(2)]
  {
    fix o1 t rid q and ts :: readings
    assume q: "rn_order_queue r = New_order o1 t rid # q"
    let ?c = "order_context (p_positions (rn_pipe r)) (p_windows (rn_pipe r)) (t_count ts) o1 t"
    have "own_order o1 t" using ok(5) q by (simp add: queues_ok_def)
    then have good: "order_ok (vc_order ?c)" by (simp add: order_context_def own_order_def fresh_order_def)
    have role: "vc_trader_role ?c = role t" by (simp add: order_context_def)
    have typed: "\<forall>cfg \<in> set (get_constraints_for_role (sv_validator sv) (role t)). typed_params (constraint_type cfg) (parameters cfg)"
      by (rule role_constraints_typed [OF assms(3)])
    let ?ok = "\<lambda>cfg. satisfied (constraint_type cfg) ?c (parameters cfg)"
    note fd = find_decides [of ?ok "get_constraints_for_role (sv_validator sv) (role t)"]
    have "\<exists>res. validate_new_order default_registry (sv_validator sv) (p_positions (rn_pipe r)) (p_windows (rn_pipe r)) (t_count ts) o1 t = Inr res \<and>
      (status res = ''accepted'' \<longleftrightarrow> (\<forall>cfg \<in> set (get_constraints_for_role (sv_validator sv) (role t)). ?ok cfg))"
    proof (cases "find (\<lambda>cfg. \<not> ?ok cfg) (get_constraints_for_role (sv_validator sv) (role t))")
      case None
      then show ?thesis
        using apply_constraints_ok [OF good typed] role fd
        by (simp add: validate_new_order_def validate_order_def acceptance_def)
    next
      case (Some cfg)
      then have "\<not> (\<forall>cfg \<in> set (get_constraints_for_role (sv_validator sv) (role t)). ?ok cfg)" using fd by blast
      with Some show ?thesis
        using apply_constraints_ok [OF good typed] role
        by (auto simp: validate_new_order_def validate_order_def rejection_def)
    qed
    then obtain res where
      res: "validate_new_order default_registry (sv_validator sv) (p_positions (rn_pipe r)) (p_windows (rn_pipe r)) (t_count ts) o1 t = Inr res"
      "status res = ''accepted'' \<longleftrightarrow> (\<forall>cfg \<in> set (get_constraints_for_role (sv_validator sv) (role t)). ?ok cfg)"
      by blast
    show "fst (handle_new_order_validation default_registry (sv_validator (rn_server r)) ts o1 t rid (rn_pipe r)) = None"
      using res(1) validate_new_order_outcome [OF res(1)]
      by (auto simp: handle_new_order_validation_def kept Let_def)
    show "granted default_registry (sv_validator (rn_server r)) ts (New_order o1 t rid) (rn_pipe r) \<longleftrightarrow>
         (\<forall>cfg \<in> set (get_constraints_for_role (sv_validator sv) (role t)). satisfied (constraint_type cfg) ?c (parameters cfg))"
      using res by (simp add: kept)
  next
    fix oid rid and t :: team_info and ts :: readings
    have "venue_wf (p_venue (rn_pipe r))" using ok(1) by (simp add: flow_ok_def)
    from cancellation_total [OF this, of oid "team_id t"]
    show "fst (handle_order_cancellation ts oid t rid (rn_pipe r)) = None"
      by (auto simp: handle_order_cancellation_def Let_def)
  next
    fix x o1 t q l
    assume "(x, o1, t) \<in> set (trade_queue (rn_pipe r))" and l: "l \<in> {''maker'', ''taker''}"
    then have "registered (sv_game (rn_server r)) t" using ok(5) by (force simp: queues_ok_def)
    then have "(team_id t, t) \<in> set (teams (sv_game (rn_server r)))"
      by (simp add: registered_def map_of_in_set)
    then have "role t = ''market_maker''" using ok(3) by (fastforce simp: accounts_ok_def)
    moreover have "map_of (sv_fees sv) ''market_maker'' \<noteq> None" using assms(4) by (simp add: map_of_eq_None_iff)
    ultimately show "\<exists>fee. calculate_fee (sv_fees (rn_server r)) q (role t) l = Inr fee"
      using l by (auto simp: kept calculate_fee_def get_fee_for_liquidity_type_def)
  }
qed

text \<open>A team registers with the server of the demo file and sends a market order.\<close>

definition demo_run :: "server \<Rightarrow> running" where
  "demo_run sv = submit_call (Some ''itg_token'') market_request ''u'' 7 0 0
     (register_call ''r'' ''token'' ''now'' ''Alpha'' ''market_maker'' (started sv))"

lemma demo_server:
  obtains sv where "startup (\<lambda>_. (''Monday'', 34200)) () () demo_file = Inr (Some sv)" and "sv_game sv = new_game"
    and "p_coordinator (sv_pipeline sv) = new_coordinator (Some (whole_seconds half_second))"
    and "sv_validator sv = [(''market_maker'', [limit_50])]"
    and "sv_fees sv = [(''market_maker'', \<lparr>maker_rebate = 1/50, taker_fee = - 1/20\<rparr>)]"
proof -
  obtain sv where sv: "startup (\<lambda>_. (''Monday'', 34200)) () () demo_file = Inr (Some sv)"
    using demo_starts by blast
  obtain rc where rc: "get_response_coordinator_config demo_file = Inr rc" "typed_coordination rc = Some (whole_seconds half_second)"
    using demo_coordination by blast
  show thesis
    by (rule startup_parts [OF sv], rule that [OF sv]) (use rc demo_roles demo_typed in \<open>auto simp: empty_pipeline_def\<close>)
qed

lemma demo_run_reachable:
  assumes "sv_game sv = new_game"
  shows "server_reachable sv (demo_run sv) []"
proof -
  have "server_step (started sv) [] (register_call ''r'' ''token'' ''now'' ''Alpha'' ''market_maker'' (started sv))"
    by (rule Client_call, rule Register_call) (simp add: started_def assms new_game_def)
  from server_next [OF server_next [OF server_start this] Client_call [OF Submit_call]] show ?thesis
    by (simp add: demo_run_def)
qed

lemma demo_run_queue:
  assumes "sv_game sv = new_game" and "p_coordinator (sv_pipeline sv) = new_coordinator (Some (whole_seconds half_second))"
  shows "\<exists>o1 t rid. rn_order_queue (demo_run sv) = [New_order o1 t rid] \<and> quantity o1 = 7 \<and> role t = ''market_maker''"
proof -
  let ?r = "register_call ''r'' ''token'' ''now'' ''Alpha'' ''market_maker'' (started sv)"
  have "\<exists>t. get_current_team (sv_game (rn_server ?r)) (Some ''itg_token'') = Inr t \<and> role t = ''market_maker''"
    by (simp add: register_call_def register_team_endpoint_def register_team_def started_def assms(1) new_game_def
        get_team_by_name_def rn_pipe_def Let_def get_current_team_def get_team_by_api_key_def)
  then obtain t where t: "get_current_team (sv_game (rn_server ?r)) (Some ''itg_token'') = Inr t"
    and role: "role t = ''market_maker''" by blast
  have c: "p_coordinator (rn_pipe ?r) = new_coordinator (Some (whole_seconds half_second))" "rn_order_queue ?r = []"
    by (simp_all add: register_call_def rn_pipe_def started_def assms(2) split: prod.split)
  have "\<exists>g c'. register_request (team_id t) (Some 5) 7 0 0 (new_coordinator (Some (whole_seconds half_second))) = (Inr g, c')"
    by (simp add: register_request_def new_coordinator_def whole_seconds_def half_second_def Let_def)
  moreover obtain o1 where o1: "new_order (rq_instrument_id market_request) (side_value BUY) (of_int (rq_quantity market_request))
      (team_id t) (rq_price market_request) ''u'' (rq_client_order_id market_request) = Inr o1"
    using market_request_order(3) by blast
  moreover have "quantity o1 = 7" using new_order_fields [OF o1] by (simp add: market_request_def)
  ultimately show ?thesis
    using role by (auto simp: demo_run_def submit_call_def t c enqueue_def submit_order_begin_def market_request_order(1,2))
qed

theorem typed_server_never_raises_witness:
  "\<exists>sv o1 t rid. startup (\<lambda>_. (''Monday'', 34200)) () () demo_file = Inr (Some sv) \<and>
     server_reachable sv (demo_run sv) [] \<and> rn_order_queue (demo_run sv) = [New_order o1 t rid] \<and>
     (\<forall>ts. fst (handle_new_order_validation default_registry (sv_validator (rn_server (demo_run sv))) ts o1 t rid
        (rn_pipe (demo_run sv))) = None)"
proof -
  obtain sv where sv: "startup (\<lambda>_. (''Monday'', 34200)) () () demo_file = Inr (Some sv)" "sv_game sv = new_game"
    "p_coordinator (sv_pipeline sv) = new_coordinator (Some (whole_seconds half_second))"
    "sv_validator sv = [(''market_maker'', [limit_50])]"
    "sv_fees sv = [(''market_maker'', \<lparr>maker_rebate = 1/50, taker_fee = - 1/20\<rparr>)]"
    by (rule demo_server)
  obtain o1 t rid where q: "rn_order_queue (demo_run sv) = [New_order o1 t rid]"
    using demo_run_queue [OF sv(2,3)] by blast
  note reach = demo_run_reachable [OF sv(2)]
  have typed: "\<forall>(rl, cs) \<in> set (sv_validator sv). \<forall>cfg \<in> set cs. typed_params (constraint_type cfg) (parameters cfg)"
    by (simp add: sv(4) limit_50_def numeric_def param_def)
  have "''market_maker'' \<in> set (dict_keys (sv_fees sv))" by (simp add: sv(5))
  from conjunct1 [OF typed_server_never_raises [OF sv(1) reach typed this]]
  have "fst (handle_new_order_validation default_registry (sv_validator (rn_server (demo_run sv))) ts o1 t rid
      (rn_pipe (demo_run sv))) = None" for ts
    using q by simp
  with sv(1) reach q show ?thesis by blast
qed

end
