(* ===== verification/Shutdown.thy ===== *)
theory Shutdown
  imports System_Properties
begin

text \<open>
  The end of the server: \<open>shutdown\<close> of \<open>api/main.py\<close> and how the threads stop. \<open>shutdown\<close>
  shuts the coordinator down and then puts the marker None on the five queues; the thread
  that takes a marker leaves its loop. The matching thread also ends when a phase check
  raises. The running server is the one of \<open>System\<close>; added are the actions \<open>shutdown\<close> still
  has to do, how many items of a queue lie before its marker, and which threads have ended.

  An endpoint registers its request and puts its message without giving up the event loop,
  on which \<open>shutdown\<close> runs as well, so a submission is one step here too.
\<close>

section \<open>Threads and their queues\<close>

datatype server_thread = Validator_t | Matching_t | Publisher_t | Position_t | Websocket_t

datatype queue_item =
    Message order_message
  | Checked "order \<times> team_info"
  | Result "order_result \<times> order \<times> team_info"
  | Notice ws_item

fun queue_of :: "server_thread \<Rightarrow> running \<Rightarrow> queue_item list" where
  "queue_of Validator_t r = map Message (rn_order_queue r)"
| "queue_of Matching_t r = map Checked (match_queue (rn_pipe r))"
| "queue_of Publisher_t r = map Result (trade_queue (rn_pipe r))"
| "queue_of Position_t r = map Result (position_queue (rn_pipe r))"
| "queue_of Websocket_t r = map Notice (websocket_queue (rn_pipe r))"

text \<open>One item, when there is one.\<close>

fun take_item :: "server_thread \<Rightarrow> readings \<Rightarrow> (nat \<Rightarrow> int \<Rightarrow> bool) \<Rightarrow> running \<Rightarrow> running" where
  "take_item Validator_t ts ok r = validator_turn ts r"
| "take_item Matching_t ts ok r = pipeline_turn Match r"
| "take_item Publisher_t ts ok r = pipeline_turn Publish r"
| "take_item Position_t ts ok r = pipeline_turn Track r"
| "take_item Websocket_t ts ok r = delivery_turn ok r"

section \<open>The hosted server\<close>

datatype shutdown_action = Signal_requests | Wake_cleanup | Clear_requests | Put_marker server_thread

definition shutdown_program :: "shutdown_action list" where
  "shutdown_program =
     [Signal_requests, Wake_cleanup, Clear_requests, Put_marker Validator_t, Put_marker Matching_t,
      Put_marker Publisher_t, Put_marker Position_t, Put_marker Websocket_t]"

record hosted =
  hs_running :: running
  hs_program :: "shutdown_action list"
  hs_ahead :: "server_thread \<Rightarrow> nat option"
  hs_ended :: "server_thread set"

definition host :: "server \<Rightarrow> hosted" where
  "host sv =
     \<lparr>hs_running = started sv, hs_program = shutdown_program, hs_ahead = Map.empty, hs_ended = {}\<rparr>"

definition coordinate :: "(coordinator \<Rightarrow> coordinator) \<Rightarrow> hosted \<Rightarrow> hosted" where
  "coordinate f h =
     h\<lparr>hs_running := with_coordinator (f (p_coordinator (rn_pipe (hs_running h)))) (hs_running h)\<rparr>"

fun do_shutdown :: "(string \<Rightarrow> rat) \<Rightarrow> shutdown_action \<Rightarrow> hosted \<Rightarrow> hosted" where
  "do_shutdown stamp Signal_requests h = coordinate (shutdown_signal stamp) h"
| "do_shutdown stamp Wake_cleanup h = coordinate shutdown_wake_cleanup h"
| "do_shutdown stamp Clear_requests h = coordinate shutdown_clear h"
| "do_shutdown stamp (Put_marker w) h =
     h\<lparr>hs_ahead := (hs_ahead h)(w \<mapsto> length (queue_of w (hs_running h)))\<rparr>"

text \<open>The status page: the threads that run, and whether there is a coordinator.\<close>

definition root_page :: "hosted \<Rightarrow> pyval" where
  "root_page h =
     (let alive = (\<lambda>w. PBool (w \<notin> hs_ended h)) in
      PDict
        [(''status'', PStr ''ok''), (''service'', PStr ''Intern Trading Game API''), (''version'', PStr ''2.0.0''),
         (''threads'', PDict
            [(''validator'', alive Validator_t), (''matching'', alive Matching_t), (''publisher'', alive Publisher_t),
             (''position_tracker'', alive Position_t), (''websocket'', alive Websocket_t)]),
         (''coordinator_active'', PBool True)])"

text \<open>A turn of a thread: the marker, or an item; on an empty queue it goes on waiting.\<close>

definition next_item :: "server_thread \<Rightarrow> readings \<Rightarrow> (nat \<Rightarrow> int \<Rightarrow> bool) \<Rightarrow> hosted \<Rightarrow> hosted" where
  "next_item w ts ok h =
     (if hs_ahead h w = Some 0 then h\<lparr>hs_ended := insert w (hs_ended h)\<rparr>
      else if queue_of w (hs_running h) = [] then h
      else h\<lparr>hs_running := take_item w ts ok (hs_running h),
             hs_ahead := (hs_ahead h)(w := map_option (\<lambda>n. n - 1) (hs_ahead h w))\<rparr>)"

text \<open>The phase check stands outside the \<open>try\<close> of the matching thread.\<close>

definition check_phases :: "draws \<Rightarrow> exn + phase_state \<Rightarrow> hosted \<Rightarrow> hosted" where
  "check_phases draw ps h =
     h\<lparr>hs_running := pipeline_turn (Check_phases draw ps) (hs_running h),
       hs_ended :=
         (case fst (check_phase_transitions draw ps (p_venue (rn_pipe (hs_running h)))) of
            None \<Rightarrow> hs_ended h
          | Some e \<Rightarrow> insert Matching_t (hs_ended h))\<rparr>"

fun shutdown_event :: "coord_event \<Rightarrow> bool" where
  "shutdown_event (ShutdownSignal stamp) \<longleftrightarrow> True"
| "shutdown_event ShutdownWake \<longleftrightarrow> True"
| "shutdown_event ShutdownClear \<longleftrightarrow> True"
| "shutdown_event _ \<longleftrightarrow> False"

text \<open>
  The steps, labelled by who acts. A websocket thread whose manager's lock is held waits for
  it and has no turn.
\<close>

datatype hosted_event = By_client | Turn server_thread | Phase_check | Coordinate | Shutting_down

inductive hosted_step :: "hosted \<Rightarrow> hosted_event \<Rightarrow> trade list \<Rightarrow> hosted \<Rightarrow> bool" where
  Host_client:
    "client_step (hs_running h) r \<Longrightarrow> hosted_step h By_client [] (h\<lparr>hs_running := r\<rparr>)"
| Host_turn:
    "w \<notin> hs_ended h \<Longrightarrow> (w = Websocket_t \<Longrightarrow> \<not> lock_held (sv_websockets (rn_server (hs_running h)))) \<Longrightarrow>
     ex = (if w = Matching_t \<and> hs_ahead h w \<noteq> Some 0
           then matched (rn_memory (hs_running h), rn_pipe (hs_running h)) else []) \<Longrightarrow>
     hosted_step h (Turn w) ex (next_item w ts ok h)"
| Host_phases:
    "Matching_t \<notin> hs_ended h \<Longrightarrow> hosted_step h Phase_check [] (check_phases draw ps h)"
| Host_coordinator:
    "coord_step (p_coordinator (rn_pipe (hs_running h)), rn_waiters (hs_running h)) ev (c, ws) \<Longrightarrow>
     proper_event ev \<Longrightarrow> \<not> shutdown_event ev \<Longrightarrow>
     hosted_step h Coordinate [] (h\<lparr>hs_running := (with_coordinator c (hs_running h))\<lparr>rn_waiters := ws\<rparr>\<rparr>)"
| Host_shutdown:
    "hs_program h = a # as \<Longrightarrow> hosted_step h Shutting_down [] ((do_shutdown stamp a h)\<lparr>hs_program := as\<rparr>)"

inductive hosted_run :: "hosted \<Rightarrow> hosted_event list \<Rightarrow> trade list \<Rightarrow> hosted \<Rightarrow> bool" for h where
  run_start: "hosted_run h [] [] h"
| run_next: "hosted_run h evs ex h1 \<Longrightarrow> hosted_step h1 ev ts h2 \<Longrightarrow> hosted_run h (evs @ [ev]) (ex @ ts) h2"

inductive_cases hosted_stepE: "hosted_step h ev ts h'"

section \<open>A hosted server is a running server\<close>

lemma matched_empty: "match_queue s = [] \<Longrightarrow> matched (l, s) = []"
  by (simp add: matched_def)

lemma coordinate_step:
  assumes "coord_step (p_coordinator (rn_pipe (hs_running h)), rn_waiters (hs_running h)) ev
      (f (p_coordinator (rn_pipe (hs_running h))), rn_waiters (hs_running h))"
    and "proper_event ev"
  shows "server_step (hs_running h) [] (hs_running (coordinate f h))"
proof -
  let ?r = "hs_running h"
  have "(with_coordinator (f (p_coordinator (rn_pipe ?r))) ?r)\<lparr>rn_waiters := rn_waiters ?r\<rparr> =
      with_coordinator (f (p_coordinator (rn_pipe ?r))) ?r"
    by (simp add: with_coordinator_def with_pipe_def)
  with Coordinator_turn [OF assms] show ?thesis by (simp add: coordinate_def)
qed

lemma hosted_step_server:
  assumes "hosted_step h ev ts h'"
  shows "server_step (hs_running h) ts (hs_running h') \<or> ts = [] \<and> hs_running h' = hs_running h"
  using assms
proof (cases rule: hosted_step.cases)
  case (Host_turn w t ok)
  show ?thesis
  proof (cases "hs_ahead h w = Some 0 \<or> queue_of w (hs_running h) = []")
    case True
    then show ?thesis using Host_turn by (auto simp: next_item_def matched_empty)
  next
    case False
    then have h': "hs_running h' = take_item w t ok (hs_running h)" using Host_turn by (simp add: next_item_def)
    show ?thesis
    proof (cases w)
      case Matching_t
      then show ?thesis using Pipeline_turn [of Match "hs_running h"] Host_turn False h' by simp
    next
      case Publisher_t
      then show ?thesis using Pipeline_turn [of Publish "hs_running h"] Host_turn h' by simp
    next
      case Position_t
      then show ?thesis using Pipeline_turn [of Track "hs_running h"] Host_turn h' by simp
    qed (use Host_turn h' in \<open>simp_all add: server_step.Validator_turn Delivery_turn\<close>)
  qed
next
  case (Host_phases draw ps)
  then show ?thesis using Pipeline_turn [of "Check_phases draw ps" "hs_running h"] by (simp add: check_phases_def)
next
  case (Host_shutdown a as stamp)
  have "server_step (hs_running h) [] (hs_running (do_shutdown stamp a h)) \<or>
      hs_running (do_shutdown stamp a h) = hs_running h"
    by (cases a)
      (auto intro: coordinate_step [of _ "ShutdownSignal stamp"] coordinate_step [of _ ShutdownWake]
        coordinate_step [of _ ShutdownClear] coord_step.intros)
  then show ?thesis using Host_shutdown by auto
qed (auto intro: server_step.intros)


section \<open>Queues only grow at the end\<close>

lemma running_parts [simp]:
  "rn_pipe (r\<lparr>rn_order_queue := q\<rparr>) = rn_pipe r"
  "rn_order_queue ((with_pipe s r)\<lparr>rn_order_queue := q, rn_memory := l\<rparr>) = q"
  by (simp_all add: rn_pipe_def)

text \<open>A step that is not a turn of \<open>w\<close> appends to the queue of \<open>w\<close>.\<close>

definition grows :: "server_thread \<Rightarrow> running \<Rightarrow> running \<Rightarrow> bool" where
  "grows w r r' \<longleftrightarrow> (\<exists>new. queue_of w r' = queue_of w r @ new)"

lemma grows_refl [simp]: "grows w r r"
  by (simp add: grows_def)

lemma grows_trans: "grows w r r1 \<Longrightarrow> grows w r1 r2 \<Longrightarrow> grows w r r2"
  by (auto simp: grows_def)

lemma grows_same:
  "rn_order_queue r' = rn_order_queue r \<Longrightarrow> match_queue (rn_pipe r') = match_queue (rn_pipe r) \<Longrightarrow>
   trade_queue (rn_pipe r') = trade_queue (rn_pipe r) \<Longrightarrow> position_queue (rn_pipe r') = position_queue (rn_pipe r) \<Longrightarrow>
   websocket_queue (rn_pipe r') = websocket_queue (rn_pipe r) \<Longrightarrow> grows w r r'"
  by (cases w) (simp_all add: grows_def)

lemma validator_websocket:
  assumes "validator_step reg cache ts msg (l, s) = (l', s')"
  shows "\<exists>new. websocket_queue s' = websocket_queue s @ new"
proof (cases msg)
  case (New_order o1 team rid)
  then show ?thesis
    using assms
    by (auto simp: handle_new_order_validation_def handle_unexpected_status_def Let_def
        split: sum.splits option.splits if_splits)
next
  case (Cancel_order oid team rid)
  then show ?thesis
    using assms by (auto simp: handle_order_cancellation_def Let_def split: sum.splits prod.splits if_splits)
qed (use assms in auto)

lemma publish_fills_queues:
  "\<exists>new. websocket_queue (publish_fills fees o1 team ts s) = websocket_queue s @ new"
proof (induction ts arbitrary: s)
  case (Cons t ts)
  have "\<exists>new. websocket_queue (publish_fills fees o1 team ts (put_ws ty x d s)) = websocket_queue s @ new" for ty x d
    using Cons [of "put_ws ty x d s"] by auto
  then show ?case by (auto simp: Let_def split: sum.split)
qed simp

lemma process_websocket:
  "\<exists>new. websocket_queue (process_single_order (o1, team) s) = websocket_queue s @ new"
  by (auto simp: process_single_order_def Let_def split: prod.split sum.split)

lemma take_own: "queue_of w r \<noteq> [] \<Longrightarrow> queue_of w (take_item w ts ok r) = tl (queue_of w r)"
proof (cases w)
  case Matching_t
  moreover assume "queue_of w r \<noteq> []"
  ultimately show ?thesis
    using match_parts [OF refl]
    by (cases "settings_of r"; cases "match_queue (rn_pipe r)") (auto simp: pipeline_turn_def)
next
  case Publisher_t
  moreover assume "queue_of w r \<noteq> []"
  ultimately show ?thesis
    by (cases "settings_of r"; cases "trade_queue (rn_pipe r)")
      (auto simp: pipeline_turn_def publish_trade_def split: prod.split)
qed (auto simp: validator_turn_def pipeline_turn_def settings_of_def delivery_turn_def split: list.splits prod.splits)

lemma validator_turn_grows: "w \<noteq> Validator_t \<Longrightarrow> grows w r (validator_turn ts r)"
proof (cases "rn_order_queue r")
  case (Cons msg q)
  moreover assume "w \<noteq> Validator_t"
  moreover obtain l s where step: "validator_step default_registry (sv_validator (rn_server r)) ts msg (rn_memory r, rn_pipe r) = (l, s)"
    by fastforce
  then have "validator_turn ts r = (with_pipe s r)\<lparr>rn_order_queue := q, rn_memory := l\<rparr>"
    by (simp add: validator_turn_def Cons settings_of_def)
  ultimately show ?thesis
    using validator_queues [OF step] validator_websocket [OF step] by (cases w) (auto simp: grows_def)
qed (simp add: validator_turn_def)

lemma pipeline_grows:
  assumes "pipeline_step cfg ev (l, s) = (l', s')" and "thread_event ev"
  shows "ev \<noteq> Match \<Longrightarrow> match_queue s' = match_queue s"
    and "ev \<noteq> Publish \<Longrightarrow> \<exists>new. trade_queue s' = trade_queue s @ new"
    and "ev \<noteq> Track \<Longrightarrow> \<exists>new. position_queue s' = position_queue s @ new"
    and "\<exists>new. websocket_queue s' = websocket_queue s @ new"
proof -
  obtain reg cache fees where cfg: "cfg = (reg, cache, fees)" by (cases cfg) auto
  have "(ev \<noteq> Match \<longrightarrow> match_queue s' = match_queue s) \<and>
      (ev \<noteq> Publish \<longrightarrow> (\<exists>new. trade_queue s' = trade_queue s @ new)) \<and>
      (ev \<noteq> Track \<longrightarrow> (\<exists>new. position_queue s' = position_queue s @ new)) \<and>
      (\<exists>new. websocket_queue s' = websocket_queue s @ new)"
  proof (cases ev)
    case Match
    show ?thesis
    proof (cases "match_queue s")
      case (Cons i q)
      obtain o1 team where i: "i = (o1, team)" by fastforce
      with Cons Match assms(1) have "process_single_order (o1, team) (s\<lparr>match_queue := q\<rparr>) = s'" by (simp add: cfg)
      with match_parts [OF this] process_websocket [of o1 team "s\<lparr>match_queue := q\<rparr>"] Match show ?thesis by auto
    qed (use Match assms(1) cfg in auto)
  next
    case Publish
    show ?thesis
    proof (cases "trade_queue s")
      case (Cons i q)
      then obtain x o1 team where i: "i = (x, o1, team)" by (cases i) auto
      with Cons Publish assms(1) cfg have "s' = publish_trade fees (x, o1, team) (s\<lparr>trade_queue := q\<rparr>)" by simp
      then show ?thesis
        using publish_fills_queues [of fees o1 team "fills x" "s\<lparr>trade_queue := q, position_queue := position_queue s @ [i]\<rparr>"]
          Publish i by (simp add: publish_trade_def)
    qed (use Publish assms(1) cfg in auto)
  qed (use assms in \<open>auto simp: cfg split: list.splits prod.splits\<close>)
  then show "ev \<noteq> Match \<Longrightarrow> match_queue s' = match_queue s"
    "ev \<noteq> Publish \<Longrightarrow> \<exists>new. trade_queue s' = trade_queue s @ new"
    "ev \<noteq> Track \<Longrightarrow> \<exists>new. position_queue s' = position_queue s @ new"
    "\<exists>new. websocket_queue s' = websocket_queue s @ new"
    by blast+
qed

fun event_thread :: "pipeline_event \<Rightarrow> server_thread option" where
  "event_thread Match = Some Matching_t"
| "event_thread Publish = Some Publisher_t"
| "event_thread Track = Some Position_t"
| "event_thread _ = None"

lemma pipeline_turn_grows:
  assumes "thread_event ev" and "event_thread ev \<noteq> Some w"
  shows "grows w r (pipeline_turn ev r)"
proof -
  obtain l s where run: "pipeline_step (settings_of r) ev (rn_memory r, rn_pipe r) = (l, s)" by fastforce
  have e: "ev \<noteq> Match \<or> w \<noteq> Matching_t" "ev \<noteq> Publish \<or> w \<noteq> Publisher_t" "ev \<noteq> Track \<or> w \<noteq> Position_t"
    using assms(2) by auto
  show ?thesis
  proof (cases w)
    case Matching_t
    then show ?thesis using e pipeline_grows(1) [OF run assms(1)] by (simp add: grows_def pipeline_turn_def run)
  next
    case Publisher_t
    then show ?thesis using e pipeline_grows(2) [OF run assms(1)] by (auto simp: grows_def pipeline_turn_def run)
  next
    case Position_t
    then show ?thesis using e pipeline_grows(3) [OF run assms(1)] by (auto simp: grows_def pipeline_turn_def run)
  next
    case Websocket_t
    then show ?thesis using pipeline_grows(4) [OF run assms(1)] by (auto simp: grows_def pipeline_turn_def run)
  qed (simp add: grows_def pipeline_turn_def)
qed

lemma take_other: "w \<noteq> w' \<Longrightarrow> grows w r (take_item w' ts ok r)"
proof (cases w')
  case Validator_t
  moreover assume "w \<noteq> w'"
  ultimately show ?thesis by (simp add: validator_turn_grows)
next
  case Websocket_t
  moreover assume "w \<noteq> w'"
  ultimately show ?thesis by (cases w) (auto simp: grows_def delivery_turn_def split: list.split)
qed (auto intro: pipeline_turn_grows)

lemma enqueue_grows: "grows w r (enqueue b r)"
  by (cases b; cases "fst b"; cases w) (auto simp: enqueue_def grows_def)

lemma client_grows: "client_step r r' \<Longrightarrow> grows w r r'"
proof (induction rule: client_step.induct)
  case (Register_call token r rid created name rl)
  show ?case by (rule grows_same) (simp_all add: register_call_def rn_pipe_def split: prod.split)
next
  case (Connect_call ws r key accepts)
  then show ?case
    by (cases w)
      (auto simp: connect_call_def websocket_endpoint_def grows_def split: prod.splits option.splits outcome.splits)
qed (auto simp: submit_call_def cancel_call_def enqueue_grows grows_same split: sum.split)

section \<open>After the coordinator has been told\<close>

lemma put_object_shutdown [simp]: "is_shutdown (put_object rid p s) = is_shutdown s"
  by (simp add: put_object_def)

lemma notify_shutdown [simp]: "is_shutdown (p_coordinator (notify rid resp oid t s)) = is_shutdown (p_coordinator s)"
  by (simp add: notify_def notify_completion_def split: option.split)

lemma cleanup_shutdown: "is_shutdown (snd (cleanup_scan now seen stamp rids s)) = is_shutdown s"
proof (induction rids arbitrary: s)
  case (Cons rid rids)
  show ?case
    by (cases "objects s rid") (simp_all add: handle_expired_request_def split_beta Cons.IH)
qed simp

lemma remove_shutdown: "is_shutdown (fold remove_request rids s) = is_shutdown s"
  by (induction rids arbitrary: s) (simp_all add: remove_request_def)

lemma signal_shutdown [simp]: "is_shutdown (shutdown_signal stamp s)"
  by (simp add: shutdown_signal_def)

lemma register_shutdown:
  "is_shutdown s \<Longrightarrow> \<exists>e. register_request team timeout ns t1 t2 s = (Inl e, s)"
  by (simp add: register_request_def)

lemma coord_step_shutdown:
  "coord_step sys ev sys' \<Longrightarrow> is_shutdown (fst sys) \<Longrightarrow> is_shutdown (fst sys')"
proof (induction rule: coord_step.induct)
  case (Cleanup_step s ws now seen stamp)
  then show ?case
    by (simp add: cleanup_completed_requests_def split_beta remove_shutdown cleanup_shutdown)
qed (auto simp: wait_signalled_def wait_timed_out_def set_status_def notify_completion_def update_status_def
    shutdown_wake_cleanup_def shutdown_clear_def register_request_def split: option.splits if_splits)

lemma validator_shutdown:
  assumes "validator_step reg cache ts msg (l, s) = (l', s')"
  shows "is_shutdown (p_coordinator s') = is_shutdown (p_coordinator s)"
proof -
  have err: "is_shutdown (p_coordinator (handle_validator_error e x t s1)) = is_shutdown (p_coordinator s1)" for e x t s1
    by (simp add: handle_validator_error_def split: option.split)
  show ?thesis
  proof (cases msg)
    case (New_order o1 team rid)
    then show ?thesis
      using assms
      by (auto simp: handle_new_order_validation_def handle_unexpected_status_def Let_def err
          split: sum.splits option.splits if_splits)
  next
    case (Cancel_order oid team rid)
    then show ?thesis
      using assms by (auto simp: handle_order_cancellation_def Let_def err split: sum.splits prod.splits if_splits)
  qed (use assms in \<open>auto simp: err\<close>)
qed

abbreviation told :: "running \<Rightarrow> bool" where
  "told r \<equiv> is_shutdown (p_coordinator (rn_pipe r))"

lemma client_told:
  assumes "client_step r r'" and "told r"
  shows "told r' \<and> rn_order_queue r' = rn_order_queue r"
  using assms
proof (induction rule: client_step.induct)
  case (Submit_call r key rq uuid ns t1 t2)
  show ?case
  proof (cases "get_current_team (sv_game (rn_server r)) key")
    case (Inr team)
    then show ?thesis
      using register_shutdown [OF Submit_call.prems, of "team_id team" "Some 5" ns t1 t2] Submit_call.prems
      by (auto simp: submit_call_def submit_order_begin_def enqueue_def split: option.split sum.split)
  qed (use Submit_call.prems in \<open>simp add: submit_call_def\<close>)
next
  case (Cancel_call r key oid ns t1 t2)
  show ?case
  proof (cases "get_current_team (sv_game (rn_server r)) key")
    case (Inr team)
    then show ?thesis
      using register_shutdown [OF Cancel_call.prems, of "team_id team" "Some 3" ns t1 t2] Cancel_call.prems
      by (auto simp: cancel_call_def cancel_order_begin_def enqueue_def)
  qed (use Cancel_call.prems in \<open>simp add: cancel_call_def\<close>)
qed (auto simp: register_call_def connect_call_def rn_pipe_def with_pipe_def with_websockets_def split: prod.split)

lemma pipeline_told:
  assumes "thread_event ev"
  shows "told (pipeline_turn ev r) = told r" and "rn_order_queue (pipeline_turn ev r) = rn_order_queue r"
proof -
  obtain l s where run: "pipeline_step (settings_of r) ev (rn_memory r, rn_pipe r) = (l, s)" by fastforce
  have "p_coordinator s = p_coordinator (rn_pipe r)"
  proof (cases ev)
    case Match
    then show ?thesis
      using run match_parts [OF refl]
      by (cases "settings_of r"; cases "match_queue (rn_pipe r)") (auto simp: split_beta)
  qed (use assms run in \<open>cases "settings_of r", auto simp: publish_trade_def split: list.splits prod.splits\<close>)+
  then show "told (pipeline_turn ev r) = told r" "rn_order_queue (pipeline_turn ev r) = rn_order_queue r"
    by (simp_all add: pipeline_turn_def run)
qed

lemma take_told: "told (take_item w ts ok r) = told r"
proof (cases w)
  case Validator_t
  show ?thesis
  proof (cases "rn_order_queue r")
    case (Cons msg q)
    obtain l s where step: "validator_step default_registry (sv_validator (rn_server r)) ts msg (rn_memory r, rn_pipe r) = (l, s)"
      by fastforce
    then show ?thesis
      using validator_shutdown [OF step] Validator_t by (simp add: validator_turn_def Cons settings_of_def)
  qed (simp add: Validator_t validator_turn_def)
qed (simp_all add: pipeline_told delivery_turn_def split: list.split)

section \<open>The invariant of the shutdown\<close>

definition host_ok :: "hosted \<Rightarrow> bool" where
  "host_ok h \<longleftrightarrow>
     (\<exists>k. hs_program h = drop k shutdown_program) \<and>
     (\<forall>w. hs_ahead h w = None \<longleftrightarrow> Put_marker w \<in> set (hs_program h)) \<and>
     (\<forall>w n. hs_ahead h w = Some n \<longrightarrow> n \<le> length (queue_of w (hs_running h))) \<and>
     (Signal_requests \<notin> set (hs_program h) \<longrightarrow> told (hs_running h)) \<and>
     (\<forall>n. hs_ahead h Validator_t = Some n \<longrightarrow> n = length (rn_order_queue (hs_running h))) \<and>
     (\<forall>w \<in> hs_ended h. w \<noteq> Matching_t \<longrightarrow> hs_ahead h w = Some 0)"

lemma host_okD:
  assumes "host_ok h"
  shows "\<exists>k. hs_program h = drop k shutdown_program"
    and "hs_ahead h w = None \<longleftrightarrow> Put_marker w \<in> set (hs_program h)"
    and "hs_ahead h w = Some n \<Longrightarrow> n \<le> length (queue_of w (hs_running h))"
    and "Signal_requests \<notin> set (hs_program h) \<Longrightarrow> told (hs_running h)"
    and "hs_ahead h Validator_t = Some n \<Longrightarrow> n = length (rn_order_queue (hs_running h))"
    and "w \<in> hs_ended h \<Longrightarrow> w \<noteq> Matching_t \<Longrightarrow> hs_ahead h w = Some 0"
  using assms unfolding host_ok_def by blast+

lemma program_rest:
  assumes "drop k shutdown_program = a # as"
  shows "as = drop (Suc k) shutdown_program" and "a \<notin> set as" and "Signal_requests \<notin> set as"
proof -
  have d: "distinct shutdown_program" by (simp add: shutdown_program_def)
  show s: "as = drop (Suc k) shutdown_program" using assms by (metis drop_Suc drop_tl list.sel(3))
  show "a \<notin> set as" using distinct_drop [OF d, of k] assms by simp
  have "as = drop k (tl shutdown_program)" using s by (simp add: drop_Suc)
  then have "set as \<subseteq> set (tl shutdown_program)" by (simp add: set_drop_subset)
  then show "Signal_requests \<notin> set as" by (auto simp: shutdown_program_def)
qed

text \<open>The markers come after the coordinator has been told.\<close>

lemma marker_told:
  assumes "host_ok h" and "hs_ahead h w \<noteq> None"
  shows "Signal_requests \<notin> set (hs_program h)" and "told (hs_running h)"
proof -
  obtain k where k: "hs_program h = drop k shutdown_program" using host_okD(1) [OF assms(1)] by blast
  show "Signal_requests \<notin> set (hs_program h)"
  proof (cases k)
    case 0
    then have "Put_marker w \<in> set (hs_program h)" using k by (cases w) (simp_all add: shutdown_program_def)
    with assms host_okD(2) [OF assms(1), of w] show ?thesis by simp
  next
    case (Suc j)
    then have "hs_program h = drop j (tl shutdown_program)" using k by (simp add: drop_Suc)
    then have "set (hs_program h) \<subseteq> set (tl shutdown_program)" by (simp add: set_drop_subset)
    then show ?thesis by (auto simp: shutdown_program_def)
  qed
  then show "told (hs_running h)" by (rule host_okD(4) [OF assms(1)])
qed

lemma host_ok_start: "host_ok (host sv)"
proof -
  have "\<exists>k. shutdown_program = drop k shutdown_program" by (rule exI [of _ 0]) simp
  moreover have "Put_marker w \<in> set shutdown_program" for w by (cases w) (simp_all add: shutdown_program_def)
  moreover have "Signal_requests \<in> set shutdown_program" by (simp add: shutdown_program_def)
  ultimately show ?thesis by (simp add: host_ok_def host_def)
qed

text \<open>What a change of the running server alone has to respect.\<close>

lemma host_ok_running:
  assumes "host_ok h" and "\<And>w. grows w (hs_running h) r" and "told (hs_running h) \<Longrightarrow> told r"
    and "told (hs_running h) \<Longrightarrow> rn_order_queue r = rn_order_queue (hs_running h)"
  shows "host_ok (h\<lparr>hs_running := r\<rparr>)"
proof -
  note ok = host_okD [OF assms(1)]
  have len: "length (queue_of w (hs_running h)) \<le> length (queue_of w r)" for w
    using assms(2) [of w] by (auto simp: grows_def)
  have "n = length (rn_order_queue r)" if "hs_ahead h Validator_t = Some n" for n
    using ok(5) [OF that] marker_told(2) [OF assms(1), of Validator_t] assms(4) that by simp
  moreover have "n \<le> length (queue_of w r)" if "hs_ahead h w = Some n" for n w
    using ok(3) [OF that] len [of w] by simp
  ultimately show ?thesis using ok assms(3) by (simp add: host_ok_def)
qed

lemma coordinator_grows:
  "grows w r (with_coordinator c r)" "grows w r ((with_coordinator c r)\<lparr>rn_waiters := ws\<rparr>)"
  by (rule grows_same; simp)+

lemma host_ok_ended: "host_ok h \<Longrightarrow> host_ok (h\<lparr>hs_ended := insert Matching_t (hs_ended h)\<rparr>)"
  by (auto simp: host_ok_def)

lemma turn_running:
  assumes "host_ok h" and "queue_of w (hs_running h) \<noteq> []" and "hs_ahead h w = Some (Suc n)"
  shows "host_ok (h\<lparr>hs_running := take_item w ts ok (hs_running h), hs_ahead := (hs_ahead h)(w \<mapsto> n)\<rparr>)"
proof -
  note inv = host_okD [OF assms(1)]
  let ?r = "hs_running h" and ?r' = "take_item w ts ok (hs_running h)"
  have len: "length (queue_of w' ?r) \<le> length (queue_of w' ?r')" if "w' \<noteq> w" for w'
    using take_other [OF that, of ?r ts ok] by (auto simp: grows_def)
  have own: "length (queue_of w ?r') = length (queue_of w ?r) - 1" using take_own [OF assms(2)] by simp
  have "k \<le> length (queue_of w' ?r')" if "((hs_ahead h)(w \<mapsto> n)) w' = Some k" for w' k
    using that len [of w'] own inv(3) [of w'] inv(3) [OF assms(3)] by (cases "w' = w") fastforce+
  moreover have "k = length (rn_order_queue ?r')" if "((hs_ahead h)(w \<mapsto> n)) Validator_t = Some k" for k
  proof (cases "w = Validator_t")
    case True
    then show ?thesis using that own inv(5) [of "Suc n"] assms(3) by simp
  next
    case False
    then have "rn_order_queue ?r' = rn_order_queue ?r"
      by (cases w) (simp_all add: pipeline_told(2) delivery_turn_def split: list.split)
    then show ?thesis using that False inv(5) by simp
  qed
  moreover have "w' \<in> hs_ended h \<Longrightarrow> w' \<noteq> Matching_t \<Longrightarrow> ((hs_ahead h)(w \<mapsto> n)) w' = Some 0" for w'
    using inv(6) [of w'] assms(3) by (cases "w' = w") auto
  moreover have "Put_marker w \<notin> set (hs_program h)" using inv(2) [of w] assms(3) by simp
  ultimately show ?thesis
    using inv(1,2,4) by (auto simp: host_ok_def take_told)
qed

lemma unmarked_turn:
  assumes "host_ok h" and "hs_ahead h w = None"
  shows "host_ok (h\<lparr>hs_running := take_item w ts ok (hs_running h)\<rparr>)"
proof -
  note inv = host_okD [OF assms(1)]
  let ?r = "hs_running h" and ?r' = "take_item w ts ok (hs_running h)"
  have "k \<le> length (queue_of w' ?r')" if "hs_ahead h w' = Some k" for w' k
  proof -
    have "w' \<noteq> w" using that assms(2) by auto
    then have "length (queue_of w' ?r) \<le> length (queue_of w' ?r')"
      using take_other [of w' w ?r ts ok] by (auto simp: grows_def)
    with inv(3) [OF that] show ?thesis by simp
  qed
  moreover have "k = length (rn_order_queue ?r')" if "hs_ahead h Validator_t = Some k" for k
  proof -
    have "w \<noteq> Validator_t" using that assms(2) by auto
    then have "rn_order_queue ?r' = rn_order_queue ?r"
      by (cases w) (simp_all add: pipeline_told(2) delivery_turn_def split: list.split)
    with inv(5) [OF that] show ?thesis by simp
  qed
  ultimately show ?thesis using inv by (simp add: host_ok_def take_told)
qed

lemma next_item_ok:
  assumes "host_ok h" shows "host_ok (next_item w ts ok h)"
proof (cases "hs_ahead h w")
  case None
  moreover have "(hs_ahead h)(w := None) = hs_ahead h" using None by (simp add: fun_upd_idem)
  ultimately show ?thesis using unmarked_turn [OF assms] assms by (simp add: next_item_def)
next
  case (Some n)
  show ?thesis
  proof (cases n)
    case 0
    then show ?thesis using Some assms by (auto simp: next_item_def host_ok_def)
  next
    case (Suc m)
    then show ?thesis using Some turn_running [OF assms] assms by (simp add: next_item_def)
  qed
qed

lemma coordinate_ok:
  assumes "host_ok h" and "told (hs_running h) \<Longrightarrow> is_shutdown (f (p_coordinator (rn_pipe (hs_running h))))"
  shows "host_ok (coordinate f h)"
  unfolding coordinate_def by (rule host_ok_running [OF assms(1)]) (use assms(2) in \<open>simp_all add: coordinator_grows\<close>)

lemma do_shutdown_ok:
  assumes "host_ok h" and "hs_program h = a # as"
  shows "host_ok ((do_shutdown stamp a h)\<lparr>hs_program := as\<rparr>)"
proof -
  note inv = host_okD [OF assms(1)]
  obtain k where k: "drop k shutdown_program = a # as" using inv(1) assms(2) by metis
  note rest = program_rest [OF k]
  have advance: "host_ok (g\<lparr>hs_program := as\<rparr>)"
    if "host_ok g" "hs_program g = a # as" "told (hs_running g)" "\<And>w. a \<noteq> Put_marker w" for g
    using that rest host_okD [OF that(1)] by (auto simp: host_ok_def)
  show ?thesis
  proof (cases a)
    case (Put_marker w)
    have "Signal_requests \<notin> set (hs_program h)"
    proof
      assume "Signal_requests \<in> set (hs_program h)"
      then have "Signal_requests \<in> set as" using assms(2) Put_marker by simp
      then show False using rest(3) by simp
    qed
    then have "told (hs_running h)" by (rule inv(4))
    moreover have "hs_ahead h w = None" using inv(2) [of w] assms(2) Put_marker by simp
    then have "w \<in> hs_ended h \<Longrightarrow> w = Matching_t" using inv(6) [of w] by auto
    ultimately show ?thesis
      using inv assms(2) rest Put_marker by (auto simp: host_ok_def)
  next
    case Signal_requests
    have "host_ok (coordinate (shutdown_signal stamp) h)" by (rule coordinate_ok [OF assms(1)]) simp
    then show ?thesis using assms(2) Signal_requests by (simp add: advance coordinate_def)
  next
    case Wake_cleanup
    have "told (hs_running h)"
      using inv(4) assms(2) rest(3) Wake_cleanup by simp
    moreover have "host_ok (coordinate shutdown_wake_cleanup h)"
      by (rule coordinate_ok [OF assms(1)]) (simp add: shutdown_wake_cleanup_def)
    ultimately show ?thesis using assms(2) Wake_cleanup by (simp add: advance coordinate_def shutdown_wake_cleanup_def)
  next
    case Clear_requests
    have "told (hs_running h)"
      using inv(4) assms(2) rest(3) Clear_requests by simp
    moreover have "host_ok (coordinate shutdown_clear h)"
      by (rule coordinate_ok [OF assms(1)]) (simp add: shutdown_clear_def)
    ultimately show ?thesis using assms(2) Clear_requests by (simp add: advance coordinate_def shutdown_clear_def)
  qed
qed

lemma hosted_step_ok:
  assumes "hosted_step h ev ts h'" and "host_ok h"
  shows "host_ok h'"
  using assms(1)
proof (cases rule: hosted_step.cases)
  case (Host_client r)
  then show ?thesis using host_ok_running [OF assms(2)] client_grows client_told by blast
next
  case (Host_phases draw ps)
  have "host_ok (h\<lparr>hs_running := pipeline_turn (Check_phases draw ps) (hs_running h)\<rparr>)"
    by (rule host_ok_running [OF assms(2)]) (simp_all add: pipeline_turn_grows pipeline_told)
  from this host_ok_ended [OF this] show ?thesis using Host_phases by (simp add: check_phases_def split: option.split)
next
  case (Host_coordinator e c ws)
  have "told (hs_running h) \<Longrightarrow> is_shutdown c"
    using coord_step_shutdown [OF Host_coordinator(4)] by simp
  then show ?thesis
    unfolding Host_coordinator(3) by (intro host_ok_running [OF assms(2)]) (simp_all add: coordinator_grows)
qed (use assms(2) next_item_ok do_shutdown_ok in auto)

lemma hosted_run_ok: "hosted_run h evs ex h' \<Longrightarrow> host_ok h \<Longrightarrow> host_ok h'"
  by (induction rule: hosted_run.induct) (auto intro: hosted_step_ok)

section \<open>How a thread ends\<close>

lemma step_grows:
  assumes "hosted_step h ev ts h'" and "ev \<noteq> Turn w"
  shows "grows w (hs_running h) (hs_running h')" and "hs_ended h \<subseteq> hs_ended h'"
    and "w \<noteq> Matching_t \<Longrightarrow> w \<in> hs_ended h' \<Longrightarrow> w \<in> hs_ended h"
proof -
  have "grows w (hs_running h) (hs_running h') \<and> hs_ended h \<subseteq> hs_ended h' \<and>
      (w \<noteq> Matching_t \<longrightarrow> w \<in> hs_ended h' \<longrightarrow> w \<in> hs_ended h)"
    using assms(1)
  proof (cases rule: hosted_step.cases)
    case (Host_turn w' t ok)
    with assms(2) have "w \<noteq> w'" by auto
    with Host_turn take_other [OF this] show ?thesis by (auto simp: next_item_def)
  next
    case (Host_phases draw ps)
    then show ?thesis by (auto simp: check_phases_def pipeline_turn_grows split: option.split)
  next
    case (Host_shutdown a as stamp)
    then show ?thesis by (cases a) (auto simp: coordinate_def coordinator_grows)
  qed (use client_grows coordinator_grows in auto)
  then show "grows w (hs_running h) (hs_running h')" "hs_ended h \<subseteq> hs_ended h'"
    "w \<noteq> Matching_t \<Longrightarrow> w \<in> hs_ended h' \<Longrightarrow> w \<in> hs_ended h"
    by simp_all
qed

lemma step_ahead:
  assumes "hosted_step h ev ts h'" and "host_ok h" and "ev \<noteq> Turn w" and "hs_ahead h w = Some n"
  shows "hs_ahead h' w = Some n"
  using assms(1)
proof (cases rule: hosted_step.cases)
  case (Host_turn w' t ok)
  with assms(3,4) show ?thesis by (auto simp: next_item_def)
next
  case (Host_shutdown a as stamp)
  have "a \<noteq> Put_marker w" using host_okD(2) [OF assms(2), of w] Host_shutdown assms(4) by auto
  then show ?thesis using Host_shutdown assms(4) by (cases a) (auto simp: coordinate_def)
qed (use assms(4) in \<open>auto simp: check_phases_def\<close>)

lemma step_own:
  assumes "hosted_step h (Turn w) ts h'" and "host_ok h" and "hs_ahead h w = Some n"
  shows "w \<notin> hs_ended h"
    and "n = 0 \<Longrightarrow> w \<in> hs_ended h' \<and> hs_ahead h' w = Some 0 \<and> hs_running h' = hs_running h \<and> ts = []"
    and "n = Suc m \<Longrightarrow> hs_ended h' = hs_ended h \<and> hs_ahead h' w = Some m \<and>
      queue_of w (hs_running h') = tl (queue_of w (hs_running h))"
proof -
  obtain t ok where s: "w \<notin> hs_ended h" "h' = next_item w t ok h" "n = 0 \<Longrightarrow> ts = []"
    using assms(1,3) by (auto elim!: hosted_stepE)
  show "w \<notin> hs_ended h" by (rule s(1))
  show "n = 0 \<Longrightarrow> w \<in> hs_ended h' \<and> hs_ahead h' w = Some 0 \<and> hs_running h' = hs_running h \<and> ts = []"
    using s assms(3) by (simp add: next_item_def)
  assume "n = Suc m"
  moreover from this have "queue_of w (hs_running h) \<noteq> []" using host_okD(3) [OF assms(2,3)] by auto
  ultimately show "hs_ended h' = hs_ended h \<and> hs_ahead h' w = Some m \<and>
      queue_of w (hs_running h') = tl (queue_of w (hs_running h))"
    using s assms(3) by (simp add: next_item_def take_own)
qed

definition turns :: "server_thread \<Rightarrow> hosted_event list \<Rightarrow> nat" where
  "turns w evs = count_list evs (Turn w)"

text \<open>The thread after \<open>k\<close> of its turns, when \<open>n\<close> items were before its marker.\<close>

definition draining :: "server_thread \<Rightarrow> nat \<Rightarrow> queue_item list \<Rightarrow> nat \<Rightarrow> hosted \<Rightarrow> bool" where
  "draining w n q k h \<longleftrightarrow>
     k \<le> Suc n \<and> hs_ahead h w = Some (n - k) \<and> (k = Suc n \<longrightarrow> w \<in> hs_ended h) \<and>
     (w \<noteq> Matching_t \<longrightarrow> w \<in> hs_ended h \<longrightarrow> k = Suc n) \<and>
     (\<exists>new. queue_of w (hs_running h) = drop (min k n) q @ new)"

lemma draining_step:
  assumes "draining w n q k h" and "host_ok h" and "n \<le> length q" and "hosted_step h ev ts h'"
  shows "draining w n q (k + (if ev = Turn w then 1 else 0)) h'"
proof (cases "ev = Turn w")
  case False
  have a: "hs_ahead h w = Some (n - k)" using assms(1) by (simp add: draining_def)
  show ?thesis
    using assms(1) step_grows [OF assms(4) False] step_ahead [OF assms(4,2) False a] False
    unfolding draining_def grows_def by auto
next
  case True
  have a: "hs_ahead h w = Some (n - k)" using assms(1) by (simp add: draining_def)
  note own = step_own [OF assms(4) [unfolded True] assms(2) a]
  obtain new where q: "queue_of w (hs_running h) = drop (min k n) q @ new" using assms(1) by (auto simp: draining_def)
  have "k \<noteq> Suc n" using own(1) assms(1) by (auto simp: draining_def)
  then have k: "k \<le> n" using assms(1) by (simp add: draining_def)
  show ?thesis
  proof (cases "n - k")
    case 0
    then have "k = n" using k by simp
    then show ?thesis using own(2) q True by (auto simp: draining_def)
  next
    case (Suc m)
    then have "tl (drop k q @ new) = drop (Suc k) q @ new"
      using assms(3) by (simp add: drop_Suc tl_drop)
    then show ?thesis using own(1) own(3) [OF Suc] Suc k q True by (auto simp: draining_def)
  qed
qed

text \<open>
  C11: \<open>shutdown\<close> lets every thread finish the items that were in its queue when its marker was
  put, and nothing else. From the moment of the marker, with \<open>n\<close> items before it, a thread
  takes at most \<open>n + 1\<close> turns; after \<open>k \<le> n\<close> of them it has taken exactly the first \<open>k\<close> items, in
  order, and what other threads have put since then stands behind; with turn \<open>n + 1\<close> it ends,
  and no thread ends sooner, except the matching thread by a phase check that raises.
\<close>

theorem shutdown_drains:
  assumes "hosted_run (host sv) evs0 ex0 h" and "hs_ahead h w = Some n" and "w \<notin> hs_ended h"
    and "hosted_run h evs ex h'"
  shows "turns w evs \<le> n + 1 \<and> hs_ahead h' w = Some (n - turns w evs) \<and>
    (turns w evs = n + 1 \<longrightarrow> w \<in> hs_ended h') \<and>
    (w \<noteq> Matching_t \<longrightarrow> w \<in> hs_ended h' \<longrightarrow> turns w evs = n + 1) \<and>
    (\<exists>new. queue_of w (hs_running h') =
       drop (min (turns w evs) n) (queue_of w (hs_running h)) @ new)"
proof -
  have ok: "host_ok h" using hosted_run_ok [OF assms(1) host_ok_start] .
  have n: "n \<le> length (queue_of w (hs_running h))" by (rule host_okD(3) [OF ok assms(2)])
  from assms(4) have "draining w n (queue_of w (hs_running h)) (turns w evs) h' \<and> host_ok h'"
  proof (induction rule: hosted_run.induct)
    case run_start
    then show ?case using assms(2,3) ok by (auto simp: draining_def turns_def)
  next
    case (run_next evs ex h1 ev ts h2)
    then show ?case
      using draining_step [OF _ _ n run_next.hyps(2), where w = w and k = "turns w evs"] hosted_step_ok [OF run_next.hyps(2)]
      by (cases "ev = Turn w") (simp_all add: turns_def)
  qed
  then show ?thesis by (simp add: draining_def)
qed

lemma ended_step:
  assumes "hosted_step h ev ts h'" and "w \<in> hs_ended h"
  shows "ev \<noteq> Turn w" and "w \<in> hs_ended h'" and "w = Matching_t \<Longrightarrow> ts = []"
proof -
  show ne: "ev \<noteq> Turn w" using assms by (auto elim!: hosted_stepE)
  show "w \<in> hs_ended h'" using step_grows(2) [OF assms(1) ne] assms(2) by blast
  show "w = Matching_t \<Longrightarrow> ts = []" using assms by (auto elim!: hosted_stepE)
qed

lemma ended_run:
  assumes "hosted_run h evs ex h'" and "w \<in> hs_ended h"
  shows "grows w (hs_running h) (hs_running h') \<and> w \<in> hs_ended h' \<and> (w = Matching_t \<longrightarrow> ex = [])"
  using assms
proof (induction rule: hosted_run.induct)
  case (run_next evs ex h1 ev ts h2)
  then show ?case
    using ended_step [OF run_next.hyps(2), of w] step_grows(1) [OF run_next.hyps(2), of w]
    by (auto intro: grows_trans)
qed simp

text \<open>
  C10: What shutdown leaves behind. Every request a client has sent is decided: when the
  validator thread has ended, the order queue is empty, because the coordinator refuses new
  requests before the marker is put. An accepted order need not reach the exchange: once
  the matching thread has ended, nothing trades any more, and every order the validator has
  accepted behind the marker stays in its queue, and what it accepts later joins it.
\<close>

theorem shutdown_outcome:
  assumes "hosted_run (host sv) evs ex h"
  shows "(Validator_t \<in> hs_ended h \<longrightarrow> rn_order_queue (hs_running h) = []) \<and>
    (\<forall>evs' ex' h'. Matching_t \<in> hs_ended h \<and> hosted_run h evs' ex' h' \<longrightarrow>
       ex' = [] \<and> (\<exists>new. match_queue (rn_pipe (hs_running h')) = match_queue (rn_pipe (hs_running h)) @ new))"
proof (intro conjI impI allI)
  have ok: "host_ok h" using hosted_run_ok [OF assms host_ok_start] .
  show "rn_order_queue (hs_running h) = []" if "Validator_t \<in> hs_ended h"
    using host_okD(5,6) [OF ok] that by fastforce
  fix evs' ex' h'
  assume a: "Matching_t \<in> hs_ended h \<and> hosted_run h evs' ex' h'"
  note run = ended_run [OF conjunct2 [OF a] conjunct1 [OF a]]
  then show "ex' = []" by simp
  obtain new where "map Checked (match_queue (rn_pipe (hs_running h'))) = map Checked (match_queue (rn_pipe (hs_running h))) @ new"
    using run by (auto simp: grows_def)
  then show "\<exists>new. match_queue (rn_pipe (hs_running h')) = match_queue (rn_pipe (hs_running h)) @ new"
    by (auto simp: map_eq_append_conv inj_map_eq_map inj_def)
qed

section \<open>A shutdown with an order on its way\<close>

lemma run_append:
  assumes "hosted_run h1 e2 x2 h2" and "hosted_run h e1 x1 h1"
  shows "hosted_run h (e1 @ e2) (x1 @ x2) h2"
  using assms
proof (induction rule: hosted_run.induct)
  case (run_next evs ex h1' ev ts h2)
  from hosted_run.run_next [OF run_next.IH [OF run_next.prems] run_next.hyps(2)] show ?case by simp
qed simp

lemma run_one: "hosted_step h ev ts h' \<Longrightarrow> hosted_run h [ev] ts h'"
  using hosted_run.run_next [OF hosted_run.run_start] by fastforce

lemma do_shutdown_program [simp]:
  "hs_program (do_shutdown stamp a h) = hs_program h"
  "do_shutdown stamp a (h\<lparr>hs_program := p\<rparr>) = (do_shutdown stamp a h)\<lparr>hs_program := p\<rparr>"
  by (cases a; simp add: coordinate_def)+

lemma run_shutdown:
  "hs_program h = as \<Longrightarrow>
   hosted_run h (replicate (length as) Shutting_down) [] ((fold (do_shutdown stamp) as h)\<lparr>hs_program := []\<rparr>)"
proof (induction as arbitrary: h)
  case Nil
  then have "h\<lparr>hs_program := []\<rparr> = h" by simp
  then show ?case using run_start [of h] by simp
next
  case (Cons a as)
  let ?h1 = "(do_shutdown stamp a h)\<lparr>hs_program := as\<rparr>"
  have fold_program: "fold (do_shutdown stamp) bs (g\<lparr>hs_program := p\<rparr>) = (fold (do_shutdown stamp) bs g)\<lparr>hs_program := p\<rparr>"
    for bs g p by (induction bs arbitrary: g) simp_all
  have "hosted_run h [Shutting_down] [] ?h1" by (rule run_one, rule Host_shutdown) (rule Cons.prems)
  from run_append [OF Cons.IH [of ?h1] this] show ?case by (simp add: fold_program)
qed

definition demo_stop :: "server \<Rightarrow> hosted" where
  "demo_stop sv =
     (fold (do_shutdown (\<lambda>_. 0)) shutdown_program ((host sv)\<lparr>hs_running := demo_run sv\<rparr>))\<lparr>hs_program := []\<rparr>"

lemma demo_stop_run:
  assumes "sv_game sv = new_game"
  shows "hosted_run (host sv) ([By_client, By_client] @ replicate 8 Shutting_down) [] (demo_stop sv)"
proof -
  let ?r = "register_call ''r'' ''token'' ''now'' ''Alpha'' ''market_maker'' (started sv)"
  let ?h = "(host sv)\<lparr>hs_running := ?r\<rparr>"
  have "client_step (hs_running (host sv)) ?r"
    by (simp add: host_def, rule Register_call) (simp add: started_def assms new_game_def)
  from run_one [OF Host_client [OF this]] have 1: "hosted_run (host sv) [By_client] [] ?h" .
  have "client_step (hs_running ?h) (demo_run sv)" by (simp add: demo_run_def Submit_call)
  from Host_client [OF this] have "hosted_step ?h By_client [] ((host sv)\<lparr>hs_running := demo_run sv\<rparr>)" by simp
  from run_append [OF run_one [OF this] 1]
  have 2: "hosted_run (host sv) [By_client, By_client] [] ((host sv)\<lparr>hs_running := demo_run sv\<rparr>)" by simp
  have program: "hs_program ((host sv)\<lparr>hs_running := demo_run sv\<rparr>) = shutdown_program" by (simp add: host_def)
  have "length shutdown_program = 8" by (simp add: shutdown_program_def)
  with run_append [OF run_shutdown [OF program, of "\<lambda>_. 0"] 2] show ?thesis
    by (simp only: demo_stop_def append_Nil)
qed

lemma demo_stop_state:
  shows "rn_order_queue (hs_running (demo_stop sv)) = rn_order_queue (demo_run sv)"
    and "match_queue (rn_pipe (hs_running (demo_stop sv))) = match_queue (rn_pipe (demo_run sv))"
    and "p_positions (rn_pipe (hs_running (demo_stop sv))) = p_positions (rn_pipe (demo_run sv))"
    and "p_windows (rn_pipe (hs_running (demo_stop sv))) = p_windows (rn_pipe (demo_run sv))"
    and "sv_validator (rn_server (hs_running (demo_stop sv))) = sv_validator (rn_server (demo_run sv))"
    and "hs_ended (demo_stop sv) = {}"
    and "hs_ahead (demo_stop sv) Matching_t = Some (length (match_queue (rn_pipe (demo_run sv))))"
    and "hs_ahead (demo_stop sv) Validator_t = Some (length (rn_order_queue (demo_run sv)))"
    and "told (hs_running (demo_stop sv))"
  by (simp_all add: demo_stop_def shutdown_program_def coordinate_def host_def shutdown_clear_def shutdown_wake_cleanup_def)

lemma demo_accepted:
  assumes "quantity o1 = 7" and "role t = ''market_maker''" and "team_positions ps (team_id t) = []"
  shows "granted default_registry [(''market_maker'', [limit_50])] ts (New_order o1 t rid)
    (s\<lparr>p_positions := ps\<rparr>)"
proof -
  have "- 50 \<le> order_delta o1 \<and> order_delta o1 \<le> 50" using assms(1) by (simp add: order_delta_def)
  then show ?thesis
    using assms
    by (simp add: validate_new_order_def validate_order_def order_context_def get_constraints_for_role_def limit_50_def
        check_position_limit_def get_positions_def held_def param_def verdict_def numeric_def num_le_def neg_le_num_def
        accept_result_def acceptance_def Let_def)
qed

lemma enqueue_pipe [simp]:
  "match_queue (rn_pipe (enqueue b r)) = match_queue (rn_pipe r)"
  "p_positions (rn_pipe (enqueue b r)) = p_positions (rn_pipe r)"
  "sv_validator (rn_server (enqueue b r)) = sv_validator (rn_server r)"
  by (cases b; cases "fst b"; auto simp: enqueue_def)+

lemma demo_run_state:
  assumes "p_positions (sv_pipeline sv) = []" and "match_queue (sv_pipeline sv) = []"
  shows "match_queue (rn_pipe (demo_run sv)) = []" and "team_positions (p_positions (rn_pipe (demo_run sv))) x = []"
    and "sv_validator (rn_server (demo_run sv)) = sv_validator sv"
proof -
  let ?r = "register_call ''r'' ''token'' ''now'' ''Alpha'' ''market_maker'' (started sv)"
  have "match_queue (rn_pipe ?r) = []" "sv_validator (rn_server ?r) = sv_validator sv"
    using assms(2) by (simp_all add: register_call_def rn_pipe_def started_def split: prod.split)
  moreover have "team_positions (p_positions (rn_pipe ?r)) x = []"
    using assms(1)
    by (auto simp: register_call_def register_team_endpoint_def rn_pipe_def started_def initialize_team_def
        team_positions_def split: prod.split option.split)
  ultimately show "match_queue (rn_pipe (demo_run sv)) = []" "team_positions (p_positions (rn_pipe (demo_run sv))) x = []"
    "sv_validator (rn_server (demo_run sv)) = sv_validator sv"
    by (simp_all add: demo_run_def submit_call_def split: sum.split)
qed

lemma demo_stopped:
  obtains sv q where "startup (\<lambda>_. (''Monday'', 34200)) () () demo_file = Inr (Some sv)"
    and "hosted_run (host sv) ([By_client, By_client] @ replicate 8 Shutting_down) [] (demo_stop sv)"
    and "hs_ahead (demo_stop sv) Validator_t = Some 1" and "hs_ahead (demo_stop sv) Matching_t = Some 0"
    and "hs_ended (demo_stop sv) = {}" and "told (hs_running (demo_stop sv))"
    and "match_queue (rn_pipe (validator_turn ts (hs_running (demo_stop sv)))) = [q]"
proof -
  obtain sv where sv: "startup (\<lambda>_. (''Monday'', 34200)) () () demo_file = Inr (Some sv)" "sv_game sv = new_game"
    "p_coordinator (sv_pipeline sv) = new_coordinator (Some (whole_seconds half_second))"
    "sv_validator sv = [(''market_maker'', [limit_50])]"
    by (rule demo_server)
  have parts: "p_positions (sv_pipeline sv) = []" "match_queue (sv_pipeline sv) = []"
    by (rule startup_parts [OF sv(1)], simp add: empty_pipeline_def)+
  obtain o1 t rid where q: "rn_order_queue (demo_run sv) = [New_order o1 t rid]" "quantity o1 = 7" "role t = ''market_maker''"
    using demo_run_queue [OF sv(2,3)] by blast
  note run = demo_run_state [OF parts]
  let ?r = "hs_running (demo_stop sv)"
  have "granted default_registry (sv_validator (rn_server ?r)) ts (New_order o1 t rid) (rn_pipe ?r)"
    using demo_accepted [OF q(2,3), of "p_positions (rn_pipe ?r)" ts rid "rn_pipe ?r"]
    by (simp add: demo_stop_state run sv(4))
  then have "match_queue (rn_pipe (validator_turn ts ?r)) = [(o1, t)]"
    by (auto simp: validator_turn_def demo_stop_state q(1) settings_of_def handle_new_order_validation_def Let_def run)
  with that [OF sv(1) demo_stop_run [OF sv(2)]] show thesis
    using q(1) run by (simp add: demo_stop_state)
qed


lemma marker_turn:
  assumes "hs_ahead h w = Some 0" and "w \<notin> hs_ended h" and "w \<noteq> Websocket_t"
  shows "hosted_step h (Turn w) [] (h\<lparr>hs_ended := insert w (hs_ended h)\<rparr>)"
proof -
  have "next_item w ts ok h = h\<lparr>hs_ended := insert w (hs_ended h)\<rparr>" for ts ok
    using assms(1) by (simp add: next_item_def)
  with Host_turn [of w h "[]"] assms show ?thesis by simp
qed

theorem shutdown_drains_witness:
  "\<exists>sv h h'. startup (\<lambda>_. (''Monday'', 34200)) () () demo_file = Inr (Some sv) \<and>
     hosted_run (host sv) ([By_client, By_client] @ replicate 8 Shutting_down) [] h \<and>
     hs_ahead h Matching_t = Some 0 \<and> hosted_run h [Turn Matching_t] [] h' \<and> Matching_t \<in> hs_ended h'"
proof (rule demo_stopped)
  fix sv q
  let ?h = "demo_stop sv"
  let ?h' = "?h\<lparr>hs_ended := insert Matching_t (hs_ended ?h)\<rparr>"
  assume a: "startup (\<lambda>_. (''Monday'', 34200)) () () demo_file = Inr (Some sv)"
    "hosted_run (host sv) ([By_client, By_client] @ replicate 8 Shutting_down) [] ?h"
    "hs_ahead ?h Matching_t = Some 0" "hs_ended ?h = {}"
  have m: "Matching_t \<notin> hs_ended ?h" using a(4) by simp
  have run: "hosted_run ?h [Turn Matching_t] [] ?h'" by (rule run_one, rule marker_turn) (simp_all add: a)
  have "Matching_t \<in> hs_ended ?h'" using shutdown_drains [OF a(2,3) m run] by (simp add: turns_def)
  with a(1,2,3) run show ?thesis by blast
qed

text \<open>
  Here the matching thread takes its marker first; then the validator accepts the order,
  which stays behind.
\<close>

theorem shutdown_outcome_witness:
  "\<exists>sv evs h i. startup (\<lambda>_. (''Monday'', 34200)) () () demo_file = Inr (Some sv) \<and>
     hosted_run (host sv) evs [] h \<and> hs_ended h = {Validator_t, Matching_t} \<and>
     rn_order_queue (hs_running h) = [] \<and> match_queue (rn_pipe (hs_running h)) = [i] \<and>
     (\<forall>evs' ex' h'. hosted_run h evs' ex' h' \<longrightarrow>
        ex' = [] \<and> (\<exists>new. match_queue (rn_pipe (hs_running h')) = i # new))"
proof (rule demo_stopped)
  fix sv i
  let ?ts = "\<lparr>t_count = 0, t_increment = 0, t_notify = 0\<rparr>" and ?h = "demo_stop sv"
  let ?h1 = "?h\<lparr>hs_ended := {Matching_t}\<rparr>"
  let ?h2 = "next_item Validator_t ?ts (\<lambda>_ _. True) ?h1"
  let ?h3 = "?h2\<lparr>hs_ended := {Validator_t, Matching_t}\<rparr>"
  assume a: "startup (\<lambda>_. (''Monday'', 34200)) () () demo_file = Inr (Some sv)"
    "hosted_run (host sv) ([By_client, By_client] @ replicate 8 Shutting_down) [] ?h"
    "hs_ahead ?h Validator_t = Some 1" "hs_ahead ?h Matching_t = Some 0" "hs_ended ?h = {}"
    "match_queue (rn_pipe (validator_turn ?ts (hs_running ?h))) = [i]"
  have "rn_order_queue (hs_running ?h) \<noteq> []"
    using host_okD(5) [OF hosted_run_ok [OF a(2) host_ok_start] a(3)] by auto
  then have h2: "?h2 = ?h1\<lparr>hs_running := validator_turn ?ts (hs_running ?h), hs_ahead := (hs_ahead ?h)(Validator_t \<mapsto> 0)\<rparr>"
    by (simp add: next_item_def a(3))
  have 1: "hosted_step ?h (Turn Matching_t) [] ?h1"
    using marker_turn [of ?h Matching_t] a(4,5) by simp
  have 2: "hosted_step ?h1 (Turn Validator_t) [] ?h2"
    by (rule Host_turn) simp_all
  have 3: "hosted_step ?h2 (Turn Validator_t) [] ?h3"
    using marker_turn [of ?h2 Validator_t] by (simp add: h2)
  from run_append [OF run_one [OF 3] run_append [OF run_one [OF 2] run_append [OF run_one [OF 1] a(2)]]]
  obtain evs where run: "hosted_run (host sv) evs [] ?h3" by auto
  have ended: "hs_ended ?h3 = {Validator_t, Matching_t}" and mq: "match_queue (rn_pipe (hs_running ?h3)) = [i]"
    using a(6) by (simp_all add: h2)
  note out = shutdown_outcome [OF run]
  have "rn_order_queue (hs_running ?h3) = []" using out ended by simp
  moreover have "\<forall>evs' ex' h'. hosted_run ?h3 evs' ex' h' \<longrightarrow>
      ex' = [] \<and> (\<exists>new. match_queue (rn_pipe (hs_running h')) = i # new)"
    using conjunct2 [OF out] ended mq by simp
  ultimately show ?thesis using a(1) run ended mq by blast
qed

end
