(* ===== verification/Match_Termination.thy ===== *)
theory Match_Termination
  imports Order_Book
begin

text \<open>
  The \<open>while\<close> loop of \<open>_match_order\<close> returns: read with a counter of iterations, as a loop
  that has no value when the counter runs out, it has one after at most one iteration per
  resting order and one more, and that value is the one of \<open>match_order\<close>.
\<close>

fun match_while ::
    "nat \<Rightarrow> order \<Rightarrow> order_book \<Rightarrow> trade list \<Rightarrow> (exn option \<times> trade list \<times> order \<times> order_book) option" where
  "match_while n o1 b ts =
     (case opposite_side o1 b of
        [] \<Rightarrow> Some (None, ts, o1, b)
      | lv # rest \<Rightarrow>
          if is_filled o1 \<or> beyond_limit o1 (l_price lv) then Some (None, ts, o1, b)
          else (case n of
            0 \<Rightarrow> None
          | Suc k \<Rightarrow>
              (case match_body o1 lv rest b ts of
                 (Some e, ts', o2, b') \<Rightarrow> Some (Some e, ts', o2, b')
               | (None, ts', o2, b') \<Rightarrow> match_while k o2 b' ts')))"

declare match_while.simps [simp del]

definition resting :: "order \<Rightarrow> order_book \<Rightarrow> nat" where
  "resting o1 b = side_size (opposite_side o1 b)"

lemma match_body_takes:
  assumes "match_body o1 lv rest b ts = (None, ts', o2, b')" and "opposite_side o1 b = lv # rest"
  shows "length ts' = Suc (length ts) \<and>
    (resting o2 b' < resting o1 b \<or> is_filled o2 \<and> resting o2 b' = resting o1 b \<and> 0 < resting o1 b)"
  using assms
  by (auto simp: match_body_def drop_filled_def Let_def side_size_def is_filled_def fill_Inr resting_def
      level_remove_head level_is_empty_def min_def
      split: list.splits sum.splits if_splits)

lemma match_body_trades:
  assumes "match_body o1 lv rest b ts = (Some e, ts', o2, b')" and "opposite_side o1 b = lv # rest"
  shows "length ts' \<le> length ts + resting o1 b"
  using assms
  by (auto simp: match_body_def Let_def side_size_def resting_def split: list.splits sum.splits if_splits prod.splits)

lemma match_while_loop:
  "is_filled o1 \<or> resting o1 b < n \<Longrightarrow>
   match_while n o1 b ts = Some (match_loop o1 b ts) \<and>
   length (fst (snd (match_loop o1 b ts))) \<le> length ts + (if is_filled o1 then 0 else resting o1 b)"
proof (induction n arbitrary: o1 b ts)
  case 0
  then show ?case
    by (simp add: match_while.simps match_loop.simps [of o1 b ts] split: list.split)
next
  case (Suc n)
  show ?case
  proof (cases "opposite_side o1 b")
    case Nil
    then show ?thesis by (simp add: match_while.simps match_loop.simps [of o1 b ts])
  next
    case (Cons lv rest)
    show ?thesis
    proof (cases "is_filled o1 \<or> beyond_limit o1 (l_price lv)")
      case True
      with Cons show ?thesis by (auto simp: match_while.simps match_loop.simps [of o1 b ts])
    next
      case False
      then have run: "match_while (Suc n) o1 b ts =
          (case match_body o1 lv rest b ts of
             (Some e, ts', o2, b') \<Rightarrow> Some (Some e, ts', o2, b') | (None, ts', o2, b') \<Rightarrow> match_while n o2 b' ts')"
        "match_loop o1 b ts =
          (case match_body o1 lv rest b ts of
             (Some e, ts', o2, b') \<Rightarrow> (Some e, ts', o2, b') | (None, ts', o2, b') \<Rightarrow> match_loop o2 b' ts')"
        using Cons by (simp_all add: match_while.simps [of "Suc n"] match_loop.simps [of o1 b ts])
      obtain e ts' o2 b' where body: "match_body o1 lv rest b ts = (e, ts', o2, b')"
        by (metis prod_cases4)
      show ?thesis
      proof (cases e)
        case (Some x)
        with run body match_body_trades [OF body [unfolded Some] Cons] False show ?thesis by simp
      next
        case None
        from match_body_takes [OF body [unfolded None] Cons] have took: "length ts' = Suc (length ts)"
          "resting o2 b' < resting o1 b \<or> is_filled o2 \<and> resting o2 b' = resting o1 b \<and> 0 < resting o1 b"
          by simp_all
        with Suc.prems False have "is_filled o2 \<or> resting o2 b' < n" by auto
        from Suc.IH [OF this, of ts'] run body None took False show ?thesis by (auto split: if_splits)
      qed
    qed
  qed
qed

text \<open>
  C13: matching terminates. From any book, well formed or not, the loop of \<open>_match_order\<close>
  returns after at most one iteration per order resting on the opposite side and one more,
  with as many trades as that at most.
\<close>

theorem match_order_terminates:
  "match_while (resting o1 b + 1 + k) o1 b [] = Some (match_order o1 b) \<and>
   length (fst (snd (match_order o1 b))) \<le> resting o1 b"
  using match_while_loop [of o1 b "resting o1 b + 1 + k" "[]"] by (auto simp: match_order_def split: if_splits)

end
