(* ===== verification/Spec2Isabelle.thy ===== *)
theory Spec2Isabelle
  imports Book_Properties Engine_Properties Auction_Pricing Venue_Properties Position_Properties
    Validation_Properties Coordinator_Properties Ws_Properties Pipeline_Messages System_Properties Shutdown Match_Termination
begin

text \<open>
  A verification library for the Intern Trading Game, a simulated options exchange that
  trading bots use over a REST API and a websocket. Paths below are relative to
  \<open>src/src/intern_trading_game/\<close>.

  The program. HTTP endpoints (\<open>api/endpoints\<close>) authenticate a team by its API key, register
  the request with the response coordinator and put a message on the order queue; then they
  wait for the coordinator. The validator thread checks orders against the constraints of
  the team's role, answers through the coordinator, and passes accepted orders on; it cancels
  orders directly on the venue. The matching thread submits orders to the venue, which owns
  an order book per instrument and matches at once or, before the open, collects orders for
  the opening auction; the same thread polls the market phase. Results go to the trade
  publisher, which books fees and queues reports, and to the position tracker. A websocket
  thread delivers the queued messages. At startup everything is built from one YAML file.

  Data model and helpers.
    \<open>Trading_Prelude\<close>: exceptions and messages as values, dicts as association lists,
      rounding, decimal printing, bisection, slices.
    \<open>Core_Models\<close>: \<open>components/core/models.py\<close> and \<open>types.py\<close>, with \<open>order_ok\<close> and \<open>trade_ok\<close>,
      what the constructors guarantee.
    \<open>Py_Values\<close>: the untyped values of YAML files, Python's operations on them, and
      evaluation that stops at the first exception.

  The exchange.
    \<open>Order_Book\<close>: \<open>components/orderbook/book.py\<close>, exceptions and half-made changes included.
      \<open>Book_Invariant\<close> states when a book is well formed (over the locale \<open>price_ladder\<close>, the
      two sides being its interpretations); \<open>Book_Refinement\<close> and \<open>Book_Theorems\<close> show that
      every operation keeps it and refines a flat price-time priority specification;
      \<open>Match_Termination\<close> that the matching loop returns; \<open>Book_Properties\<close> collects the
      results.
    \<open>Matching_Engines\<close>: \<open>components/orderbook/matching_engine.py\<close>, both engines (locale
      \<open>matching_engine\<close>). \<open>Batch_Auction\<close> and \<open>Batch_Execution\<close> carry the lemmas of the opening
      auction, \<open>Engine_Properties\<close> its results.
    \<open>Auction_Pricing\<close>: the maximum-volume strategy of \<open>batch_auction_strategies.py\<close> (locale
      \<open>pricing_strategy\<close>), optimal over all prices.
    \<open>Phases\<close>: \<open>phase/manager.py\<close> and \<open>phase/transition_handler.py\<close> (locale
      \<open>exchange_operations\<close>, interpreted by the venue in \<open>Venue\<close>).
    \<open>Venue\<close>, \<open>Venue_Properties\<close>: \<open>exchange/venue.py\<close>, its operations as steps, its invariant in
      every reachable state.

  Services and threads.
    \<open>Order_Validation\<close>, \<open>Validation_Properties\<close>: \<open>validation/order_validator.py\<close>, one
      interpretation of the locale \<open>constraint\<close> per constraint.
    \<open>Positions\<close>, \<open>Position_Properties\<close>: position service and tracker thread, fees, the trade
      processor (locale \<open>position_store\<close>).
    \<open>Api_Models\<close>: the response envelope. \<open>Coordinator\<close>, \<open>Coordinator_Invariant\<close>,
      \<open>Coordinator_Properties\<close>: \<open>response/coordinator.py\<close> with all interleavings of its callers as
      a step relation; a wait and a shutdown are split where other threads run.
    \<open>Ws_Messages\<close>, \<open>Ws_Manager\<close>, \<open>Ws_Properties\<close>: the websocket messages, manager, routing and
      thread. \<open>Services\<close>: \<open>services/order_validation.py\<close> and \<open>order_matching.py\<close>.
    \<open>Pipeline\<close>, \<open>Pipeline_Properties\<close>, \<open>Pipeline_Flow\<close>, \<open>Pipeline_Messages\<close>: the validator and
      matching threads of \<open>exchange/threads_v2.py\<close>, the trade publisher, and runs of all
      threads: answers, the rate limit, the ledger, what reaches a client.

  The server.
    \<open>Game\<close>: teams, keys, authentication, and the dataclasses of a session that no code uses
      yet. \<open>Api_Endpoints\<close>: the order endpoints and the round trip of a request. \<open>Config_Loader\<close>, \<open>Config_Properties\<close>: \<open>infrastructure/config\<close> and the
      validator factory, with round trips.
    \<open>Server\<close>, \<open>Server_Properties\<close>: \<open>api/main.py\<close> and the other factories: startup, the websocket
      endpoint. \<open>System\<close>, \<open>System_Properties\<close>: the running server as one transition system in
      which clients and threads act in any order; its invariant joins those of the
      components. \<open>Shutdown\<close>: the end of the server in \<open>api/main.py\<close>, with the markers on the
      queues and the ends of the threads: a refinement of the running server, and what is
      still handled after a shutdown has begun.

  How the code is represented. Quantities and prices are exact rationals, a float being the
  decimal number it prints as, so the rounding of float arithmetic is not seen (the code's
  own \<open>round(price, 2)\<close> is). An object of the code is a record; where
  the code shares an object, the operation returns its new value (orders) or the objects
  live in a store (requests of the coordinator). Exceptions are values of the type \<open>exn\<close>,
  returned with the state at the point of the raise. Python dicts whose order shows are
  association lists. Clock readings, random draws, uuids and tokens, zone conversion and
  the success of socket operations are arguments, so each theorem holds for all of them.
  Timestamps and trade ids, which no modelled code reads, are left out. The dataclasses of the
  configuration store untyped values; \<open>typed\<close> functions say when these are what the
  components' records hold, and what an ill-typed file leads to later is not modelled.

  Bounds. Every function is total and no theorem rests on fuel: loops are structural
  recursions or have a measure (the matching loop: resting orders and whether the order is
  filled; the auction: the orders left on both sides). \<open>Match_Termination\<close> relates the
  matching loop to a counted one, for which one more than the number of resting orders is
  shown to be enough.

  Assumptions. Calls of one thread on the position service, the rate limiter and the
  coordinator are atomic because the code holds their locks. The venue has no lock although
  two threads use it; its operations are taken as atomic all the same. The asyncio lock of
  the websocket manager is modelled as what it is, not reentrant. The configuration file,
  which startup reads twice, does not change in between.

  Not modelled. Parsing YAML; FastAPI and pydantic; thread objects and
  joins; prints and logging; the abstract classes and protocols (\<open>services/interfaces.py\<close>,
  \<open>response/interfaces.py\<close>, the \<open>api.py\<close> files of the domain packages), which have no
  behaviour of their own. Zone offsets and the forms of a time of day that only newer
  Python versions read count as unreadable.
\<close>

end
